(* ===== verification/Prelude.thy ===== *)
theory Prelude
  imports Main "HOL-Library.Word"
begin

text \<open>
  Shared vocabulary of the development: Go's machine integers and byte slices, strings as byte
  sequences, big-endian packing of words, the reader monad in which every decoder is written
  (an error or a value, together with the advanced input), Go slices with a capacity, and the
  collections of simplification rules the component theories extend.
\<close>

unbundle bit_operations_syntax

named_theorems append_simps \<open>every Append function is an append of its encoding\<close>
named_theorems rd_simps \<open>evaluation of the reader monad\<close>
named_theorems enc_len \<open>lengths of encodings\<close>

section \<open>Machine integers, bytes and strings\<close>

type_synonym byte = "8 word"
type_synonym bytes = "byte list"
type_synonym u16 = "16 word"
type_synonym u32 = "32 word"
type_synonym u64 = "64 word"

text \<open>
  A Go string is a sequence of bytes.  The model writes strings as HOL strings (eight-bit
  characters) and converts at the boundary to byte slices.
\<close>

definition str_bytes :: "string \<Rightarrow> bytes" where
  "str_bytes s = map (\<lambda>c. of_nat (of_char c)) s"

definition bytes_str :: "bytes \<Rightarrow> string" where
  "bytes_str b = map (\<lambda>w. char_of (unat w)) b"

text \<open>A Go map with string keys and values, a nil map being the empty one.\<close>

type_synonym strmap = "string \<rightharpoonup> string"

text \<open>
  Go's \<^verbatim>\<open>range\<close> visits the keys of a map in an order the runtime chooses.  The choice is a
  parameter of every definition that ranges over a map: a function that lists the keys.
\<close>

type_synonym range_order = "strmap \<Rightarrow> string list"

definition ranges :: "range_order \<Rightarrow> strmap \<Rightarrow> bool" where
  "ranges ord m \<longleftrightarrow> distinct (ord m) \<and> set (ord m) = dom m"

definition pairs :: "range_order \<Rightarrow> strmap \<Rightarrow> (string \<times> string) list" where
  "pairs ord m = map (\<lambda>k. (k, the (m k))) (ord m)"

section \<open>Big-endian words\<close>

definition be16 :: "u16 \<Rightarrow> bytes" where
  "be16 w = [ucast (drop_bit 8 w), ucast w]"

definition be32 :: "u32 \<Rightarrow> bytes" where
  "be32 w = [ucast (drop_bit 24 w), ucast (drop_bit 16 w), ucast (drop_bit 8 w), ucast w]"

definition be64 :: "u64 \<Rightarrow> bytes" where
  "be64 w = [ucast (drop_bit 56 w), ucast (drop_bit 48 w), ucast (drop_bit 40 w),
             ucast (drop_bit 32 w), ucast (drop_bit 24 w), ucast (drop_bit 16 w),
             ucast (drop_bit 8 w), ucast w]"

definition of_be16 :: "bytes \<Rightarrow> u16" where
  "of_be16 b = push_bit 8 (ucast (b ! 0)) OR ucast (b ! 1)"

definition of_be32 :: "bytes \<Rightarrow> u32" where
  "of_be32 b = push_bit 24 (ucast (b ! 0)) OR push_bit 16 (ucast (b ! 1)) OR
               push_bit 8 (ucast (b ! 2)) OR ucast (b ! 3)"

definition of_be64 :: "bytes \<Rightarrow> u64" where
  "of_be64 b = push_bit 56 (ucast (b ! 0)) OR push_bit 48 (ucast (b ! 1)) OR
               push_bit 40 (ucast (b ! 2)) OR push_bit 32 (ucast (b ! 3)) OR
               push_bit 24 (ucast (b ! 4)) OR push_bit 16 (ucast (b ! 5)) OR
               push_bit 8 (ucast (b ! 6)) OR ucast (b ! 7)"

section \<open>The reader monad\<close>

text \<open>
  A decoder consumes a source (a byte slice or a stream) and returns an error or a value
  together with the source that is left.  The source advances on errors too: the connection
  handler goes on reading after some of them.
\<close>

type_synonym ('e, 's, 'a) rd = "'s \<Rightarrow> ('e + 'a) \<times> 's"

definition rd_return :: "'a \<Rightarrow> ('e, 's, 'a) rd" where
  "rd_return x s = (Inr x, s)"

definition rd_fail :: "'e \<Rightarrow> ('e, 's, 'a) rd" where
  "rd_fail e s = (Inl e, s)"

definition rd_bind :: "('e, 's, 'a) rd \<Rightarrow> ('a \<Rightarrow> ('e, 's, 'b) rd) \<Rightarrow> ('e, 's, 'b) rd" where
  "rd_bind m f s = (case m s of (Inl e, s') \<Rightarrow> (Inl e, s') | (Inr x, s') \<Rightarrow> f x s')"

text \<open>Rewriting the error of a computation, as \<^verbatim>\<open>err = msgp.WrapError(err, ...)\<close> does.\<close>

definition rd_wrap :: "('e \<Rightarrow> 'e) \<Rightarrow> ('e, 's, 'a) rd \<Rightarrow> ('e, 's, 'a) rd" where
  "rd_wrap w m s = (case m s of (Inl e, s') \<Rightarrow> (Inl (w e), s') | (Inr x, s') \<Rightarrow> (Inr x, s'))"

text \<open>A loop that runs its body \<open>n\<close> times, threading a value and stopping at an error.\<close>

fun rd_times :: "nat \<Rightarrow> ('z \<Rightarrow> ('e, 's, 'z) rd) \<Rightarrow> 'z \<Rightarrow> ('e, 's, 'z) rd" where
  "rd_times 0 f z = rd_return z"
| "rd_times (Suc n) f z = rd_bind (f z) (rd_times n f)"

section \<open>Decimal numbers\<close>

text \<open>The decimal form of a non-negative integer, as \<^verbatim>\<open>%v\<close> and \<^verbatim>\<open>%d\<close> print it.\<close>

fun show_nat :: "nat \<Rightarrow> string" where
  "show_nat n = (if n < 10 then [char_of (48 + n)] else show_nat (n div 10) @ [char_of (48 + n mod 10)])"

declare show_nat.simps [simp del]

section \<open>Go slices\<close>

text \<open>
  A slice is a backing array and a length; the array's length is the capacity.  Reslicing
  within the capacity keeps the old contents of the array, as Go does.
\<close>

datatype 'a slice = Slice (arr: "'a list") (len: nat)

definition elems :: "'a slice \<Rightarrow> 'a list" where
  "elems s = take (len s) (arr s)"

definition nil_slice :: "'a slice" where
  "nil_slice = Slice [] 0"

definition slice_of :: "'a list \<Rightarrow> 'a slice" where
  "slice_of xs = Slice xs (length xs)"

text \<open>
  \<^verbatim>\<open>if cap(s) >= n { s = s[:n] } else { s = make([]T, n) }\<close>, with the zero value of the
  element type.
\<close>

definition resize :: "'a \<Rightarrow> nat \<Rightarrow> 'a slice \<Rightarrow> 'a slice" where
  "resize zero n s = (if n \<le> length (arr s) then Slice (arr s) n else Slice (replicate n zero) n)"

definition slice_upd :: "nat \<Rightarrow> 'a \<Rightarrow> 'a slice \<Rightarrow> 'a slice" where
  "slice_upd i x s = Slice ((arr s)[i := x]) (len s)"

text \<open>\<^verbatim>\<open>for i := range s { s[i], err = f(s[i]) }\<close>, from index \<open>i\<close> on for \<open>k\<close> elements.\<close>

fun slice_fill :: "('a \<Rightarrow> nat \<Rightarrow> ('e, 's, 'a) rd) \<Rightarrow> nat \<Rightarrow> nat \<Rightarrow> 'a slice \<Rightarrow> ('e, 's, 'a slice) rd" where
  "slice_fill f i 0 s = rd_return s"
| "slice_fill f i (Suc k) s =
     rd_bind (f (arr s ! i) i) (\<lambda>x. slice_fill f (Suc i) k (slice_upd i x s))"

section \<open>Lemmas on strings and words\<close>

lemma of_char_less_256 [simp]: "(of_char c :: nat) < 256"
  by (metis char_of_eq_iff mod_less_divisor of_char_of of_char_mod_256 zero_less_numeral)

lemma bytes_str_str_bytes [simp]: "bytes_str (str_bytes s) = s"
  by (simp add: bytes_str_def str_bytes_def comp_def unat_of_nat map_idI)

lemma unat_byte_less_256: "unat (b :: byte) < 256"
  using unsigned_less [of b] by simp

lemma str_bytes_bytes_str [simp]: "str_bytes (bytes_str b) = b"
  by (simp add: bytes_str_def str_bytes_def comp_def unat_byte_less_256 map_idI)

lemma str_bytes_Nil [simp]: "str_bytes [] = []"
  by (simp add: str_bytes_def)

lemma length_str_bytes [simp]: "length (str_bytes s) = length s"
  by (simp add: str_bytes_def)

lemma length_bytes_str [simp]: "length (bytes_str b) = length b"
  by (simp add: bytes_str_def)

lemma str_bytes_inject [simp]: "str_bytes s = str_bytes t \<longleftrightarrow> s = t"
  by (metis bytes_str_str_bytes)

lemma length_be [enc_len, simp]:
  "length (be16 a) = 2" "length (be32 b) = 4" "length (be64 c) = 8"
  by (simp_all add: be16_def be32_def be64_def)

text \<open>Reassembling a word byte by byte, least significant byte first.\<close>

lemma byte_last: "ucast (ucast w :: byte) = take_bit 8 (w :: 'a::len word)"
  by (rule bit_word_eqI) (auto simp: bit_simps)

lemma byte_step:
  "push_bit k (take_bit 8 (drop_bit k w)) OR take_bit k w = take_bit (k + 8) (w :: 'a::len word)"
  by (rule bit_word_eqI) (auto simp: bit_simps)

lemmas byte_steps = byte_last
  byte_step [where k = 8, simplified] byte_step [where k = 16, simplified]
  byte_step [where k = 24, simplified] byte_step [where k = 32, simplified]
  byte_step [where k = 40, simplified] byte_step [where k = 48, simplified]
  byte_step [where k = 56, simplified]

lemma take_bit_full:
  "take_bit 16 (u :: u16) = u" "take_bit 32 (v :: u32) = v" "take_bit 64 (w :: u64) = w"
  by (simp_all add: take_bit_word_eq_self)

lemma of_be16_be16 [simp]: "of_be16 (be16 w @ bs) = w"
  by (simp add: of_be16_def be16_def byte_steps take_bit_full)

lemma of_be32_be32 [simp]: "of_be32 (be32 w @ bs) = w"
  by (simp add: of_be32_def be32_def byte_steps take_bit_full)

lemma of_be64_be64 [simp]: "of_be64 (be64 w @ bs) = w"
  by (simp add: of_be64_def be64_def byte_steps take_bit_full)

section \<open>Lemmas on the reader monad\<close>

lemma rd_bind_Inr [rd_simps]: "m s = (Inr x, s') \<Longrightarrow> rd_bind m f s = f x s'"
  by (simp add: rd_bind_def)

lemma rd_bind_Inl [rd_simps]: "m s = (Inl e, s') \<Longrightarrow> rd_bind m f s = (Inl e, s')"
  by (simp add: rd_bind_def)

lemma rd_return_app [rd_simps]: "rd_return x s = (Inr x, s)"
  by (simp add: rd_return_def)

lemma rd_fail_app [rd_simps]: "rd_fail e s = (Inl e, s)"
  by (simp add: rd_fail_def)

lemma rd_wrap_Inr [rd_simps]: "m s = (Inr x, s') \<Longrightarrow> rd_wrap w m s = (Inr x, s')"
  by (simp add: rd_wrap_def)

lemma rd_wrap_Inl [rd_simps]: "m s = (Inl e, s') \<Longrightarrow> rd_wrap w m s = (Inl (w e), s')"
  by (simp add: rd_wrap_def)

lemma rd_bind_eq_Inr:
  "rd_bind m f s = (Inr y, t) \<longleftrightarrow> (\<exists>x s'. m s = (Inr x, s') \<and> f x s' = (Inr y, t))"
  by (auto simp: rd_bind_def split: prod.splits sum.splits)

lemma rd_wrap_eq_Inr: "rd_wrap w m s = (Inr y, t) \<longleftrightarrow> m s = (Inr y, t)"
  by (auto simp: rd_wrap_def split: prod.splits sum.splits)

lemma rd_times_numeral [simp]:
  "rd_times (numeral k) f z = rd_bind (f z) (rd_times (pred_numeral k) f)"
  by (simp add: numeral_eq_Suc)

lemma rd_times_mono:
  assumes "\<And>z s z' s'. f z s = (Inr z', s') \<Longrightarrow> g z s = (Inr z', s')"
    and "rd_times n f z s = (Inr y, t)"
  shows "rd_times n g z s = (Inr y, t)"
  using assms(2)
proof (induction n arbitrary: z s)
  case 0
  then show ?case by (simp add: rd_return_def)
next
  case (Suc n)
  then obtain x s' where "f z s = (Inr x, s')" "rd_times n f x s' = (Inr y, t)"
    by (auto simp: rd_bind_eq_Inr)
  then show ?case using Suc.IH assms(1) by (simp add: rd_bind_def)
qed

lemma rd_bind_assoc: "rd_bind (rd_bind m f) g = rd_bind m (\<lambda>x. rd_bind (f x) g)"
  by (rule ext) (auto simp: rd_bind_def split: prod.splits sum.splits)

lemma rd_bind_return [simp]: "rd_bind (rd_return x) f = f x"
  by (rule ext) (simp add: rd_bind_def rd_return_def)

section \<open>Lemmas on slices and ranges\<close>

lemma elems_slice_of [simp]: "elems (slice_of xs) = xs"
  by (simp add: elems_def slice_of_def)

lemma elems_nil [simp]: "elems nil_slice = []"
  by (simp add: elems_def nil_slice_def)

lemma resize_nil: "resize z n nil_slice = Slice (replicate n z) n"
  by (simp add: resize_def nil_slice_def)

lemma len_resize [simp]: "len (resize z n s) = n"
  by (simp add: resize_def)

lemma length_arr_resize: "n \<le> length (arr (resize z n s))"
  by (simp add: resize_def)

lemma map_of_pairs: "ranges ord m \<Longrightarrow> map_of (pairs ord m) = m"
proof -
  assume r: "ranges ord m"
  have "map_of (map (\<lambda>k. (k, the (m k))) ks) k = (if k \<in> set ks then Some (the (m k)) else None)" for ks k
    by (induction ks) auto
  with r show ?thesis
    by (auto simp: pairs_def ranges_def fun_eq_iff domIff)
qed

lemma distinct_pairs: "ranges ord m \<Longrightarrow> distinct (map fst (pairs ord m))"
  by (simp add: pairs_def ranges_def comp_def)

end
