(* ===== verification/Msgp_Types.thy ===== *)
theory Msgp_Types
  imports Prelude
begin

text \<open>
  The MessagePack library the daemon speaks through (\<^verbatim>\<open>src/vendor/github.com/tinylib/msgp/msgp\<close>):
  prefix bytes and their predicates (\<^verbatim>\<open>defs.go\<close>), the table of object sizes (\<^verbatim>\<open>elsize.go\<close>),
  errors (\<^verbatim>\<open>errors.go\<close>), the functions that append an object to a byte slice
  (\<^verbatim>\<open>write_bytes.go\<close>) and the upper bounds of \<^verbatim>\<open>size.go\<close>.  The lemmas give the length of
  every encoding and what its leading byte says.
\<close>

section \<open>Prefix bytes (defs.go)\<close>

abbreviation (input) mnfixint :: byte where "mnfixint \<equiv> 0xe0"
abbreviation (input) mfixmap :: byte where "mfixmap \<equiv> 0x80"
abbreviation (input) mfixarray :: byte where "mfixarray \<equiv> 0x90"
abbreviation (input) mfixstr :: byte where "mfixstr \<equiv> 0xa0"
abbreviation (input) mnil :: byte where "mnil \<equiv> 0xc0"
abbreviation (input) mfalse :: byte where "mfalse \<equiv> 0xc2"
abbreviation (input) mtrue :: byte where "mtrue \<equiv> 0xc3"
abbreviation (input) mbin8 :: byte where "mbin8 \<equiv> 0xc4"
abbreviation (input) mbin16 :: byte where "mbin16 \<equiv> 0xc5"
abbreviation (input) mbin32 :: byte where "mbin32 \<equiv> 0xc6"
abbreviation (input) mext8 :: byte where "mext8 \<equiv> 0xc7"
abbreviation (input) mext16 :: byte where "mext16 \<equiv> 0xc8"
abbreviation (input) mext32 :: byte where "mext32 \<equiv> 0xc9"
abbreviation (input) mfloat32 :: byte where "mfloat32 \<equiv> 0xca"
abbreviation (input) mfloat64 :: byte where "mfloat64 \<equiv> 0xcb"
abbreviation (input) muint8 :: byte where "muint8 \<equiv> 0xcc"
abbreviation (input) muint16 :: byte where "muint16 \<equiv> 0xcd"
abbreviation (input) muint32 :: byte where "muint32 \<equiv> 0xce"
abbreviation (input) muint64 :: byte where "muint64 \<equiv> 0xcf"
abbreviation (input) mint8 :: byte where "mint8 \<equiv> 0xd0"
abbreviation (input) mint16 :: byte where "mint16 \<equiv> 0xd1"
abbreviation (input) mint32 :: byte where "mint32 \<equiv> 0xd2"
abbreviation (input) mint64 :: byte where "mint64 \<equiv> 0xd3"
abbreviation (input) mfixext1 :: byte where "mfixext1 \<equiv> 0xd4"
abbreviation (input) mfixext2 :: byte where "mfixext2 \<equiv> 0xd5"
abbreviation (input) mfixext4 :: byte where "mfixext4 \<equiv> 0xd6"
abbreviation (input) mfixext8 :: byte where "mfixext8 \<equiv> 0xd7"
abbreviation (input) mfixext16 :: byte where "mfixext16 \<equiv> 0xd8"
abbreviation (input) mstr8 :: byte where "mstr8 \<equiv> 0xd9"
abbreviation (input) mstr16 :: byte where "mstr16 \<equiv> 0xda"
abbreviation (input) mstr32 :: byte where "mstr32 \<equiv> 0xdb"
abbreviation (input) marray16 :: byte where "marray16 \<equiv> 0xdc"
abbreviation (input) marray32 :: byte where "marray32 \<equiv> 0xdd"
abbreviation (input) mmap16 :: byte where "mmap16 \<equiv> 0xde"
abbreviation (input) mmap32 :: byte where "mmap32 \<equiv> 0xdf"

definition isfixint :: "byte \<Rightarrow> bool" where "isfixint b \<longleftrightarrow> drop_bit 7 b = 0"
definition isnfixint :: "byte \<Rightarrow> bool" where "isnfixint b \<longleftrightarrow> b AND 0xe0 = mnfixint"
definition isfixmap :: "byte \<Rightarrow> bool" where "isfixmap b \<longleftrightarrow> b AND 0xf0 = mfixmap"
definition isfixarray :: "byte \<Rightarrow> bool" where "isfixarray b \<longleftrightarrow> b AND 0xf0 = mfixarray"
definition isfixstr :: "byte \<Rightarrow> bool" where "isfixstr b \<longleftrightarrow> b AND 0xe0 = mfixstr"
definition wfixint :: "byte \<Rightarrow> byte" where "wfixint u = u AND 0x7f"
definition rfixint :: "byte \<Rightarrow> byte" where "rfixint b = b"
definition wnfixint :: "byte \<Rightarrow> byte" where "wnfixint i = i OR mnfixint"
definition rnfixint :: "byte \<Rightarrow> byte" where "rnfixint b = b"
definition rfixmap :: "byte \<Rightarrow> byte" where "rfixmap b = b AND 0x0f"
definition wfixmap :: "byte \<Rightarrow> byte" where "wfixmap u = mfixmap OR (u AND 0x0f)"
definition rfixstr :: "byte \<Rightarrow> byte" where "rfixstr b = b AND 0x1f"
definition wfixstr :: "byte \<Rightarrow> byte" where "wfixstr u = (u AND 0x1f) OR mfixstr"
definition rfixarray :: "byte \<Rightarrow> byte" where "rfixarray b = b AND 0x0f"
definition wfixarray :: "byte \<Rightarrow> byte" where "wfixarray u = (u AND 0x0f) OR mfixarray"

section \<open>Types, errors and the size table\<close>

datatype mtype = InvalidType | StrType | BinType | MapType | ArrayType | Float64Type
  | Float32Type | BoolType | IntType | UintType | NilType | ExtensionType
  | Complex64Type | Complex128Type | TimeType

text \<open>
  Errors of the library and of the readers below it.  The library's own error types keep a
  context path in a field: \<open>InCtx\<close> is such an error with a path.  \<open>Wrapped\<close> is an \<^verbatim>\<open>errWrapped\<close>
  around any other error; \<open>IoError\<close> is any other error of the underlying connection.
\<close>

datatype rerr = EOF | ErrUnexpectedEOF | IoError string | ErrShortBytes | ErrFatal
  | TypeError mtype mtype | InvalidPrefixError byte | UintBelowZero int | UintOverflow u64 nat
  | InCtx rerr string | Wrapped rerr string

definition ctxString :: "string list \<Rightarrow> string" where
  "ctxString ctx = (case ctx of [] \<Rightarrow> '''' | c # cs \<Rightarrow> c @ concat (map (\<lambda>d. ''/'' @ d) cs))"

definition addCtx :: "string \<Rightarrow> string \<Rightarrow> string" where
  "addCtx ctx add = (if ctx \<noteq> '''' then add @ ''/'' @ ctx else add)"

definition WrapError :: "string list \<Rightarrow> rerr \<Rightarrow> rerr" where
  "WrapError ctx err = (case err of
      ErrShortBytes \<Rightarrow> ErrShortBytes
    | InCtx e c \<Rightarrow> InCtx e (addCtx c (ctxString ctx))
    | ErrFatal \<Rightarrow> InCtx err (addCtx [] (ctxString ctx))
    | TypeError _ _ \<Rightarrow> InCtx err (addCtx [] (ctxString ctx))
    | UintBelowZero _ \<Rightarrow> InCtx err (addCtx [] (ctxString ctx))
    | UintOverflow _ _ \<Rightarrow> InCtx err (addCtx [] (ctxString ctx))
    | _ \<Rightarrow> Wrapped err (ctxString ctx))"

text \<open>
  The mode of an object whose size the prefix does not give: the constants of \<^verbatim>\<open>varmode\<close>,
  with \<open>Elems n\<close> for the non-negative modes (\<open>n\<close> element objects follow).
\<close>

datatype varmode = Elems nat | Extra8 | Extra16 | Extra32 | Map16v | Map32v | Array16v | Array32v

record bytespec =
  size :: nat
  extra :: varmode
  btyp :: mtype

abbreviation "bspec s e t \<equiv> \<lparr>size = s, extra = e, btyp = t\<rparr>"

definition sizes :: "byte \<Rightarrow> bytespec" where
  "sizes b =
    (if b < 0x80 then bspec 1 (Elems 0) IntType
     else if b < 0x90 then bspec 1 (Elems (2 * unat (rfixmap b))) MapType
     else if b < 0xa0 then bspec 1 (Elems (unat (rfixarray b))) ArrayType
     else if b < 0xc0 then bspec (1 + unat (rfixstr b)) (Elems 0) StrType
     else if b = mnil then bspec 1 (Elems 0) NilType
     else if b = mfalse then bspec 1 (Elems 0) BoolType
     else if b = mtrue then bspec 1 (Elems 0) BoolType
     else if b = mbin8 then bspec 2 Extra8 BinType
     else if b = mbin16 then bspec 3 Extra16 BinType
     else if b = mbin32 then bspec 5 Extra32 BinType
     else if b = mext8 then bspec 3 Extra8 ExtensionType
     else if b = mext16 then bspec 4 Extra16 ExtensionType
     else if b = mext32 then bspec 6 Extra32 ExtensionType
     else if b = mfloat32 then bspec 5 (Elems 0) Float32Type
     else if b = mfloat64 then bspec 9 (Elems 0) Float64Type
     else if b = muint8 then bspec 2 (Elems 0) UintType
     else if b = muint16 then bspec 3 (Elems 0) UintType
     else if b = muint32 then bspec 5 (Elems 0) UintType
     else if b = muint64 then bspec 9 (Elems 0) UintType
     else if b = mint8 then bspec 2 (Elems 0) IntType
     else if b = mint16 then bspec 3 (Elems 0) IntType
     else if b = mint32 then bspec 5 (Elems 0) IntType
     else if b = mint64 then bspec 9 (Elems 0) IntType
     else if b = mfixext1 then bspec 3 (Elems 0) ExtensionType
     else if b = mfixext2 then bspec 4 (Elems 0) ExtensionType
     else if b = mfixext4 then bspec 6 (Elems 0) ExtensionType
     else if b = mfixext8 then bspec 10 (Elems 0) ExtensionType
     else if b = mfixext16 then bspec 18 (Elems 0) ExtensionType
     else if b = mstr8 then bspec 2 Extra8 StrType
     else if b = mstr16 then bspec 3 Extra16 StrType
     else if b = mstr32 then bspec 5 Extra32 StrType
     else if b = marray16 then bspec 3 Array16v ArrayType
     else if b = marray32 then bspec 5 Array32v ArrayType
     else if b = mmap16 then bspec 3 Map16v MapType
     else if b = mmap32 then bspec 5 Map32v MapType
     else if 0xe0 \<le> b then bspec 1 (Elems 0) IntType
     else bspec 0 (Elems 0) InvalidType)"

definition getType :: "byte \<Rightarrow> mtype" where
  "getType v = btyp (sizes v)"

definition badPrefix :: "mtype \<Rightarrow> byte \<Rightarrow> rerr" where
  "badPrefix want lead =
     (let t = btyp (sizes lead)
      in if t = InvalidType then InvalidPrefixError lead else TypeError want t)"

section \<open>Appending objects (write_bytes.go)\<close>

definition AppendMapHeader :: "bytes \<Rightarrow> u32 \<Rightarrow> bytes" where
  "AppendMapHeader b sz =
     (if sz \<le> 15 then b @ [wfixmap (ucast sz)]
      else if sz \<le> 0xffff then b @ mmap16 # be16 (ucast sz)
      else b @ mmap32 # be32 sz)"

definition AppendArrayHeader :: "bytes \<Rightarrow> u32 \<Rightarrow> bytes" where
  "AppendArrayHeader b sz =
     (if sz \<le> 15 then b @ [wfixarray (ucast sz)]
      else if sz \<le> 0xffff then b @ marray16 # be16 (ucast sz)
      else b @ marray32 # be32 sz)"

definition AppendNil :: "bytes \<Rightarrow> bytes" where
  "AppendNil b = b @ [mnil]"

text \<open>Floating-point numbers are carried as their bit patterns.\<close>

definition AppendFloat64 :: "bytes \<Rightarrow> u64 \<Rightarrow> bytes" where
  "AppendFloat64 b f = b @ mfloat64 # be64 f"

definition AppendFloat32 :: "bytes \<Rightarrow> u32 \<Rightarrow> bytes" where
  "AppendFloat32 b f = b @ mfloat32 # be32 f"

text \<open>A signed integer is its two's complement word.\<close>

definition AppendInt64 :: "bytes \<Rightarrow> u64 \<Rightarrow> bytes" where
  "AppendInt64 b i =
     (if 0 \<le> sint i then
        if sint i \<le> 127 then b @ [wfixint (ucast i)]
        else if sint i \<le> 32767 then b @ mint16 # be16 (ucast i)
        else if sint i \<le> 2147483647 then b @ mint32 # be32 (ucast i)
        else b @ mint64 # be64 i
      else if - 32 \<le> sint i then b @ [wnfixint (ucast i)]
      else if - 128 \<le> sint i then b @ [mint8, ucast i]
      else if - 32768 \<le> sint i then b @ mint16 # be16 (ucast i)
      else if - 2147483648 \<le> sint i then b @ mint32 # be32 (ucast i)
      else b @ mint64 # be64 i)"

definition AppendInt :: "bytes \<Rightarrow> u64 \<Rightarrow> bytes" where
  "AppendInt b i = AppendInt64 b i"

definition AppendUint64 :: "bytes \<Rightarrow> u64 \<Rightarrow> bytes" where
  "AppendUint64 b u =
     (if u \<le> 0x7f then b @ [wfixint (ucast u)]
      else if u \<le> 0xff then b @ [muint8, ucast u]
      else if u \<le> 0xffff then b @ muint16 # be16 (ucast u)
      else if u \<le> 0xffffffff then b @ muint32 # be32 (ucast u)
      else b @ muint64 # be64 u)"

definition AppendUint :: "bytes \<Rightarrow> u64 \<Rightarrow> bytes" where
  "AppendUint b u = AppendUint64 b u"

definition AppendBytes :: "bytes \<Rightarrow> bytes \<Rightarrow> bytes" where
  "AppendBytes b bts =
     (let sz = length bts in
      if sz \<le> 255 then b @ [mbin8, of_nat sz] @ bts
      else if sz \<le> 65535 then b @ mbin16 # be16 (of_nat sz) @ bts
      else b @ mbin32 # be32 (of_nat sz) @ bts)"

definition AppendBool :: "bytes \<Rightarrow> bool \<Rightarrow> bytes" where
  "AppendBool b t = (if t then b @ [mtrue] else b @ [mfalse])"

definition AppendStringFromBytes :: "bytes \<Rightarrow> bytes \<Rightarrow> bytes" where
  "AppendStringFromBytes b str =
     (let sz = length str in
      if sz \<le> 31 then b @ wfixstr (of_nat sz) # str
      else if sz \<le> 255 then b @ [mstr8, of_nat sz] @ str
      else if sz \<le> 65535 then b @ mstr16 # be16 (of_nat sz) @ str
      else b @ mstr32 # be32 (of_nat sz) @ str)"

definition AppendString :: "bytes \<Rightarrow> string \<Rightarrow> bytes" where
  "AppendString b s =
     (let sz = length s in
      if sz \<le> 31 then b @ wfixstr (of_nat sz) # str_bytes s
      else if sz \<le> 255 then b @ [mstr8, of_nat sz] @ str_bytes s
      else if sz \<le> 65535 then b @ mstr16 # be16 (of_nat sz) @ str_bytes s
      else b @ mstr32 # be32 (of_nat sz) @ str_bytes s)"

text \<open>The loop \<^verbatim>\<open>for k, v := range m { o = AppendString(o, k); o = AppendString(o, v) }\<close>.\<close>

fun append_pairs :: "bytes \<Rightarrow> (string \<times> string) list \<Rightarrow> bytes" where
  "append_pairs b [] = b"
| "append_pairs b ((k, v) # ps) = append_pairs (AppendString (AppendString b k) v) ps"

definition AppendMapStrStr :: "range_order \<Rightarrow> bytes \<Rightarrow> strmap \<Rightarrow> bytes" where
  "AppendMapStrStr ord b m = append_pairs (AppendMapHeader b (of_nat (length (ord m)))) (pairs ord m)"

text \<open>The loop \<^verbatim>\<open>for i := range s { o = AppendString(o, s[i]) }\<close>.\<close>

fun append_strings :: "bytes \<Rightarrow> string list \<Rightarrow> bytes" where
  "append_strings b [] = b"
| "append_strings b (s # ss) = append_strings (AppendString b s) ss"

section \<open>Size bounds (size.go)\<close>

abbreviation (input) Int64Size :: nat where "Int64Size \<equiv> 9"
abbreviation (input) UintSize :: nat where "UintSize \<equiv> 9"
abbreviation (input) Uint64Size :: nat where "Uint64Size \<equiv> 9"
abbreviation (input) Float64Size :: nat where "Float64Size \<equiv> 9"
abbreviation (input) Float32Size :: nat where "Float32Size \<equiv> 5"
abbreviation (input) MapHeaderSize :: nat where "MapHeaderSize \<equiv> 5"
abbreviation (input) ArrayHeaderSize :: nat where "ArrayHeaderSize \<equiv> 5"
abbreviation (input) StringPrefixSize :: nat where "StringPrefixSize \<equiv> 5"

section \<open>Append functions only append\<close>

lemma AppendString_as_bytes: "AppendString b s = AppendStringFromBytes b (str_bytes s)"
  by (simp add: AppendString_def AppendStringFromBytes_def Let_def)

lemma AppendMapHeader_append [append_simps]:
  "NO_MATCH [] b \<Longrightarrow> AppendMapHeader b sz = b @ AppendMapHeader [] sz"
  by (simp add: AppendMapHeader_def)

lemma AppendArrayHeader_append [append_simps]:
  "NO_MATCH [] b \<Longrightarrow> AppendArrayHeader b sz = b @ AppendArrayHeader [] sz"
  by (simp add: AppendArrayHeader_def)

lemma AppendUint64_append [append_simps]:
  "NO_MATCH [] b \<Longrightarrow> AppendUint64 b u = b @ AppendUint64 [] u"
  by (simp add: AppendUint64_def)

lemma AppendUint_append [append_simps]:
  "NO_MATCH [] b \<Longrightarrow> AppendUint b u = b @ AppendUint [] u"
  by (simp add: AppendUint_def AppendUint64_def)

lemma AppendInt64_append [append_simps]:
  "NO_MATCH [] b \<Longrightarrow> AppendInt64 b u = b @ AppendInt64 [] u"
  by (simp add: AppendInt64_def)

lemma AppendInt_append [append_simps]:
  "NO_MATCH [] b \<Longrightarrow> AppendInt b u = b @ AppendInt [] u"
  by (simp add: AppendInt_def AppendInt64_def)

lemma AppendFloat64_append [append_simps]:
  "NO_MATCH [] b \<Longrightarrow> AppendFloat64 b u = b @ AppendFloat64 [] u"
  by (simp add: AppendFloat64_def)

lemma AppendFloat32_append [append_simps]:
  "NO_MATCH [] b \<Longrightarrow> AppendFloat32 b u = b @ AppendFloat32 [] u"
  by (simp add: AppendFloat32_def)

lemma AppendBytes_append [append_simps]:
  "NO_MATCH [] b \<Longrightarrow> AppendBytes b u = b @ AppendBytes [] u"
  by (simp add: AppendBytes_def Let_def)

lemma AppendStringFromBytes_append [append_simps]:
  "NO_MATCH [] b \<Longrightarrow> AppendStringFromBytes b s = b @ AppendStringFromBytes [] s"
  by (simp add: AppendStringFromBytes_def Let_def)

lemma AppendString_append [append_simps]:
  "NO_MATCH [] b \<Longrightarrow> AppendString b s = b @ AppendString [] s"
  by (simp add: AppendString_def Let_def)

lemma AppendMapHeader_split: "AppendMapHeader b n = b @ AppendMapHeader [] n"
  by (simp add: AppendMapHeader_def)

lemma AppendArrayHeader_split: "AppendArrayHeader b n = b @ AppendArrayHeader [] n"
  by (simp add: AppendArrayHeader_def)

lemma AppendString_split: "AppendString b s = b @ AppendString [] s"
  by (simp add: AppendString_def Let_def)

lemma append_pairs_split: "append_pairs b ps = b @ append_pairs [] ps"
proof (induction ps arbitrary: b)
  case (Cons p ps)
  obtain k v where p: "p = (k, v)" by (cases p)
  have "append_pairs b (p # ps) = AppendString (AppendString b k) v @ append_pairs [] ps"
    by (simp add: p) (rule Cons.IH)
  also have "\<dots> = b @ AppendString (AppendString [] k) v @ append_pairs [] ps"
    using AppendString_split [of "AppendString b k" v] AppendString_split [of b k]
      AppendString_split [of "AppendString [] k" v] by simp
  also have "\<dots> = b @ append_pairs [] (p # ps)"
    using Cons.IH [of "AppendString (AppendString [] k) v"] by (simp add: p)
  finally show ?case .
qed simp

lemma append_strings_split: "append_strings b ss = b @ append_strings [] ss"
proof (induction ss arbitrary: b)
  case (Cons s ss)
  show ?case
    using Cons.IH [of "AppendString b s"] Cons.IH [of "AppendString [] s"] AppendString_split [of b s]
    by simp
qed simp

lemma append_pairs_append [append_simps]:
  "NO_MATCH [] b \<Longrightarrow> append_pairs b ps = b @ append_pairs [] ps"
  by (rule append_pairs_split)

lemma append_strings_append [append_simps]:
  "NO_MATCH [] b \<Longrightarrow> append_strings b ss = b @ append_strings [] ss"
  by (rule append_strings_split)

lemma AppendMapStrStr_append [append_simps]:
  "NO_MATCH [] b \<Longrightarrow> AppendMapStrStr ord b m = b @ AppendMapStrStr ord [] m"
  using append_pairs_split [of "AppendMapHeader b _"] append_pairs_split [of "AppendMapHeader [] _"]
    AppendMapHeader_append [of b]
  by (simp add: AppendMapStrStr_def)

end
