(* ===== verification/Msgp_Read.thy ===== *)
theory Msgp_Read
  imports Msgp_Types "HOL-Library.Log_Nat"
begin

text \<open>
  Reading MessagePack objects from a connection: the look-ahead reader
  \<^verbatim>\<open>src/vendor/github.com/philhofer/fwd/reader.go\<close> and the methods of \<^verbatim>\<open>msgp.Reader\<close>
  (\<^verbatim>\<open>src/vendor/github.com/tinylib/msgp/msgp/read.go\<close>) that the daemon and its generated
  decoders call.

  A reader holds the bytes that are still to come, the error the connection ends with, and
  whether the underlying reader can seek (a \<^verbatim>\<open>bytes.Reader\<close> can, a network connection
  cannot).  The connection reports its ending with a read of its own, after the last byte, and
  keeps reporting it.  How many of the bytes to come sit in the look-ahead buffer depends on how
  the network cut them, so it is a parameter: \<open>chunk n\<close> when \<open>n\<close> bytes are to come.  The
  capacity of the buffer, \<open>bufcap\<close>, is a parameter in the same way.
\<close>

section \<open>The look-ahead reader (fwd/reader.go)\<close>

record reader =
  rest :: bytes
  ending :: rerr
  seeker :: bool
  chunk :: "nat \<Rightarrow> nat"
  bufcap :: "nat \<Rightarrow> nat"

definition advance :: "nat \<Rightarrow> reader \<Rightarrow> reader" where
  "advance n r = r\<lparr>rest := drop n (rest r)\<rparr>"

definition noEOF :: "rerr \<Rightarrow> rerr" where
  "noEOF e = (if e = EOF then ErrUnexpectedEOF else e)"

definition fwd_Buffered :: "reader \<Rightarrow> nat" where
  "fwd_Buffered r = min (length (rest r)) (chunk r (length (rest r)))"

definition fwd_BufferSize :: "reader \<Rightarrow> nat" where
  "fwd_BufferSize r = bufcap r (length (rest r))"

definition fwd_Peek :: "nat \<Rightarrow> (rerr, reader, bytes) rd" where
  "fwd_Peek n r = (if length (rest r) < n then (Inl (ending r), r) else (Inr (take n (rest r)), r))"

definition fwd_Next :: "nat \<Rightarrow> (rerr, reader, bytes) rd" where
  "fwd_Next n r = (if length (rest r) < n then (Inl (noEOF (ending r)), r)
                   else (Inr (take n (rest r)), advance n r))"

definition fwd_Skip :: "nat \<Rightarrow> (rerr, reader, unit) rd" where
  "fwd_Skip n r =
     (if n \<le> fwd_Buffered r then (Inr (), advance n r)
      else if seeker r then (Inr (), advance n r)
      else if n \<le> length (rest r) then (Inr (), advance n r)
      else (Inl (noEOF (ending r)), r\<lparr>rest := []\<rparr>))"

definition fwd_ReadFull :: "nat \<Rightarrow> (rerr, reader, bytes) rd" where
  "fwd_ReadFull n r = (if length (rest r) < n then (Inl (noEOF (ending r)), r\<lparr>rest := []\<rparr>)
                       else (Inr (take n (rest r)), advance n r))"

section \<open>Sizes and types of the next object\<close>

text \<open>
  The \<^verbatim>\<open>switch mode\<close> of \<^verbatim>\<open>getSize\<close> and \<^verbatim>\<open>getNextSize\<close>, on at least \<^verbatim>\<open>size\<close> bytes: the
  size of the object's head and the number of its element objects.
\<close>

definition mode_size :: "nat \<Rightarrow> varmode \<Rightarrow> bytes \<Rightarrow> nat \<times> nat" where
  "mode_size sz mode b = (case mode of
      Elems n \<Rightarrow> (sz, n)
    | Extra8 \<Rightarrow> (sz + unat (b ! 1), 0)
    | Extra16 \<Rightarrow> (sz + unat (of_be16 (drop 1 b)), 0)
    | Extra32 \<Rightarrow> (sz + unat (of_be32 (drop 1 b)), 0)
    | Map16v \<Rightarrow> (sz, 2 * unat (of_be16 (drop 1 b)))
    | Map32v \<Rightarrow> (sz, 2 * unat (of_be32 (drop 1 b)))
    | Array16v \<Rightarrow> (sz, unat (of_be16 (drop 1 b)))
    | Array32v \<Rightarrow> (sz, unat (of_be32 (drop 1 b))))"

definition getSize :: "bytes \<Rightarrow> rerr + nat \<times> nat" where
  "getSize b =
     (if b = [] then Inl ErrShortBytes
      else let lead = b ! 0; spec = sizes lead in
        if size spec = 0 then Inl (InvalidPrefixError lead)
        else (case extra spec of
            Elems n \<Rightarrow> Inr (size spec, n)
          | mode \<Rightarrow> if length b < size spec then Inl ErrShortBytes
                    else Inr (mode_size (size spec) mode b)))"

definition getNextSize :: "(rerr, reader, nat \<times> nat) rd" where
  "getNextSize =
     rd_bind (fwd_Peek 1) (\<lambda>b.
       let lead = b ! 0; spec = sizes lead in
         if size spec = 0 then rd_fail (InvalidPrefixError lead)
         else (case extra spec of
             Elems n \<Rightarrow> rd_return (size spec, n)
           | mode \<Rightarrow> rd_bind (fwd_Peek (size spec)) (\<lambda>b.
                       rd_return (mode_size (size spec) mode b))))"

definition peekExtensionType :: "(rerr, reader, byte) rd" where
  "peekExtensionType =
     rd_bind (fwd_Peek 2) (\<lambda>p.
       let spec = sizes (p ! 0) in
         if btyp spec \<noteq> ExtensionType then rd_fail (badPrefix ExtensionType (p ! 0))
         else if extra spec = Elems 0 then rd_return (p ! 1)
         else rd_bind (fwd_Peek (size spec)) (\<lambda>p. rd_return (p ! (size spec - 1))))"

text \<open>The extensions the library registers for itself: complex64 is 3, complex128 4, time 5.\<close>

definition ext_type :: "byte \<Rightarrow> mtype" where
  "ext_type v = (if v = 3 then Complex64Type else if v = 4 then Complex128Type
                 else if v = 5 then TimeType else ExtensionType)"

definition Reader_NextType :: "(rerr, reader, mtype) rd" where
  "Reader_NextType =
     rd_bind (fwd_Peek 1) (\<lambda>p.
       let t = getType (p ! 0) in
         if t = InvalidType then rd_fail (InvalidPrefixError (p ! 0))
         else if t = ExtensionType then rd_bind peekExtensionType (\<lambda>v. rd_return (ext_type v))
         else rd_return t)"

section \<open>Skipping and copying objects\<close>

text \<open>What \<^verbatim>\<open>Skip\<close> does before the loop over the elements: it returns their number.\<close>

definition skip_head :: "(rerr, reader, nat) rd" where
  "skip_head r =
     rd_bind (\<lambda>r. if 5 \<le> fwd_Buffered r
                  then rd_bind (fwd_Peek 5) (\<lambda>p. case getSize p of
                         Inl e \<Rightarrow> rd_fail e | Inr vo \<Rightarrow> rd_return vo) r
                  else getNextSize r)
       (\<lambda>(v, o'). rd_bind (fwd_Skip v) (\<lambda>_. rd_return o')) r"

lemma length_advance: "length (rest (advance n r)) = length (rest r) - n"
  by (simp add: advance_def)

lemma sizes_pos_mode: "0 < size (sizes b) \<Longrightarrow> 0 < fst (mode_size (size (sizes b)) m p)"
  by (simp add: mode_size_def split: varmode.split)

lemma getSize_pos: "getSize b = Inr (v, n) \<Longrightarrow> 0 < v \<and> b \<noteq> []"
  using sizes_pos_mode [of "b ! 0" "extra (sizes (b ! 0))" b]
  by (auto simp: getSize_def Let_def mode_size_def split: if_splits varmode.splits)

lemma getNextSize_pos: "getNextSize r = (Inr (v, n), r') \<Longrightarrow> 0 < v \<and> rest r \<noteq> [] \<and> r' = r"
  by (auto simp: getNextSize_def rd_bind_eq_Inr fwd_Peek_def Let_def mode_size_def rd_return_app
      rd_fail_app split: if_splits varmode.splits)

lemma fwd_Skip_shrinks: "length (rest (snd (fwd_Skip v r))) \<le> length (rest r) - v"
  by (simp add: fwd_Skip_def length_advance)

lemma skip_head_shrinks:
  assumes "skip_head r = (Inr n, r')"
  shows "length (rest r') < length (rest r)"
proof -
  have *: "length (rest r') < length (rest r)"
    if "fwd_Skip v r = (Inr (), r')" "0 < v" "rest r \<noteq> []" for v
  proof -
    have "length (rest r') \<le> length (rest r) - v"
      using fwd_Skip_shrinks [of v r] that by simp
    moreover have "0 < length (rest r)" using that by simp
    ultimately show ?thesis using \<open>0 < v\<close> by linarith
  qed
  show ?thesis
  proof (cases "5 \<le> fwd_Buffered r")
    case True
    then have "5 \<le> length (rest r)" by (simp add: fwd_Buffered_def)
    with assms True obtain v where "getSize (take 5 (rest r)) = Inr (v, n)" "fwd_Skip v r = (Inr (), r')"
      by (auto simp: skip_head_def rd_bind_eq_Inr fwd_Peek_def rd_return_app rd_fail_app
          split: sum.splits if_splits)
    then show ?thesis using * [of v] getSize_pos [of "take 5 (rest r)" v n] by auto
  next
    case False
    with assms obtain v where "getNextSize r = (Inr (v, n), r)" "fwd_Skip v r = (Inr (), r')"
      by (auto simp: skip_head_def rd_bind_eq_Inr rd_return_app dest: getNextSize_pos)
    then show ?thesis using * [of v] getNextSize_pos [of r v n r] by auto
  qed
qed

text \<open>\<^verbatim>\<open>Skip\<close> calls itself for every element, on the reader its previous call left.\<close>

function (sequential) Reader_Skip :: "reader \<Rightarrow> (rerr + unit) \<times> reader"
  and skip_elems :: "nat \<Rightarrow> reader \<Rightarrow> (rerr + unit) \<times> reader" where
  "Reader_Skip r = (case skip_head r of
      (Inl e, r') \<Rightarrow> (Inl e, r')
    | (Inr n, r') \<Rightarrow> skip_elems n r')"
| "skip_elems 0 r = (Inr (), r)"
| "skip_elems (Suc n) r = (case Reader_Skip r of
      (Inl e, r') \<Rightarrow> (Inl e, r')
    | (Inr _, r') \<Rightarrow> skip_elems n r')"
  by pat_completeness auto

lemma Reader_Skip_dom_shrinks:
  "Reader_Skip_skip_elems_dom (Inl r) \<Longrightarrow>
     fst (Reader_Skip r) = Inr u \<Longrightarrow> length (rest (snd (Reader_Skip r))) \<le> length (rest r)"
  "Reader_Skip_skip_elems_dom (Inr (n, r)) \<Longrightarrow>
     fst (skip_elems n r) = Inr u \<Longrightarrow> length (rest (snd (skip_elems n r))) \<le> length (rest r)"
  by (induction r and n r rule: Reader_Skip_skip_elems.pinduct)
    (fastforce simp: Reader_Skip.psimps skip_elems.psimps dest: skip_head_shrinks
      split: prod.splits sum.splits)+

termination Reader_Skip
proof (relation "measures [case_sum (\<lambda>r. length (rest r)) (\<lambda>(n, r). length (rest r)),
                           case_sum (\<lambda>r. 0) (\<lambda>(n, r). Suc n)]", goal_cases)
  case (4 n r)
  then show ?case
    using Reader_Skip_dom_shrinks(1) [of r] by (cases "Reader_Skip r") fastforce
qed (auto dest!: skip_head_shrinks sym [of _ "skip_head _"])

text \<open>
  \<^verbatim>\<open>CopyNext\<close> writes to a writer that never fails (the profile buffer is the one the daemon
  uses), so the state is the reader and what has been written.  An object head that fits the
  look-ahead buffer is taken from it, any other is copied with \<^verbatim>\<open>io.CopyN\<close>, which has consumed
  and written everything there was when it fails.
\<close>

definition shortEOF :: "rerr \<Rightarrow> rerr" where
  "shortEOF e = (if e = ErrUnexpectedEOF then ErrShortBytes else e)"

definition copy_head :: "(rerr, reader \<times> bytes, nat \<times> nat) rd" where
  "copy_head rw = (case rw of (r, w) \<Rightarrow>
     (case getNextSize r of
        (Inl e, r') \<Rightarrow> (Inl e, (r', w))
      | (Inr (sz, o'), r') \<Rightarrow>
          if sz \<le> fwd_BufferSize r' then
            (case fwd_Next sz r' of
               (Inl e, r'') \<Rightarrow> (Inl (shortEOF e), (r'', w))
             | (Inr b, r'') \<Rightarrow> (Inr (sz, o'), (r'', w @ b)))
          else if sz \<le> length (rest r') then (Inr (sz, o'), (advance sz r', w @ take sz (rest r')))
          else (Inl (shortEOF (ending r')), (r'\<lparr>rest := []\<rparr>, w @ rest r'))))"

lemma copy_head_shrinks:
  "copy_head (r, w) = (Inr (sz, n), (r', w')) \<Longrightarrow> length (rest r') < length (rest r)"
  by (auto simp: copy_head_def fwd_Next_def length_advance dest: getNextSize_pos
      split: if_splits prod.splits sum.splits)

function (sequential) CopyNext :: "reader \<times> bytes \<Rightarrow> (rerr + nat) \<times> reader \<times> bytes"
  and copy_elems :: "nat \<Rightarrow> nat \<Rightarrow> reader \<times> bytes \<Rightarrow> (rerr + nat) \<times> reader \<times> bytes" where
  "CopyNext rw = (case copy_head rw of
      (Inl e, rw') \<Rightarrow> (Inl e, rw')
    | (Inr (n, o'), rw') \<Rightarrow> copy_elems o' n rw')"
| "copy_elems 0 n rw = (Inr n, rw)"
| "copy_elems (Suc k) n rw = (case CopyNext rw of
      (Inl e, rw') \<Rightarrow> (Inl e, rw')
    | (Inr n2, rw') \<Rightarrow> copy_elems k (n + n2) rw')"
  by pat_completeness auto

lemma CopyNext_dom_shrinks:
  "CopyNext_copy_elems_dom (Inl rw) \<Longrightarrow>
     fst (CopyNext rw) = Inr u \<Longrightarrow> length (rest (fst (snd (CopyNext rw)))) \<le> length (rest (fst rw))"
  "CopyNext_copy_elems_dom (Inr (k, n, rw)) \<Longrightarrow>
     fst (copy_elems k n rw) = Inr u \<Longrightarrow>
     length (rest (fst (snd (copy_elems k n rw)))) \<le> length (rest (fst rw))"
proof (induction rw and k n rw arbitrary: u and u rule: CopyNext_copy_elems.pinduct)
  case (1 rw)
  then show ?case
    by (cases rw; cases "copy_head rw")
      (fastforce simp: CopyNext.psimps dest: copy_head_shrinks split: prod.splits sum.splits)
next
  case (3 k n rw)
  then show ?case
    by (cases "CopyNext rw") (fastforce simp: copy_elems.psimps split: prod.splits sum.splits)
qed (simp add: copy_elems.psimps)

termination CopyNext
proof (relation "measures [case_sum (\<lambda>rw. length (rest (fst rw))) (\<lambda>(k, n, rw). length (rest (fst rw))),
                           case_sum (\<lambda>rw. 0) (\<lambda>(k, n, rw). Suc k)]", goal_cases)
  case (2 rw x y a b c)
  then show ?case by (cases rw; cases y) (auto dest!: copy_head_shrinks sym [of _ "copy_head _"])
next
  case (4 k n rw)
  then show ?case
    using CopyNext_dom_shrinks(1) [of rw] by (cases "CopyNext rw") fastforce
qed auto

section \<open>Reading objects\<close>

definition ReadMapHeader :: "(rerr, reader, u32) rd" where
  "ReadMapHeader =
     rd_bind (fwd_Peek 1) (\<lambda>p. let lead = p ! 0 in
       if isfixmap lead then rd_bind (fwd_Skip 1) (\<lambda>_. rd_return (ucast (rfixmap lead)))
       else if lead = mmap16 then rd_bind (fwd_Next 3) (\<lambda>p. rd_return (ucast (of_be16 (drop 1 p))))
       else if lead = mmap32 then rd_bind (fwd_Next 5) (\<lambda>p. rd_return (of_be32 (drop 1 p)))
       else rd_fail (badPrefix MapType lead))"

definition ReadArrayHeader :: "(rerr, reader, u32) rd" where
  "ReadArrayHeader =
     rd_bind (fwd_Peek 1) (\<lambda>p. let lead = p ! 0 in
       if isfixarray lead then rd_bind (fwd_Skip 1) (\<lambda>_. rd_return (ucast (rfixarray lead)))
       else if lead = marray16 then rd_bind (fwd_Next 3) (\<lambda>p. rd_return (ucast (of_be16 (drop 1 p))))
       else if lead = marray32 then rd_bind (fwd_Next 5) (\<lambda>p. rd_return (of_be32 (drop 1 p)))
       else rd_fail (badPrefix ArrayType lead))"

definition ReadMapKeyPtr :: "(rerr, reader, bytes) rd" where
  "ReadMapKeyPtr =
     rd_bind (rd_bind (fwd_Peek 1) (\<lambda>p. let lead = p ! 0 in
       if isfixstr lead then rd_bind (fwd_Skip 1) (\<lambda>_. rd_return (unat (rfixstr lead)))
       else if lead = mstr8 \<or> lead = mbin8 then rd_bind (fwd_Next 2) (\<lambda>p. rd_return (unat (p ! 1)))
       else if lead = mstr16 \<or> lead = mbin16 then
         rd_bind (fwd_Next 3) (\<lambda>p. rd_return (unat (of_be16 (drop 1 p))))
       else if lead = mstr32 \<or> lead = mbin32 then
         rd_bind (fwd_Next 5) (\<lambda>p. rd_return (unat (of_be32 (drop 1 p))))
       else rd_fail (badPrefix StrType lead)))
     (\<lambda>read. if read = 0 then rd_fail ErrShortBytes else fwd_Next read)"

definition ReadString :: "(rerr, reader, string) rd" where
  "ReadString =
     rd_bind (rd_bind (fwd_Peek 1) (\<lambda>p. let lead = p ! 0 in
       if isfixstr lead then rd_bind (fwd_Skip 1) (\<lambda>_. rd_return (unat (rfixstr lead)))
       else if lead = mstr8 then rd_bind (fwd_Next 2) (\<lambda>p. rd_return (unat (p ! 1)))
       else if lead = mstr16 then rd_bind (fwd_Next 3) (\<lambda>p. rd_return (unat (of_be16 (drop 1 p))))
       else if lead = mstr32 then rd_bind (fwd_Next 5) (\<lambda>p. rd_return (unat (of_be32 (drop 1 p))))
       else rd_fail (badPrefix StrType lead)))
     (\<lambda>read. if read = 0 then rd_return ''''
             else rd_bind (fwd_ReadFull read) (\<lambda>out. rd_return (bytes_str out)))"

text \<open>A signed number \<open>v\<close> read for an unsigned one: the check both readers repeat.\<close>

definition nonneg :: "u64 \<Rightarrow> ('s \<Rightarrow> (rerr + u64) \<times> 's)" where
  "nonneg v = (if sint v < 0 then rd_fail (UintBelowZero (sint v)) else rd_return v)"

definition ReadUint64 :: "(rerr, reader, u64) rd" where
  "ReadUint64 =
     rd_bind (fwd_Peek 1) (\<lambda>p. let lead = p ! 0 in
       if isfixint lead then rd_bind (fwd_Skip 1) (\<lambda>_. rd_return (ucast (rfixint lead)))
       else if lead = mint8 then rd_bind (fwd_Next 2) (\<lambda>p. nonneg (scast (p ! 1)))
       else if lead = muint8 then rd_bind (fwd_Next 2) (\<lambda>p. rd_return (ucast (p ! 1)))
       else if lead = mint16 then rd_bind (fwd_Next 3) (\<lambda>p. nonneg (scast (of_be16 (drop 1 p))))
       else if lead = muint16 then rd_bind (fwd_Next 3) (\<lambda>p. rd_return (ucast (of_be16 (drop 1 p))))
       else if lead = mint32 then rd_bind (fwd_Next 5) (\<lambda>p. nonneg (scast (of_be32 (drop 1 p))))
       else if lead = muint32 then rd_bind (fwd_Next 5) (\<lambda>p. rd_return (ucast (of_be32 (drop 1 p))))
       else if lead = mint64 then rd_bind (fwd_Next 9) (\<lambda>p. nonneg (of_be64 (drop 1 p)))
       else if lead = muint64 then rd_bind (fwd_Next 9) (\<lambda>p. rd_return (of_be64 (drop 1 p)))
       else if isnfixint lead then rd_fail (UintBelowZero (sint (rnfixint lead)))
       else rd_fail (badPrefix UintType lead))"

text \<open>\<^verbatim>\<open>smallint\<close> is false on a 64-bit platform, so an \<^verbatim>\<open>uint\<close> is read as a \<^verbatim>\<open>uint64\<close>.\<close>

definition ReadUint :: "(rerr, reader, u64) rd" where
  "ReadUint = ReadUint64"

definition ReadInt64 :: "(rerr, reader, u64) rd" where
  "ReadInt64 =
     rd_bind (fwd_Peek 1) (\<lambda>p. let lead = p ! 0 in
       if isfixint lead then rd_bind (fwd_Skip 1) (\<lambda>_. rd_return (ucast (rfixint lead)))
       else if isnfixint lead then rd_bind (fwd_Skip 1) (\<lambda>_. rd_return (scast (rnfixint lead)))
       else if lead = mint8 then rd_bind (fwd_Next 2) (\<lambda>p. rd_return (scast (p ! 1)))
       else if lead = muint8 then rd_bind (fwd_Next 2) (\<lambda>p. rd_return (ucast (p ! 1)))
       else if lead = mint16 then rd_bind (fwd_Next 3) (\<lambda>p. rd_return (scast (of_be16 (drop 1 p))))
       else if lead = muint16 then rd_bind (fwd_Next 3) (\<lambda>p. rd_return (ucast (of_be16 (drop 1 p))))
       else if lead = mint32 then rd_bind (fwd_Next 5) (\<lambda>p. rd_return (scast (of_be32 (drop 1 p))))
       else if lead = muint32 then rd_bind (fwd_Next 5) (\<lambda>p. rd_return (ucast (of_be32 (drop 1 p))))
       else if lead = mint64 then rd_bind (fwd_Next 9) (\<lambda>p. rd_return (of_be64 (drop 1 p)))
       else if lead = muint64 then rd_bind (fwd_Next 9) (\<lambda>p.
         let u = of_be64 (drop 1 p) in
           if 0x7fffffffffffffff < u then rd_fail (UintOverflow u 64) else rd_return u)
       else rd_fail (badPrefix IntType lead))"

text \<open>
  The conversion \<^verbatim>\<open>float64(f)\<close> of a \<^verbatim>\<open>float32\<close> on bit patterns: a subnormal is normalised, an
  infinity stays one, a NaN is made quiet.
\<close>

definition float32_to_64 :: "u32 \<Rightarrow> u64" where
  "float32_to_64 f =
     (let sgn = push_bit 63 (ucast (drop_bit 31 f)) :: u64;
          e = unat (take_bit 8 (drop_bit 23 f)); m = unat (take_bit 23 f)
      in if e = 255 then
           (if m = 0 then sgn OR 0x7ff0000000000000
            else sgn OR 0x7ff8000000000000 OR push_bit 29 (of_nat m))
         else if e \<noteq> 0 then sgn OR push_bit 52 (of_nat (e + 896)) OR push_bit 29 (of_nat m)
         else if m = 0 then sgn
         else let k = floorlog 2 m - 1 in
           sgn OR push_bit 52 (of_nat (k + 874)) OR push_bit (52 - k) (of_nat (m - 2 ^ k)))"

definition ReadFloat32 :: "(rerr, reader, u32) rd" where
  "ReadFloat32 =
     rd_bind (fwd_Peek 5) (\<lambda>p.
       if p ! 0 \<noteq> mfloat32 then rd_fail (badPrefix Float32Type (p ! 0))
       else rd_bind (fwd_Skip 5) (\<lambda>_. rd_return (of_be32 (drop 1 p))))"

definition ReadFloat64 :: "(rerr, reader, u64) rd" where
  "ReadFloat64 r =
     (let widened = rd_bind ReadFloat32 (\<lambda>ef. rd_return (float32_to_64 ef)) r in
      case fwd_Peek 9 r of
        (Inl e, r') \<Rightarrow>
          if e = EOF \<and> rest r \<noteq> [] \<and> rest r ! 0 = mfloat32 then widened else (Inl e, r')
      | (Inr p, r') \<Rightarrow>
          if p ! 0 \<noteq> mfloat64 then
            if p ! 0 = mfloat32 then widened else (Inl (badPrefix Float64Type (p ! 0)), r')
          else rd_bind (fwd_Skip 9) (\<lambda>_. rd_return (of_be64 (drop 1 p))) r')"

end
