(* ===== verification/Msgp_ReadBytes.thy ===== *)
theory Msgp_ReadBytes
  imports Msgp_Read
begin

text \<open>
  Reading MessagePack objects from a byte slice
  (\<^verbatim>\<open>src/vendor/github.com/tinylib/msgp/msgp/read_bytes.go\<close>), looking up a key in an encoded map
  (\<^verbatim>\<open>edit.go\<close>) and the number type (\<^verbatim>\<open>number.go\<close>).  The Go functions return the remaining
  slice; after an error no caller looks at it.
\<close>

section \<open>Reading objects from a slice\<close>

text \<open>
  \<^verbatim>\<open>if l < n { err = ErrShortBytes; return }\<close> followed by uses of the first \<open>n\<close> bytes and
  \<^verbatim>\<open>o = b[n:]\<close>.
\<close>

definition take_bytes :: "nat \<Rightarrow> (rerr, bytes, bytes) rd" where
  "take_bytes n b = (if length b < n then (Inl ErrShortBytes, b) else (Inr (take n b), drop n b))"

text \<open>\<^verbatim>\<open>lead := b[0]\<close> after the check that there is a byte.\<close>

definition lead_byte :: "(rerr, bytes, byte) rd" where
  "lead_byte b = (if length b < 1 then (Inl ErrShortBytes, b) else (Inr (b ! 0), b))"

definition ReadMapHeaderBytes :: "(rerr, bytes, u32) rd" where
  "ReadMapHeaderBytes =
     rd_bind lead_byte (\<lambda>lead.
       if isfixmap lead then rd_bind (take_bytes 1) (\<lambda>_. rd_return (ucast (rfixmap lead)))
       else if lead = mmap16 then rd_bind (take_bytes 3) (\<lambda>p. rd_return (ucast (of_be16 (drop 1 p))))
       else if lead = mmap32 then rd_bind (take_bytes 5) (\<lambda>p. rd_return (of_be32 (drop 1 p)))
       else rd_fail (badPrefix MapType lead))"

definition ReadArrayHeaderBytes :: "(rerr, bytes, u32) rd" where
  "ReadArrayHeaderBytes =
     rd_bind lead_byte (\<lambda>lead.
       if isfixarray lead then rd_bind (take_bytes 1) (\<lambda>_. rd_return (ucast (rfixarray lead)))
       else if lead = marray16 then rd_bind (take_bytes 3) (\<lambda>p. rd_return (ucast (of_be16 (drop 1 p))))
       else if lead = marray32 then rd_bind (take_bytes 5) (\<lambda>p. rd_return (of_be32 (drop 1 p)))
       else rd_fail (badPrefix ArrayType lead))"

definition ReadBytesZC :: "(rerr, bytes, bytes) rd" where
  "ReadBytesZC =
     rd_bind (rd_bind lead_byte (\<lambda>lead.
       if lead = mbin8 then rd_bind (take_bytes 2) (\<lambda>p. rd_return (unat (p ! 1)))
       else if lead = mbin16 then rd_bind (take_bytes 3) (\<lambda>p. rd_return (unat (of_be16 (drop 1 p))))
       else if lead = mbin32 then rd_bind (take_bytes 5) (\<lambda>p. rd_return (unat (of_be32 (drop 1 p))))
       else rd_fail (badPrefix BinType lead)))
     (\<lambda>read. take_bytes read)"

definition ReadStringZC :: "(rerr, bytes, bytes) rd" where
  "ReadStringZC =
     rd_bind (rd_bind lead_byte (\<lambda>lead.
       if isfixstr lead then rd_bind (take_bytes 1) (\<lambda>_. rd_return (unat (rfixstr lead)))
       else if lead = mstr8 then rd_bind (take_bytes 2) (\<lambda>p. rd_return (unat (p ! 1)))
       else if lead = mstr16 then rd_bind (take_bytes 3) (\<lambda>p. rd_return (unat (of_be16 (drop 1 p))))
       else if lead = mstr32 then rd_bind (take_bytes 5) (\<lambda>p. rd_return (unat (of_be32 (drop 1 p))))
       else rd_fail (TypeError StrType (getType lead))))
     (\<lambda>read. take_bytes read)"

definition ReadStringBytes :: "(rerr, bytes, string) rd" where
  "ReadStringBytes = rd_bind ReadStringZC (\<lambda>v. rd_return (bytes_str v))"

text \<open>A key that is not a string is read again, from the same slice, as a \<^verbatim>\<open>bin\<close> object.\<close>

definition ReadMapKeyZC :: "(rerr, bytes, bytes) rd" where
  "ReadMapKeyZC b = (case ReadStringZC b of
      (Inl (TypeError m BinType), _) \<Rightarrow> ReadBytesZC b
    | (Inl e, _) \<Rightarrow> (Inl e, b)
    | (Inr v, x) \<Rightarrow> (Inr v, x))"

definition ReadUint64Bytes :: "(rerr, bytes, u64) rd" where
  "ReadUint64Bytes =
     rd_bind lead_byte (\<lambda>lead.
       if isfixint lead then rd_bind (take_bytes 1) (\<lambda>_. rd_return (ucast (rfixint lead)))
       else if lead = mint8 then rd_bind (take_bytes 2) (\<lambda>p. nonneg (scast (p ! 1)))
       else if lead = muint8 then rd_bind (take_bytes 2) (\<lambda>p. rd_return (ucast (p ! 1)))
       else if lead = mint16 then rd_bind (take_bytes 3) (\<lambda>p. nonneg (scast (of_be16 (drop 1 p))))
       else if lead = muint16 then rd_bind (take_bytes 3) (\<lambda>p. rd_return (ucast (of_be16 (drop 1 p))))
       else if lead = mint32 then rd_bind (take_bytes 5) (\<lambda>p. nonneg (scast (of_be32 (drop 1 p))))
       else if lead = muint32 then rd_bind (take_bytes 5) (\<lambda>p. rd_return (ucast (of_be32 (drop 1 p))))
       else if lead = mint64 then rd_bind (take_bytes 9) (\<lambda>p. nonneg (of_be64 (drop 1 p)))
       else if lead = muint64 then rd_bind (take_bytes 9) (\<lambda>p. rd_return (of_be64 (drop 1 p)))
       else if isnfixint lead then rd_fail (UintBelowZero (sint (rnfixint lead)))
       else rd_fail (badPrefix UintType lead))"

definition ReadUintBytes :: "(rerr, bytes, u64) rd" where
  "ReadUintBytes = ReadUint64Bytes"

definition ReadInt64Bytes :: "(rerr, bytes, u64) rd" where
  "ReadInt64Bytes =
     rd_bind lead_byte (\<lambda>lead.
       if isfixint lead then rd_bind (take_bytes 1) (\<lambda>_. rd_return (ucast (rfixint lead)))
       else if isnfixint lead then rd_bind (take_bytes 1) (\<lambda>_. rd_return (scast (rnfixint lead)))
       else if lead = mint8 then rd_bind (take_bytes 2) (\<lambda>p. rd_return (scast (p ! 1)))
       else if lead = muint8 then rd_bind (take_bytes 2) (\<lambda>p. rd_return (ucast (p ! 1)))
       else if lead = mint16 then rd_bind (take_bytes 3) (\<lambda>p. rd_return (scast (of_be16 (drop 1 p))))
       else if lead = muint16 then rd_bind (take_bytes 3) (\<lambda>p. rd_return (ucast (of_be16 (drop 1 p))))
       else if lead = mint32 then rd_bind (take_bytes 5) (\<lambda>p. rd_return (scast (of_be32 (drop 1 p))))
       else if lead = muint32 then rd_bind (take_bytes 5) (\<lambda>p. rd_return (ucast (of_be32 (drop 1 p))))
       else if lead = mint64 then rd_bind (take_bytes 9) (\<lambda>p. rd_return (of_be64 (drop 1 p)))
       else if lead = muint64 then rd_bind (take_bytes 9) (\<lambda>p.
         let u = of_be64 (drop 1 p) in
           if 0x7fffffffffffffff < u then rd_fail (UintOverflow u 64) else rd_return u)
       else rd_fail (badPrefix IntType lead))"

definition ReadFloat32Bytes :: "(rerr, bytes, u32) rd" where
  "ReadFloat32Bytes b =
     (if length b < 5 then (Inl ErrShortBytes, b)
      else if b ! 0 \<noteq> mfloat32 then (Inl (TypeError Float32Type (getType (b ! 0))), b)
      else (Inr (of_be32 (drop 1 b)), drop 5 b))"

definition ReadFloat64Bytes :: "(rerr, bytes, u64) rd" where
  "ReadFloat64Bytes b =
     (let widened = rd_bind ReadFloat32Bytes (\<lambda>tf. rd_return (float32_to_64 tf)) b in
      if length b < 9 then
        if 5 \<le> length b \<and> b ! 0 = mfloat32 then widened else (Inl ErrShortBytes, b)
      else if b ! 0 \<noteq> mfloat64 then
        if b ! 0 = mfloat32 then widened else (Inl (badPrefix Float64Type (b ! 0)), b)
      else (Inr (of_be64 (drop 1 b)), drop 9 b))"

definition NextType :: "bytes \<Rightarrow> mtype" where
  "NextType b =
     (if b = [] then InvalidType
      else let spec = sizes (b ! 0); t = btyp spec in
        if t = ExtensionType \<and> size spec < length b then
          ext_type (if extra spec = Elems 0 then b ! 1 else b ! (size spec - 1))
        else t)"

definition IsNil :: "bytes \<Rightarrow> bool" where
  "IsNil b \<longleftrightarrow> length b \<noteq> 0 \<and> b ! 0 = mnil"

section \<open>Skipping and locating\<close>

definition skip_head_bytes :: "(rerr, bytes, nat) rd" where
  "skip_head_bytes b = (case getSize b of
      Inl e \<Rightarrow> (Inl e, b)
    | Inr (sz, asz) \<Rightarrow> if length b < sz then (Inl ErrShortBytes, b) else (Inr asz, drop sz b))"

lemma skip_head_bytes_shrinks:
  "skip_head_bytes b = (Inr n, b') \<Longrightarrow> length b' < length b"
  using getSize_pos [of b] by (auto simp: skip_head_bytes_def split: sum.splits if_splits)

function (sequential) Skip :: "bytes \<Rightarrow> (rerr + unit) \<times> bytes"
  and skip_elems_bytes :: "nat \<Rightarrow> bytes \<Rightarrow> (rerr + unit) \<times> bytes" where
  "Skip b = (case skip_head_bytes b of
      (Inl e, b') \<Rightarrow> (Inl e, b')
    | (Inr asz, b') \<Rightarrow> skip_elems_bytes asz b')"
| "skip_elems_bytes 0 b = (Inr (), b)"
| "skip_elems_bytes (Suc asz) b = (case Skip b of
      (Inl e, b') \<Rightarrow> (Inl e, b')
    | (Inr _, b') \<Rightarrow> skip_elems_bytes asz b')"
  by pat_completeness auto

lemma Skip_dom_shrinks:
  "Skip_skip_elems_bytes_dom (Inl b) \<Longrightarrow>
     fst (Skip b) = Inr u \<Longrightarrow> length (snd (Skip b)) \<le> length b"
  "Skip_skip_elems_bytes_dom (Inr (n, b)) \<Longrightarrow>
     fst (skip_elems_bytes n b) = Inr u \<Longrightarrow> length (snd (skip_elems_bytes n b)) \<le> length b"
  by (induction b and n b rule: Skip_skip_elems_bytes.pinduct)
    (fastforce simp: Skip.psimps skip_elems_bytes.psimps dest: skip_head_bytes_shrinks
      split: prod.splits sum.splits)+

termination Skip
proof (relation "measures [case_sum length (\<lambda>(n, b). length b), case_sum (\<lambda>b. 0) (\<lambda>(n, b). Suc n)]",
    goal_cases)
  case (4 n b)
  then show ?case
    using Skip_dom_shrinks(1) [of b] by (cases "Skip b") fastforce
qed (auto dest!: skip_head_bytes_shrinks sym [of _ "skip_head_bytes _"])

text \<open>The search loop of \<^verbatim>\<open>locate\<close>: \<open>l\<close> is the length of the whole slice.\<close>

fun locate_loop :: "nat \<Rightarrow> string \<Rightarrow> nat \<Rightarrow> bytes \<Rightarrow> nat \<times> nat" where
  "locate_loop l key 0 bts = (0, 0)"
| "locate_loop l key (Suc i) bts = (case ReadStringZC bts of
      (Inl e, _) \<Rightarrow> (0, 0)
    | (Inr field, bts) \<Rightarrow>
        if bytes_str field = key then
          (case Skip bts of
             (Inl e, _) \<Rightarrow> (0, 0)
           | (Inr _, bts') \<Rightarrow> (l - length bts, l - length bts'))
        else (case Skip bts of
             (Inl e, _) \<Rightarrow> (0, 0)
           | (Inr _, bts') \<Rightarrow> locate_loop l key i bts'))"

definition locate :: "bytes \<Rightarrow> string \<Rightarrow> nat \<times> nat" where
  "locate raw key = (case ReadMapHeaderBytes raw of
      (Inl e, _) \<Rightarrow> (0, 0)
    | (Inr sz, bts) \<Rightarrow> locate_loop (length raw) key (unat sz) bts)"

definition Locate :: "string \<Rightarrow> bytes \<Rightarrow> bytes" where
  "Locate key raw = (case locate raw key of (s, n) \<Rightarrow> take (n - s) (drop s raw))"

section \<open>Numbers (number.go)\<close>

record Number =
  bits :: u64
  ntyp :: mtype

definition AsInt :: "u64 \<Rightarrow> Number" where
  "AsInt i = (if i = 0 then \<lparr>bits = 0, ntyp = InvalidType\<rparr> else \<lparr>bits = i, ntyp = IntType\<rparr>)"

definition AsUint :: "u64 \<Rightarrow> Number" where
  "AsUint u = \<lparr>bits = u, ntyp = UintType\<rparr>"

definition AsFloat32 :: "u32 \<Rightarrow> Number" where
  "AsFloat32 f = \<lparr>bits = ucast f, ntyp = Float32Type\<rparr>"

definition AsFloat64 :: "u64 \<Rightarrow> Number" where
  "AsFloat64 f = \<lparr>bits = f, ntyp = Float64Type\<rparr>"

definition Number_DecodeMsg :: "(rerr, reader, Number) rd" where
  "Number_DecodeMsg =
     rd_bind Reader_NextType (\<lambda>typ. case typ of
         Float32Type \<Rightarrow> rd_bind ReadFloat32 (\<lambda>f. rd_return (AsFloat32 f))
       | Float64Type \<Rightarrow> rd_bind ReadFloat64 (\<lambda>f. rd_return (AsFloat64 f))
       | IntType \<Rightarrow> rd_bind ReadInt64 (\<lambda>i. rd_return (AsInt i))
       | UintType \<Rightarrow> rd_bind ReadUint64 (\<lambda>u. rd_return (AsUint u))
       | _ \<Rightarrow> rd_fail (TypeError IntType typ))"

definition Number_UnmarshalMsg :: "(rerr, bytes, Number) rd" where
  "Number_UnmarshalMsg b = (case NextType b of
       IntType \<Rightarrow> rd_bind ReadInt64Bytes (\<lambda>i. rd_return (AsInt i)) b
     | UintType \<Rightarrow> rd_bind ReadUint64Bytes (\<lambda>u. rd_return (AsUint u)) b
     | Float64Type \<Rightarrow> rd_bind ReadFloat64Bytes (\<lambda>f. rd_return (AsFloat64 f)) b
     | Float32Type \<Rightarrow> rd_bind ReadFloat32Bytes (\<lambda>f. rd_return (AsFloat32 f)) b
     | typ \<Rightarrow> (Inl (TypeError IntType typ), b))"

definition Number_MarshalMsg :: "Number \<Rightarrow> bytes \<Rightarrow> bytes" where
  "Number_MarshalMsg n b = (case ntyp n of
       IntType \<Rightarrow> AppendInt64 b (bits n)
     | UintType \<Rightarrow> AppendUint64 b (bits n)
     | Float64Type \<Rightarrow> AppendFloat64 b (bits n)
     | Float32Type \<Rightarrow> AppendFloat32 b (ucast (bits n))
     | _ \<Rightarrow> AppendInt64 b 0)"

definition Number_Msgsize :: "Number \<Rightarrow> nat" where
  "Number_Msgsize n = (case ntyp n of
       Float32Type \<Rightarrow> Float32Size
     | Float64Type \<Rightarrow> Float64Size
     | IntType \<Rightarrow> Int64Size
     | UintType \<Rightarrow> Uint64Size
     | _ \<Rightarrow> 1)"

end
