(* ===== verification/Msgp_Laws.thy ===== *)
theory Msgp_Laws
  imports Msgp_ReadBytes
begin

text \<open>
  Reading back what was written: every \<^verbatim>\<open>Read\<close> function of the library, on a reader or on a
  slice, returns the value its \<^verbatim>\<open>Append\<close> counterpart wrote and leaves exactly the bytes that
  follow.  The lemmas are equations, so that the decoders built from these functions are
  evaluated by rewriting.
\<close>

section \<open>Leading bytes and casts\<close>

lemma isfix_wfix [simp]:
  "isfixmap (wfixmap u)" "isfixarray (wfixarray u)" "isfixstr (wfixstr u)" "isfixint (wfixint u)"
  "isnfixint (wnfixint u)"
  by (simp_all add: isfixmap_def wfixmap_def isfixarray_def wfixarray_def isfixstr_def wfixstr_def
      isfixint_def wfixint_def isnfixint_def wnfixint_def bit.conj_disj_distrib2 and.assoc
      drop_bit_and)

lemma not_isfixint_wnfixint [simp]: "\<not> isfixint (wnfixint u)"
proof
  assume "isfixint (wnfixint u)"
  then have "bit (drop_bit 7 (wnfixint u)) 0 = bit (0 :: byte) 0" by (simp add: isfixint_def)
  then show False by (simp add: wnfixint_def bit_simps)
qed

lemma take_bit_small: "unat u < 2 ^ n \<Longrightarrow> take_bit n u = (u :: 'a::len word)"
  by (simp add: word_unat_eq_iff unsigned_take_bit_eq take_bit_nat_eq_self)

lemma rfix_wfix:
  "unat u < 16 \<Longrightarrow> rfixmap (wfixmap u) = u"
  "unat u < 16 \<Longrightarrow> rfixarray (wfixarray u) = u"
  "unat u < 32 \<Longrightarrow> rfixstr (wfixstr u) = u"
  "unat u < 128 \<Longrightarrow> rfixint (wfixint u) = u"
  using take_bit_small [of u 4] take_bit_small [of u 5] take_bit_small [of u 7]
  by (simp_all add: rfixmap_def wfixmap_def rfixarray_def wfixarray_def rfixstr_def wfixstr_def
      rfixint_def wfixint_def bit.conj_disj_distrib2 and.assoc take_bit_eq_mask mask_numeral)

lemma ucast_ucast_small:
  fixes x :: "'a::len word"
  assumes "unat x < 2 ^ LENGTH('b::len)"
  shows "ucast (ucast x :: 'b word) = x"
proof -
  have "take_bit LENGTH('b) (unat x) = unat x" using assms by (rule take_bit_nat_eq_self)
  then show ?thesis by (simp add: word_unat_eq_iff unsigned_ucast_eq flip: unsigned_take_bit_eq)
qed

lemma unat_ucast_small:
  fixes x :: "'a::len word"
  assumes "unat x < 2 ^ LENGTH('b::len)"
  shows "unat (ucast x :: 'b word) = unat x"
  using assms by (simp add: unsigned_ucast_eq unsigned_take_bit_eq take_bit_nat_eq_self)

lemma ucast_word_of_int_sint:
  fixes x :: "'a::len word"
  assumes "LENGTH('b::len) \<le> LENGTH('a)"
  shows "(ucast x :: 'b word) = word_of_int (sint x)"
proof (rule bit_word_eqI)
  fix n assume "n < LENGTH('b)"
  with assms have "min (LENGTH('a) - Suc 0) n = n" "n < LENGTH('a)" by arith+
  then show "bit (ucast x :: 'b word) n = bit (word_of_int (sint x) :: 'b word) n"
    using \<open>n < LENGTH('b)\<close> by (simp add: bit_simps)
qed

lemma scast_ucast_small:
  fixes x :: "'a::len word"
  assumes le: "LENGTH('b::len) \<le> LENGTH('a)"
    and "- (2 ^ (LENGTH('b) - 1)) \<le> sint x" "sint x < 2 ^ (LENGTH('b) - 1)"
  shows "scast (ucast x :: 'b word) = x"
proof -
  have "signed_take_bit (LENGTH('b) - Suc 0) (sint x) = sint x"
    using assms by (simp add: signed_take_bit_int_eq_self)
  then have "sint (ucast x :: 'b word) = sint x"
    by (simp only: ucast_word_of_int_sint [OF le] sint_sbintrunc' One_nat_def)
  then have "scast (ucast x :: 'b word) = (word_of_int (sint x) :: 'a word)"
    by (simp only: scast_eq)
  then show ?thesis by simp
qed

lemma word_le_unat:
  "(x :: u32) \<le> 15 \<longleftrightarrow> unat x \<le> 15" "(x :: u32) \<le> 0xffff \<longleftrightarrow> unat x \<le> 65535"
  "(y :: u64) \<le> 0x7f \<longleftrightarrow> unat y \<le> 127" "(y :: u64) \<le> 0xff \<longleftrightarrow> unat y \<le> 255"
  "(y :: u64) \<le> 0xffff \<longleftrightarrow> unat y \<le> 65535" "(y :: u64) \<le> 0xffffffff \<longleftrightarrow> unat y \<le> 4294967295"
  by (simp_all add: word_le_nat_alt)

section \<open>Taking the head of an encoding\<close>

lemma take_drop_be [simp]:
  "take 3 (a # be16 w @ bs) = a # be16 w" "drop 3 (a # be16 w @ bs) = bs"
  "take 5 (a # be32 v @ bs) = a # be32 v" "drop 5 (a # be32 v @ bs) = bs"
  "take 9 (a # be64 u @ bs) = a # be64 u" "drop 9 (a # be64 u @ bs) = bs"
  by (simp_all add: be16_def be32_def be64_def)

lemma of_be_be [simp]:
  "of_be16 (be16 w) = w" "of_be32 (be32 v) = v" "of_be64 (be64 u) = u"
  using of_be16_be16 [of w "[]"] of_be32_be32 [of v "[]"] of_be64_be64 [of u "[]"] by simp_all

lemma fwd_app [simp]:
  "fwd_Peek n (r\<lparr>rest := b\<rparr>) = (if length b < n then (Inl (ending r), r\<lparr>rest := b\<rparr>)
     else (Inr (take n b), r\<lparr>rest := b\<rparr>))"
  "fwd_Next n (r\<lparr>rest := b\<rparr>) = (if length b < n then (Inl (noEOF (ending r)), r\<lparr>rest := b\<rparr>)
     else (Inr (take n b), r\<lparr>rest := drop n b\<rparr>))"
  "n \<le> length b \<Longrightarrow> fwd_Skip n (r\<lparr>rest := b\<rparr>) = (Inr (), r\<lparr>rest := drop n b\<rparr>)"
  "n \<le> length b \<Longrightarrow> fwd_ReadFull n (r\<lparr>rest := b\<rparr>) = (Inr (take n b), r\<lparr>rest := drop n b\<rparr>)"
  by (simp_all add: fwd_Peek_def fwd_Next_def fwd_Skip_def fwd_ReadFull_def advance_def)

lemma bytes_app [simp]:
  "lead_byte (a # b) = (Inr a, a # b)"
  "n \<le> length b \<Longrightarrow> take_bytes n b = (Inr (take n b), drop n b)"
  by (simp_all add: lead_byte_def take_bytes_def)

lemma prefix_numeral [simp]:
  "isfixmap (numeral k) \<longleftrightarrow> numeral k AND 0xf0 = (0x80 :: byte)"
  "isfixarray (numeral k) \<longleftrightarrow> numeral k AND 0xf0 = (0x90 :: byte)"
  "isfixstr (numeral k) \<longleftrightarrow> numeral k AND 0xe0 = (0xa0 :: byte)"
  "isfixint (numeral k) \<longleftrightarrow> drop_bit 7 (numeral k) = (0 :: byte)"
  "isnfixint (numeral k) \<longleftrightarrow> numeral k AND 0xe0 = (0xe0 :: byte)"
  by (simp_all add: isfixmap_def isfixarray_def isfixstr_def isfixint_def isnfixint_def)

lemmas back_simps = word_le_unat rd_simps rfix_wfix ucast_ucast_small unat_ucast_small Let_def

section \<open>Headers\<close>

lemma ReadMapHeader_back [simp]:
  "ReadMapHeader (r\<lparr>rest := AppendMapHeader [] n @ bs\<rparr>) = (Inr n, r\<lparr>rest := bs\<rparr>)"
  by (auto simp: ReadMapHeader_def AppendMapHeader_def back_simps)

lemma ReadArrayHeader_back [simp]:
  "ReadArrayHeader (r\<lparr>rest := AppendArrayHeader [] n @ bs\<rparr>) = (Inr n, r\<lparr>rest := bs\<rparr>)"
  by (auto simp: ReadArrayHeader_def AppendArrayHeader_def back_simps)

lemma ReadMapHeaderBytes_back [simp]:
  "ReadMapHeaderBytes (AppendMapHeader [] n @ bs) = (Inr n, bs)"
  by (auto simp: ReadMapHeaderBytes_def AppendMapHeader_def back_simps)

lemma ReadArrayHeaderBytes_back [simp]:
  "ReadArrayHeaderBytes (AppendArrayHeader [] n @ bs) = (Inr n, bs)"
  by (auto simp: ReadArrayHeaderBytes_def AppendArrayHeader_def back_simps)

section \<open>Strings\<close>

lemma unat_len [simp]:
  "n \<le> 31 \<Longrightarrow> unat (of_nat n :: byte) = n" "n \<le> 255 \<Longrightarrow> unat (of_nat n :: byte) = n"
  "n \<le> 65535 \<Longrightarrow> unat (of_nat n :: u16) = n" "n < 4294967296 \<Longrightarrow> unat (of_nat n :: u32) = n"
  by (simp_all add: unsigned_of_nat take_bit_nat_eq_self)

lemma ReadString_back [simp]:
  "length s < 2 ^ 32 \<Longrightarrow>
     ReadString (r\<lparr>rest := AppendString [] s @ bs\<rparr>) = (Inr s, r\<lparr>rest := bs\<rparr>)"
  by (auto simp: ReadString_def AppendString_def back_simps length_str_bytes bytes_str_str_bytes)

lemma ReadMapKeyPtr_back [simp]:
  "length s < 2 ^ 32 \<Longrightarrow> s \<noteq> [] \<Longrightarrow>
     ReadMapKeyPtr (r\<lparr>rest := AppendString [] s @ bs\<rparr>) = (Inr (str_bytes s), r\<lparr>rest := bs\<rparr>)"
  by (auto simp: ReadMapKeyPtr_def AppendString_def back_simps length_str_bytes)

lemma ReadStringZC_back [simp]:
  "length s < 2 ^ 32 \<Longrightarrow> ReadStringZC (AppendString [] s @ bs) = (Inr (str_bytes s), bs)"
  by (auto simp: ReadStringZC_def AppendString_def back_simps length_str_bytes)

lemma ReadStringBytes_back [simp]:
  "length s < 2 ^ 32 \<Longrightarrow> ReadStringBytes (AppendString [] s @ bs) = (Inr s, bs)"
  by (simp add: ReadStringBytes_def rd_simps bytes_str_str_bytes)

lemma ReadMapKeyZC_back [simp]:
  "length s < 2 ^ 32 \<Longrightarrow> ReadMapKeyZC (AppendString [] s @ bs) = (Inr (str_bytes s), bs)"
  by (simp add: ReadMapKeyZC_def)

section \<open>Numbers\<close>

lemma ReadUint64_back [simp]:
  "ReadUint64 (r\<lparr>rest := AppendUint64 [] u @ bs\<rparr>) = (Inr u, r\<lparr>rest := bs\<rparr>)"
  by (auto simp: ReadUint64_def AppendUint64_def back_simps)

lemma ReadUint64Bytes_back [simp]:
  "ReadUint64Bytes (AppendUint64 [] u @ bs) = (Inr u, bs)"
  by (auto simp: ReadUint64Bytes_def AppendUint64_def back_simps)

lemma ReadUint_back [simp]:
  "ReadUint (r\<lparr>rest := AppendUint [] u @ bs\<rparr>) = (Inr u, r\<lparr>rest := bs\<rparr>)"
  by (simp add: ReadUint_def AppendUint_def)

lemma ReadUintBytes_back [simp]:
  "ReadUintBytes (AppendUint [] u @ bs) = (Inr u, bs)"
  by (simp add: ReadUintBytes_def AppendUint_def)

lemma unat_of_sint:
  assumes "0 \<le> sint (x :: u64)"
  shows "unat x = nat (sint x)"
proof -
  have "uint (word_of_int (sint x) :: u64) = take_bit LENGTH(64) (sint x)"
    by (rule uint_word_of_int_eq)
  then have "uint x = take_bit 64 (sint x)" by simp
  also have "take_bit 64 (sint x) = sint x"
    using assms sint_lt [of x] by (simp add: take_bit_int_eq_self)
  finally show ?thesis by (simp add: nat_uint_eq [symmetric])
qed

lemma rfixint_wfixint_sint:
  fixes x :: u64
  assumes "0 \<le> sint x" "sint x \<le> 127"
  shows "ucast (rfixint (wfixint (ucast x))) = x"
proof -
  have "unat x < 128" using assms by (simp add: unat_of_sint)
  then show ?thesis by (simp add: rfix_wfix unat_ucast_small ucast_ucast_small)
qed

lemma scast_ucast_u64:
  fixes x :: u64
  shows "- 128 \<le> sint x \<Longrightarrow> sint x \<le> 127 \<Longrightarrow> scast (ucast x :: byte) = x"
    "- 32768 \<le> sint x \<Longrightarrow> sint x \<le> 32767 \<Longrightarrow> scast (ucast x :: u16) = x"
    "- 2147483648 \<le> sint x \<Longrightarrow> sint x \<le> 2147483647 \<Longrightarrow> scast (ucast x :: u32) = x"
  using scast_ucast_small [of x, where 'b = 8] scast_ucast_small [of x, where 'b = 16]
    scast_ucast_small [of x, where 'b = 32] by simp_all

lemma rnfix_wnfix:
  fixes x :: u64
  assumes "- 32 \<le> sint x" "sint x < 0"
  shows "scast (rnfixint (wnfixint (ucast x))) = x"
proof -
  have "sint (NOT x) = - 1 - sint x" 
    using assms by (simp add: signed_not_eq not_int_def signed_take_bit_int_eq_self)
  then have "0 \<le> sint (NOT x)" "sint (NOT x) \<le> 31" using assms by auto
  then have "unat (ucast (NOT x) :: byte) < 2 ^ 5" by (simp add: unat_ucast_small unat_of_sint)
  then have "ucast (NOT x) AND 0x1f = (ucast (NOT x) :: byte)"
    using take_bit_small [of "ucast (NOT x) :: byte" 5] by (simp add: take_bit_eq_mask mask_numeral)
  moreover have "ucast (NOT x) = (NOT (ucast x) :: byte)" by (rule bit_word_eqI) (simp add: bit_simps)
  ultimately have "NOT (NOT (ucast x) AND 0x1f) = (NOT (NOT (ucast x)) :: byte)" by simp
  moreover have "(- 32 :: byte) = 0xe0" by simp
  ultimately have "wnfixint (ucast x) = ucast x" by (simp add: wnfixint_def)
  then show ?thesis using scast_ucast_u64(1) [of x] assms by (simp add: rnfixint_def)
qed

lemma ReadInt64_back [simp]:
  "ReadInt64 (r\<lparr>rest := AppendInt64 [] i @ bs\<rparr>) = (Inr i, r\<lparr>rest := bs\<rparr>)"
  by (auto simp: ReadInt64_def AppendInt64_def back_simps rnfix_wnfix scast_ucast_u64
    rfixint_wfixint_sint)

lemma ReadInt64Bytes_back [simp]:
  "ReadInt64Bytes (AppendInt64 [] i @ bs) = (Inr i, bs)"
  by (auto simp: ReadInt64Bytes_def AppendInt64_def back_simps rnfix_wnfix scast_ucast_u64
    rfixint_wfixint_sint)

lemma ReadFloat32_back [simp]:
  "ReadFloat32 (r\<lparr>rest := AppendFloat32 [] f @ bs\<rparr>) = (Inr f, r\<lparr>rest := bs\<rparr>)"
  by (simp add: ReadFloat32_def AppendFloat32_def back_simps)

lemma ReadFloat64_back [simp]:
  "ReadFloat64 (r\<lparr>rest := AppendFloat64 [] f @ bs\<rparr>) = (Inr f, r\<lparr>rest := bs\<rparr>)"
  by (simp add: ReadFloat64_def AppendFloat64_def back_simps)

lemma ReadFloat32Bytes_back [simp]:
  "ReadFloat32Bytes (AppendFloat32 [] f @ bs) = (Inr f, bs)"
  by (simp add: ReadFloat32Bytes_def AppendFloat32_def of_be32_be32)

lemma ReadFloat64Bytes_back [simp]:
  "ReadFloat64Bytes (AppendFloat64 [] f @ bs) = (Inr f, bs)"
  by (simp add: ReadFloat64Bytes_def AppendFloat64_def of_be64_be64)

section \<open>The number type\<close>

text \<open>
  The numbers the library itself makes: an integer zero has no type, a \<^verbatim>\<open>float32\<close> uses the low
  half of the bits, and no other types occur.
\<close>

definition Number_wf :: "Number \<Rightarrow> bool" where
  "Number_wf n \<longleftrightarrow> (case ntyp n of
       InvalidType \<Rightarrow> bits n = 0
     | IntType \<Rightarrow> bits n \<noteq> 0
     | UintType \<Rightarrow> True
     | Float64Type \<Rightarrow> True
     | Float32Type \<Rightarrow> unat (bits n) < 2 ^ 32
     | _ \<Rightarrow> False)"

lemma Number_wf_As [simp]:
  "Number_wf (AsInt i)" "Number_wf (AsUint u)" "Number_wf (AsFloat32 f)" "Number_wf (AsFloat64 g)"
proof -
  have "unat f < 2 ^ LENGTH(32)" by (rule unsigned_less)
  then show "Number_wf (AsFloat32 f)" by (simp add: Number_wf_def AsFloat32_def unat_ucast_small)
qed (simp_all add: Number_wf_def AsInt_def AsUint_def AsFloat64_def)

lemma Number_wf_cases:
  assumes "Number_wf n"
  obtains (Int) i where "n = AsInt i" "Number_MarshalMsg n [] = AppendInt64 [] i"
  | (Uint) u where "n = AsUint u" "Number_MarshalMsg n [] = AppendUint64 [] u" 
  | (F32) f where "n = AsFloat32 f" "Number_MarshalMsg n [] = AppendFloat32 [] f"
  | (F64) f where "n = AsFloat64 f" "Number_MarshalMsg n [] = AppendFloat64 [] f"
proof (cases "ntyp n")
  case InvalidType
  then show thesis using assms Int [of 0]
    by (cases n) (simp add: Number_wf_def AsInt_def Number_MarshalMsg_def)
next
  case IntType
  then show thesis using assms Int [of "bits n"]
    by (cases n) (simp add: Number_wf_def AsInt_def Number_MarshalMsg_def)
next
  case UintType
  then show thesis using Uint [of "bits n"] by (cases n) (simp add: AsUint_def Number_MarshalMsg_def)
next
  case Float64Type
  then show thesis using F64 [of "bits n"] by (cases n) (simp add: AsFloat64_def Number_MarshalMsg_def)
next
  case Float32Type
  then show thesis using assms F32 [of "ucast (bits n)"]
    by (cases n) (simp add: Number_wf_def AsFloat32_def Number_MarshalMsg_def ucast_ucast_small)
qed (use assms in \<open>simp_all add: Number_wf_def\<close>)

text \<open>
  The type of the next object after an unsigned number is an integer type when the number was
  written as a positive fixint: \<^verbatim>\<open>Number\<close> does not keep the signedness of a small number.
\<close>

definition Number_norm :: "Number \<Rightarrow> Number" where
  "Number_norm n = (if ntyp n = UintType \<and> bits n \<le> 0x7f then AsInt (bits n) else n)"

lemma getType_small: "unat b < 128 \<Longrightarrow> getType b = IntType"
  by (simp add: getType_def sizes_def word_less_nat_alt)

lemma getType_wnfixint: "getType (wnfixint u) = IntType"
proof -
  have "uint (wnfixint u) = 224 OR uint u" by (simp add: wnfixint_def unsigned_or_eq or.commute)
  then have "224 \<le> uint (wnfixint u)" using or_greater_eq [of "uint u" 224] by simp
  then show ?thesis by (auto simp: getType_def sizes_def word_less_def word_le_def)
qed

lemma unat_wfixint: "unat (wfixint u) < 128"
proof -
  have "wfixint u = take_bit 7 u" by (simp add: wfixint_def take_bit_eq_mask mask_numeral)
  then show ?thesis using take_bit_nat_less_exp [of 7 "unat u"] by (simp add: unsigned_take_bit_eq)
qed

lemma Reader_NextType_lead:
  "getType a \<noteq> InvalidType \<Longrightarrow> getType a \<noteq> ExtensionType \<Longrightarrow>
     Reader_NextType (r\<lparr>rest := a # bs\<rparr>) = (Inr (getType a), r\<lparr>rest := a # bs\<rparr>)"
  by (simp add: Reader_NextType_def rd_simps Let_def)

lemma NextType_lead: "getType a \<noteq> ExtensionType \<Longrightarrow> NextType (a # bs) = getType a"
  by (simp add: NextType_def getType_def Let_def)

lemma getType_AppendInt64: "\<exists>a as. AppendInt64 [] i = a # as \<and> getType a = IntType"
  by (simp add: AppendInt64_def getType_small getType_wnfixint unat_wfixint)
    (simp add: getType_def sizes_def)

lemma getType_AppendUint64:
  "\<exists>a as. AppendUint64 [] u = a # as \<and> getType a = (if u \<le> 0x7f then IntType else UintType)"
  by (simp add: AppendUint64_def getType_small getType_wnfixint unat_wfixint)
    (simp add: getType_def sizes_def)

lemma getType_AppendFloat:
  "\<exists>a as. AppendFloat32 [] f = a # as \<and> getType a = Float32Type"
  "\<exists>a as. AppendFloat64 [] g = a # as \<and> getType a = Float64Type"
  by (simp_all add: AppendFloat32_def AppendFloat64_def getType_def sizes_def)

lemma ReadInt64_AppendUint64:
  "u \<le> 0x7f \<Longrightarrow> ReadInt64 (r\<lparr>rest := AppendUint64 [] u @ bs\<rparr>) = (Inr u, r\<lparr>rest := bs\<rparr>)"
  "u \<le> 0x7f \<Longrightarrow> ReadInt64Bytes (AppendUint64 [] u @ bs) = (Inr u, bs)"
  by (simp_all add: ReadInt64_def ReadInt64Bytes_def AppendUint64_def back_simps)

lemma Number_DecodeMsg_back [simp]:
  assumes "Number_wf n"
  shows "Number_DecodeMsg (r\<lparr>rest := Number_MarshalMsg n [] @ bs\<rparr>) = (Inr (Number_norm n), r\<lparr>rest := bs\<rparr>)"
  using assms
proof (cases rule: Number_wf_cases)
  case (Int i)
  obtain a as where "AppendInt64 [] i = a # as" "getType a = IntType" using getType_AppendInt64 by blast
  then show ?thesis using Int ReadInt64_back [of i bs r]
    by (simp add: Number_DecodeMsg_def rd_simps Reader_NextType_lead Number_norm_def AsInt_def)
next
  case (Uint u)
  obtain a as where "AppendUint64 [] u = a # as" "getType a = (if u \<le> 0x7f then IntType else UintType)"
    using getType_AppendUint64 by blast
  then show ?thesis using Uint ReadUint64_back [of u bs r] ReadInt64_AppendUint64(1) [of u bs r]
    by (auto simp: Number_DecodeMsg_def rd_simps Reader_NextType_lead Number_norm_def AsUint_def)
next
  case (F32 f)
  obtain a as where "AppendFloat32 [] f = a # as" "getType a = Float32Type" using getType_AppendFloat by blast
  then show ?thesis using F32 ReadFloat32_back [of f bs r]
    by (simp add: Number_DecodeMsg_def rd_simps Reader_NextType_lead Number_norm_def AsFloat32_def)
next
  case (F64 f)
  obtain a as where "AppendFloat64 [] f = a # as" "getType a = Float64Type" using getType_AppendFloat by blast
  then show ?thesis using F64 ReadFloat64_back [of f bs r]
    by (simp add: Number_DecodeMsg_def rd_simps Reader_NextType_lead Number_norm_def AsFloat64_def)
qed

lemma Number_UnmarshalMsg_back [simp]:
  assumes "Number_wf n"
  shows "Number_UnmarshalMsg (Number_MarshalMsg n [] @ bs) = (Inr (Number_norm n), bs)"
  using assms
proof (cases rule: Number_wf_cases)
  case (Int i)
  obtain a as where "AppendInt64 [] i = a # as" "getType a = IntType" using getType_AppendInt64 by blast
  then show ?thesis using Int ReadInt64Bytes_back [of i bs]
    by (simp add: Number_UnmarshalMsg_def rd_simps NextType_lead Number_norm_def AsInt_def)
next
  case (Uint u)
  obtain a as where "AppendUint64 [] u = a # as" "getType a = (if u \<le> 0x7f then IntType else UintType)"
    using getType_AppendUint64 by blast
  then show ?thesis using Uint ReadUint64Bytes_back [of u bs] ReadInt64_AppendUint64(2) [of u bs]
    by (auto simp: Number_UnmarshalMsg_def rd_simps NextType_lead Number_norm_def AsUint_def)
next
  case (F32 f)
  obtain a as where "AppendFloat32 [] f = a # as" "getType a = Float32Type" using getType_AppendFloat by blast
  then show ?thesis using F32 ReadFloat32Bytes_back [of f bs]
    by (simp add: Number_UnmarshalMsg_def rd_simps NextType_lead Number_norm_def AsFloat32_def)
next
  case (F64 f)
  obtain a as where "AppendFloat64 [] f = a # as" "getType a = Float64Type" using getType_AppendFloat by blast
  then show ?thesis using F64 ReadFloat64Bytes_back [of f bs]
    by (simp add: Number_UnmarshalMsg_def rd_simps NextType_lead Number_norm_def AsFloat64_def)
qed

end
