(* ===== verification/Msgp_Objects.thy ===== *)
theory Msgp_Objects
  imports Msgp_Laws
begin

text \<open>
  Whole MessagePack objects.  \<^verbatim>\<open>AppendIntf\<close> (\<^verbatim>\<open>write_bytes.go\<close>) writes a Go value of a dynamic
  type; the functions that walk an encoded object without decoding it (\<^verbatim>\<open>Reader.Skip\<close>,
  \<^verbatim>\<open>Skip\<close>, \<^verbatim>\<open>Reader.CopyNext\<close>) consume exactly one such object.  The three walks share the
  interface \<open>object_walk\<close>: a head that reports how many element objects follow, and a loop.
\<close>

section \<open>Values of a dynamic type (AppendIntf)\<close>

text \<open>
  The dynamic types of \<^verbatim>\<open>AppendIntf\<close>: the signed and the unsigned integer types are written
  through \<^verbatim>\<open>int64\<close> and \<^verbatim>\<open>uint64\<close>, a map is listed in the order \<^verbatim>\<open>range\<close> visits it.  Complex
  numbers, times, extensions and values with their own marshaller are left out.
\<close>

datatype intf = INil | IBool bool | IFloat32 u32 | IFloat64 u64 | IString string | IBytes bytes
  | IInt u64 | IUint u64 | IMapIntf "(string \<times> intf) list" | IMapStr "(string \<times> string) list"
  | ISlice "intf list"

fun AppendIntf :: "bytes \<Rightarrow> intf \<Rightarrow> bytes"
  and append_intfs :: "bytes \<Rightarrow> intf list \<Rightarrow> bytes"
  and append_fields :: "bytes \<Rightarrow> (string \<times> intf) list \<Rightarrow> bytes" where
  "AppendIntf b INil = AppendNil b"
| "AppendIntf b (IBool t) = AppendBool b t"
| "AppendIntf b (IFloat32 f) = AppendFloat32 b f"
| "AppendIntf b (IFloat64 f) = AppendFloat64 b f"
| "AppendIntf b (IString s) = AppendString b s"
| "AppendIntf b (IBytes v) = AppendBytes b v"
| "AppendIntf b (IInt i) = AppendInt64 b i"
| "AppendIntf b (IUint u) = AppendUint64 b u"
| "AppendIntf b (IMapIntf m) = append_fields (AppendMapHeader b (of_nat (length m))) m"
| "AppendIntf b (IMapStr m) = append_pairs (AppendMapHeader b (of_nat (length m))) m"
| "AppendIntf b (ISlice xs) = append_intfs (AppendArrayHeader b (of_nat (length xs))) xs"
| "append_intfs b [] = b"
| "append_intfs b (x # xs) = append_intfs (AppendIntf b x) xs"
| "append_fields b [] = b"
| "append_fields b ((k, v) # m) = append_fields (AppendIntf (AppendString b k) v) m"

text \<open>Values whose lengths the format can express: every length is below \<open>2\<^sup>3\<^sup>2\<close>.\<close>

fun intf_ok :: "intf \<Rightarrow> bool" and fields_ok :: "(string \<times> intf) list \<Rightarrow> bool"
  and intfs_ok :: "intf list \<Rightarrow> bool" where
  "intf_ok (IString s) \<longleftrightarrow> length s < 2 ^ 32"
| "intf_ok (IBytes v) \<longleftrightarrow> length v < 2 ^ 32"
| "intf_ok (IMapIntf m) \<longleftrightarrow> length m < 2 ^ 32 \<and> fields_ok m"
| "intf_ok (IMapStr m) \<longleftrightarrow> length m < 2 ^ 32 \<and> (\<forall>(k, v) \<in> set m. length k < 2 ^ 32 \<and> length v < 2 ^ 32)"
| "intf_ok (ISlice xs) \<longleftrightarrow> length xs < 2 ^ 32 \<and> intfs_ok xs"
| "intf_ok _ \<longleftrightarrow> True"
| "fields_ok [] \<longleftrightarrow> True"
| "fields_ok ((k, v) # m) \<longleftrightarrow> length k < 2 ^ 32 \<and> intf_ok v \<and> fields_ok m"
| "intfs_ok [] \<longleftrightarrow> True"
| "intfs_ok (x # xs) \<longleftrightarrow> intf_ok x \<and> intfs_ok xs"

lemma AppendIntf_split_all:
  "\<forall>b. AppendIntf b i = b @ AppendIntf [] i"
  "\<forall>b. append_fields b m = b @ append_fields [] m"
  "\<forall>b. append_intfs b xs = b @ append_intfs [] xs"
proof (induction i and m and xs rule: intf_ok_fields_ok_intfs_ok.induct)
  case (3 m)
  show ?case
  proof
    fix b
    have "append_fields (AppendMapHeader b n) m = b @ append_fields (AppendMapHeader [] n) m" for n
      using 3 AppendMapHeader_split [of b n] by (metis append.assoc)
    then show "AppendIntf b (IMapIntf m) = b @ AppendIntf [] (IMapIntf m)" by simp
  qed
next
  case (4 m)
  show ?case
  proof
    fix b
    have "append_pairs (AppendMapHeader b n) m = b @ append_pairs (AppendMapHeader [] n) m" for n
      using append_pairs_split AppendMapHeader_split [of b n] by (metis append.assoc)
    then show "AppendIntf b (IMapStr m) = b @ AppendIntf [] (IMapStr m)" by simp
  qed
next
  case (5 xs)
  show ?case
  proof
    fix b
    have "append_intfs (AppendArrayHeader b n) xs = b @ append_intfs (AppendArrayHeader [] n) xs" for n
      using 5 AppendArrayHeader_split [of b n] by (metis append.assoc)
    then show "AppendIntf b (ISlice xs) = b @ AppendIntf [] (ISlice xs)" by simp
  qed
next
  case (8 k v m)
  show ?case
  proof
    fix b
    have "AppendIntf (AppendString b k) v = b @ AppendIntf (AppendString [] k) v"
      using 8 AppendString_split [of b k] by (metis append.assoc)
    then show "append_fields b ((k, v) # m) = b @ append_fields [] ((k, v) # m)"
      using 8 by (metis append.assoc append_fields.simps(2))
  qed
next
  case (10 x xs)
  then show ?case by (metis append.assoc append_intfs.simps(2))
qed (simp_all add: AppendNil_def AppendBool_def append_simps)

lemmas AppendIntf_split = AppendIntf_split_all [rule_format]

section \<open>The head of an encoding\<close>

lemma getSize_Cons:
  "size (sizes a) \<noteq> 0 \<Longrightarrow> extra (sizes a) = Elems n \<Longrightarrow> getSize (a # bs) = Inr (size (sizes a), n)"
  by (simp add: getSize_def)

lemma unat_or_disjoint:
  fixes c v :: byte
  assumes "c AND v = 0"
  shows "unat (c OR v) = unat c + unat v"
proof -
  have "uint c AND uint v = 0" using assms by (simp flip: unsigned_and_eq)
  then have "uint (c OR v) = uint c + uint v"
    using plus_and_or [of "uint c" "uint v"] by (simp add: unsigned_or_eq)
  then have "nat (uint (c OR v)) = nat (uint c) + nat (uint v)" by (simp only: nat_add_distrib uint_ge_0)
  then show ?thesis by simp
qed

lemma and_mask_small:
  fixes u :: byte
  shows "unat u < 16 \<Longrightarrow> u AND 0x0f = u" "unat u < 32 \<Longrightarrow> u AND 0x1f = u"
  using take_bit_small [of u 4] take_bit_small [of u 5] by (simp_all add: take_bit_eq_mask mask_numeral)

lemma and_high_zero:
  fixes u :: byte
  shows "0x80 AND (u AND 0x0f) = 0" "0x90 AND (u AND 0x0f) = 0" "0xa0 AND (u AND 0x1f) = 0"
  by (simp_all add: and.left_commute [of _ u])

lemma unat_wfix:
  "unat u < 16 \<Longrightarrow> unat (wfixmap u) = 128 + unat u"
  "unat u < 16 \<Longrightarrow> unat (wfixarray u) = 144 + unat u"
  "unat u < 32 \<Longrightarrow> unat (wfixstr u) = 160 + unat u"
  using unat_or_disjoint [OF and_high_zero(1) [of u]] unat_or_disjoint [OF and_high_zero(2) [of u]]
    unat_or_disjoint [OF and_high_zero(3) [of u]]
  by (simp_all add: wfixmap_def wfixarray_def wfixstr_def and_mask_small or.commute)

lemma sizes_wfix:
  "unat u < 16 \<Longrightarrow> sizes (wfixmap u) = bspec 1 (Elems (2 * unat u)) MapType"
  "unat u < 16 \<Longrightarrow> sizes (wfixarray u) = bspec 1 (Elems (unat u)) ArrayType"
  "unat u < 32 \<Longrightarrow> sizes (wfixstr u) = bspec (1 + unat u) (Elems 0) StrType"
  "sizes (wfixint u) = bspec 1 (Elems 0) IntType"
  using unat_wfixint [of u]
  by (simp_all add: sizes_def word_less_nat_alt unat_wfix rfix_wfix)

lemma sizes_wnfixint: "sizes (wnfixint u) = bspec 1 (Elems 0) IntType"
proof -
  have "uint (wnfixint u) = 224 OR uint u" by (simp add: wnfixint_def unsigned_or_eq or.commute)
  then have ge: "0xe0 \<le> wnfixint u" using or_greater_eq [of "uint u" 224] by (simp add: word_le_def)
  then have "wnfixint u \<noteq> c" if "c < 0xe0" for c using that by auto
  moreover have "\<not> wnfixint u < c" if "c \<le> 0xe0" for c using that ge by auto
  ultimately show ?thesis using ge by (simp add: sizes_def)
qed

lemma sizes_prefix [simp]:
  "sizes mnil = bspec 1 (Elems 0) NilType"
  "sizes mfalse = bspec 1 (Elems 0) BoolType"
  "sizes mtrue = bspec 1 (Elems 0) BoolType"
  "sizes mbin8 = bspec 2 Extra8 BinType"
  "sizes mbin16 = bspec 3 Extra16 BinType"
  "sizes mbin32 = bspec 5 Extra32 BinType"
  "sizes mfloat32 = bspec 5 (Elems 0) Float32Type"
  "sizes mfloat64 = bspec 9 (Elems 0) Float64Type"
  "sizes muint8 = bspec 2 (Elems 0) UintType"
  "sizes muint16 = bspec 3 (Elems 0) UintType"
  "sizes muint32 = bspec 5 (Elems 0) UintType"
  "sizes muint64 = bspec 9 (Elems 0) UintType"
  "sizes mint8 = bspec 2 (Elems 0) IntType"
  "sizes mint16 = bspec 3 (Elems 0) IntType"
  "sizes mint32 = bspec 5 (Elems 0) IntType"
  "sizes mint64 = bspec 9 (Elems 0) IntType"
  "sizes mstr8 = bspec 2 Extra8 StrType"
  "sizes mstr16 = bspec 3 Extra16 StrType"
  "sizes mstr32 = bspec 5 Extra32 StrType"
  "sizes marray16 = bspec 3 Array16v ArrayType"
  "sizes marray32 = bspec 5 Array32v ArrayType"
  "sizes mmap16 = bspec 3 Map16v MapType"
  "sizes mmap32 = bspec 5 Map32v MapType"
  by (simp_all add: sizes_def)

lemma getSize_headers:
  "getSize (AppendMapHeader [] n @ bs) = Inr (length (AppendMapHeader [] n), 2 * unat n)"
  "getSize (AppendArrayHeader [] n @ bs) = Inr (length (AppendArrayHeader [] n), unat n)"
  by (simp_all add: AppendMapHeader_def AppendArrayHeader_def getSize_def sizes_wfix word_le_unat
      unat_ucast_small mode_size_def of_be16_be16 of_be32_be32)

lemma getSize_scalars:
  "getSize (AppendNil [] @ bs) = Inr (length (AppendNil []), 0)"
  "getSize (AppendBool [] t @ bs) = Inr (length (AppendBool [] t), 0)"
  "getSize (AppendFloat32 [] f @ bs) = Inr (length (AppendFloat32 [] f), 0)"
  "getSize (AppendFloat64 [] g @ bs) = Inr (length (AppendFloat64 [] g), 0)"
  "getSize (AppendUint64 [] u @ bs) = Inr (length (AppendUint64 [] u), 0)"
  "getSize (AppendInt64 [] i @ bs) = Inr (length (AppendInt64 [] i), 0)"
  by (simp_all add: AppendNil_def AppendBool_def AppendFloat32_def AppendFloat64_def
      AppendUint64_def AppendInt64_def getSize_def sizes_wfix sizes_wnfixint)

lemma getSize_AppendString:
  "length s < 2 ^ 32 \<Longrightarrow> getSize (AppendString [] s @ bs) = Inr (length (AppendString [] s), 0)"
  by (simp add: AppendString_def getSize_def sizes_wfix Let_def length_str_bytes mode_size_def
      of_be16_be16 of_be32_be32)

lemma getSize_AppendBytes:
  "length v < 2 ^ 32 \<Longrightarrow> getSize (AppendBytes [] v @ bs) = Inr (length (AppendBytes [] v), 0)"
  by (simp add: AppendBytes_def getSize_def Let_def mode_size_def of_be16_be16 of_be32_be32)

text \<open>No encoding of a value starts with the \<^verbatim>\<open>ext32\<close> prefix, whose head is longer than five bytes.\<close>

definition short_head :: "bytes \<Rightarrow> bool" where
  "short_head b \<longleftrightarrow> b \<noteq> [] \<and> b ! 0 \<noteq> mext32"

definition head_short :: "bytespec \<Rightarrow> bool" where
  "head_short sp \<longleftrightarrow> (case extra sp of Elems n \<Rightarrow> True | _ \<Rightarrow> size sp \<le> 5)"

lemma head_short_sizes: "a \<noteq> mext32 \<Longrightarrow> head_short (sizes a)"
  unfolding sizes_def by (simp add: head_short_def)

lemma getSize_take_5:
  assumes "short_head b" "5 \<le> length b"
  shows "getSize (take 5 b) = getSize b"
proof -
  have lead: "take 5 b ! 0 = b ! 0" "take 5 b \<noteq> []" "b \<noteq> []" using assms by auto
  have be: "take 5 b ! 1 = b ! 1" "of_be16 (drop 1 (take 5 b)) = of_be16 (drop 1 b)"
    "of_be32 (drop 1 (take 5 b)) = of_be32 (drop 1 b)"
    using assms(2) by (simp_all add: of_be16_def of_be32_def)
  have "b ! 0 \<noteq> mext32" using assms by (simp add: short_head_def)
  then show ?thesis
    using head_short_sizes [of "b ! 0"] assms(2) be lead
    by (simp add: head_short_def getSize_def Let_def mode_size_def split: varmode.splits)
qed

text \<open>An entry of the size table whose head holds the length field that its mode reads.\<close>

definition head_fits :: "bytespec \<Rightarrow> bool" where
  "head_fits sp \<longleftrightarrow> (case extra sp of
      Elems n \<Rightarrow> True
    | Extra8 \<Rightarrow> 2 \<le> size sp
    | m \<Rightarrow> (if m \<in> {Extra16, Map16v, Array16v} then 3 else 5) \<le> size sp)"

lemma head_fits_sizes: "head_fits (sizes a)"
  unfolding sizes_def by (simp add: head_fits_def)

lemma mode_size_take:
  assumes "size (sizes a) \<le> length b"
  shows "mode_size (size (sizes a)) (extra (sizes a)) (take (size (sizes a)) b)
    = mode_size (size (sizes a)) (extra (sizes a)) b"
  using assms head_fits_sizes [of a]
  by (simp add: mode_size_def head_fits_def of_be16_def of_be32_def split: varmode.splits)

lemma getNextSize_getSize:
  assumes "getSize (rest r) = Inr vn"
  shows "getNextSize r = (Inr vn, r)"
proof -
  have "rest r \<noteq> []" using assms by (auto simp: getSize_def)
  then have "fwd_Peek 1 r = (Inr [rest r ! 0], r)" by (cases "rest r") (simp_all add: fwd_Peek_def)
  then show ?thesis
    using assms mode_size_take [of "rest r ! 0" "rest r"] \<open>rest r \<noteq> []\<close>
    by (auto simp: getNextSize_def getSize_def rd_simps fwd_Peek_def rd_bind_def Let_def
        split: if_splits varmode.splits)
qed

lemma short_head_enc:
  "short_head (AppendNil [] @ bs)" "short_head (AppendBool [] t @ bs)"
  "short_head (AppendFloat32 [] f @ bs)" "short_head (AppendFloat64 [] g @ bs)"
  "short_head (AppendMapHeader [] n @ bs)" "short_head (AppendArrayHeader [] n @ bs)"
  "short_head (AppendUint64 [] u @ bs)" "short_head (AppendInt64 [] i @ bs)"
  "short_head (AppendString [] s @ bs)" "short_head (AppendBytes [] v @ bs)"
proof -
  have ext: "size (sizes mext32) = 6" "extra (sizes mext32) = Extra32" by (simp_all add: sizes_def)
  have *: "short_head (a # as)" if "size (sizes a) \<noteq> 6 \<or> extra (sizes a) \<noteq> Extra32" for a as
    using that ext by (auto simp: short_head_def)
  show "short_head (AppendNil [] @ bs)" "short_head (AppendBool [] t @ bs)"
    "short_head (AppendFloat32 [] f @ bs)" "short_head (AppendFloat64 [] g @ bs)"
    "short_head (AppendUint64 [] u @ bs)" "short_head (AppendInt64 [] i @ bs)"
    "short_head (AppendBytes [] v @ bs)"
    by (auto intro!: * simp: AppendNil_def AppendBool_def AppendFloat32_def AppendFloat64_def
        AppendUint64_def AppendInt64_def AppendBytes_def sizes_wfix sizes_wnfixint Let_def)
  show "short_head (AppendMapHeader [] n @ bs)" "short_head (AppendArrayHeader [] n @ bs)"
    "short_head (AppendString [] s @ bs)"
    by (auto intro!: * simp: AppendMapHeader_def AppendArrayHeader_def AppendString_def sizes_wfix
        word_le_unat unat_ucast_small Let_def)
qed

section \<open>Walking over an object\<close>

text \<open>
  A walk consumes an object: its head reports the number of element objects, a loop walks over
  them.  \<open>put c b\<close> is the state in which \<open>c\<close> has been consumed and \<open>b\<close> is still to come.
\<close>

locale object_walk =
  fixes put :: "bytes \<Rightarrow> bytes \<Rightarrow> 's"
    and head :: "'s \<Rightarrow> (rerr + nat) \<times> 's"
    and walk :: "'s \<Rightarrow> (rerr + unit) \<times> 's"
    and walk_elems :: "nat \<Rightarrow> 's \<Rightarrow> (rerr + unit) \<times> 's"
  assumes head_put: "getSize b = Inr (v, n) \<Longrightarrow> v \<le> length b \<Longrightarrow> short_head b \<Longrightarrow>
      head (put c b) = (Inr n, put (c @ take v b) (drop v b))"
    and walk_eq: "walk s = (case head s of (Inl e, s') \<Rightarrow> (Inl e, s') | (Inr n, s') \<Rightarrow> walk_elems n s')"
    and walk_elems_0: "walk_elems 0 s = (Inr (), s)"
    and walk_elems_Suc: "walk_elems (Suc n) s = (case walk s of
        (Inl e, s') \<Rightarrow> (Inl e, s') | (Inr _, s') \<Rightarrow> walk_elems n s')"
begin

lemma walk_header:
  assumes "getSize (h @ bs) = Inr (length h, n)" "short_head (h @ bs)"
  shows "walk (put c (h @ bs)) = walk_elems n (put (c @ h) bs)"
  using head_put [of "h @ bs" "length h" n c] assms by (simp add: walk_eq)

lemma walk_scalar:
  assumes "getSize (h @ bs) = Inr (length h, 0)" "short_head (h @ bs)"
  shows "walk (put c (h @ bs)) = (Inr (), put (c @ h) bs)"
  using walk_header [OF assms] by (simp add: walk_elems_0)

lemma walk_AppendString:
  "length s < 2 ^ 32 \<Longrightarrow>
     walk (put c (AppendString [] s @ bs)) = (Inr (), put (c @ AppendString [] s) bs)"
  by (rule walk_scalar [OF getSize_AppendString short_head_enc(9)])

lemma walk_pairs:
  assumes "\<forall>(k, v) \<in> set m. length k < 2 ^ 32 \<and> length v < 2 ^ 32"
  shows "walk_elems (2 * length m) (put c (append_pairs [] m @ bs)) =
           (Inr (), put (c @ append_pairs [] m) bs)"
  using assms
proof (induction m arbitrary: c)
  case (Cons p m)
  obtain k v where p: "p = (k, v)" by (cases p)
  have "append_pairs [] (p # m) = AppendString [] k @ AppendString [] v @ append_pairs [] m"
    using append_pairs_split [of "AppendString (AppendString [] k) v" m]
      AppendString_split [of "AppendString [] k" v] by (simp add: p)
  then show ?case
    using Cons by (simp add: p walk_elems_Suc walk_AppendString)
qed (simp add: walk_elems_0)

lemma walk_AppendIntf:
  "intf_ok i \<Longrightarrow> walk (put c (AppendIntf [] i @ bs)) = (Inr (), put (c @ AppendIntf [] i) bs)"
  "fields_ok m \<Longrightarrow> walk_elems (2 * length m) (put c (append_fields [] m @ bs)) =
     (Inr (), put (c @ append_fields [] m) bs)"
  "intfs_ok xs \<Longrightarrow> walk_elems (length xs) (put c (append_intfs [] xs @ bs)) =
     (Inr (), put (c @ append_intfs [] xs) bs)"
proof (induction i and m and xs arbitrary: c bs and c bs and c bs
    rule: intf_ok_fields_ok_intfs_ok.induct)
  case (1 s)
  then show ?case by (simp add: walk_AppendString)
next
  case (2 v)
  then show ?case using walk_scalar [OF getSize_AppendBytes short_head_enc(10)] by simp
next
  case (3 m)
  then show ?case
    using walk_header [OF getSize_headers(1) short_head_enc(5), of c "of_nat (length m)" "append_fields [] m @ bs"]
    by (simp add: AppendIntf_split(2) [of "AppendMapHeader _ _"])
next
  case (4 m)
  then show ?case
    using walk_header [OF getSize_headers(1) short_head_enc(5), of c "of_nat (length m)" "append_pairs [] m @ bs"]
    by (simp add: append_pairs_split [of "AppendMapHeader _ _"] walk_pairs)
next
  case (5 xs)
  then show ?case
    using walk_header [OF getSize_headers(2) short_head_enc(6), of c "of_nat (length xs)" "append_intfs [] xs @ bs"]
    by (simp add: AppendIntf_split(3) [of "AppendArrayHeader _ _"])
next
  case (8 k v m)
  have "append_fields [] ((k, v) # m) = AppendString [] k @ AppendIntf [] v @ append_fields [] m"
    using AppendIntf_split(2) [of "AppendIntf (AppendString [] k) v" m]
      AppendIntf_split(1) [of "AppendString [] k" v] by simp
  then show ?case using 8 by (simp add: walk_elems_Suc walk_AppendString)
next
  case (10 x xs)
  have "append_intfs [] (x # xs) = AppendIntf [] x @ append_intfs [] xs"
    using AppendIntf_split(3) [of "AppendIntf [] x" xs] by simp
  then show ?case using 10 by (simp add: walk_elems_Suc)
qed (simp_all add: walk_elems_0 walk_scalar getSize_scalars short_head_enc)

end

section \<open>The three walks\<close>

lemma skip_head_put:
  assumes "getSize b = Inr (v, n)" "v \<le> length b" "short_head b"
  shows "skip_head (r\<lparr>rest := b\<rparr>) = (Inr n, r\<lparr>rest := drop v b\<rparr>)"
proof (cases "5 \<le> fwd_Buffered (r\<lparr>rest := b\<rparr>)")
  case True
  then have "5 \<le> length b" by (simp add: fwd_Buffered_def)
  with True assms show ?thesis
    by (simp add: skip_head_def rd_simps getSize_take_5)
next
  case False
  then show ?thesis
    using assms getNextSize_getSize [of "r\<lparr>rest := b\<rparr>" "(v, n)"] by (simp add: skip_head_def rd_simps)
qed

interpretation reader_skip: object_walk "\<lambda>_ b. r\<lparr>rest := b\<rparr>" skip_head Reader_Skip skip_elems for r
  by unfold_locales (simp_all add: skip_head_put)

interpretation bytes_skip: object_walk "\<lambda>_ b. b" skip_head_bytes Skip skip_elems_bytes
  by unfold_locales (simp_all add: skip_head_bytes_def)

text \<open>The count \<^verbatim>\<open>CopyNext\<close> returns is left out of the walk; it is the number of bytes written.\<close>

definition forget :: "(rerr + 'a) \<times> 's \<Rightarrow> (rerr + unit) \<times> 's" where
  "forget x = (case x of (Inl e, s) \<Rightarrow> (Inl e, s) | (Inr _, s) \<Rightarrow> (Inr (), s))"

lemma forget_copy_elems: "forget (copy_elems k n rw) = forget (copy_elems k 0 rw)"
proof (induction k arbitrary: n rw)
  case (Suc k)
  obtain x rw' where "CopyNext rw = (x, rw')" by (rule prod.exhaust)
  then show ?case
    using Suc [of "n + projr x" rw'] Suc [of "projr x" rw']
    by (cases x) (simp_all add: forget_def del: CopyNext.simps)
qed (simp add: forget_def)

definition copy_count :: "reader \<times> bytes \<Rightarrow> (rerr + nat) \<times> reader \<times> bytes" where
  "copy_count rw = (case copy_head rw of (Inl e, rw') \<Rightarrow> (Inl e, rw') | (Inr (n, o'), rw') \<Rightarrow> (Inr o', rw'))"

lemma copy_head_put:
  assumes "getSize b = Inr (v, n)" "v \<le> length b"
  shows "copy_head (r\<lparr>rest := b\<rparr>, w) = (Inr (v, n), (r\<lparr>rest := drop v b\<rparr>, w @ take v b))"
  using assms getNextSize_getSize [of "r\<lparr>rest := b\<rparr>" "(v, n)"]
  by (simp add: copy_head_def advance_def)

lemma forget_CopyNext:
  "forget (CopyNext rw) = (case copy_count rw of
     (Inl e, rw') \<Rightarrow> (Inl e, rw') | (Inr n, rw') \<Rightarrow> forget (copy_elems n 0 rw'))"
proof -
  obtain x rw' where Pair: "copy_head rw = (x, rw')" by (rule prod.exhaust)
  show ?thesis
  proof (cases x)
    case (Inr no)
    then show ?thesis
      using Pair forget_copy_elems [of "snd no" "fst no" rw'] by (cases no) (simp add: copy_count_def)
  qed (simp add: Pair copy_count_def forget_def)
qed

interpretation copy: object_walk "\<lambda>c b. (r\<lparr>rest := b\<rparr>, w @ c)" copy_count "\<lambda>rw. forget (CopyNext rw)"
  "\<lambda>n rw. forget (copy_elems n 0 rw)" for r w
proof (unfold_locales, goal_cases)
  case (1 b v n c)
  then show ?case by (simp add: copy_count_def copy_head_put)
next
  case (2 s)
  show ?case by (rule forget_CopyNext)
next
  case (3 s)
  show ?case by (simp add: forget_def)
next
  case (4 n s)
  obtain x s' where "CopyNext s = (x, s')" by (rule prod.exhaust)
  then show ?case
    using forget_copy_elems [of n "projr x" s']
    by (cases x) (simp_all add: forget_def del: CopyNext.simps)
qed

text \<open>Whatever the input: what \<^verbatim>\<open>CopyNext\<close> writes is what it consumed.\<close>

lemma copy_head_exact:
  "copy_head (r, w) = (res, r', w') \<Longrightarrow>
     \<exists>c. w' = w @ c \<and> rest r = c @ rest r' \<and> (\<forall>n k. res = Inr (n, k) \<longrightarrow> n = length c)"
proof -
  obtain x r1 where Pair: "getNextSize r = (x, r1)" by (rule prod.exhaust)
  assume cp: "copy_head (r, w) = (res, r', w')"
  have "r1 = r" using Pair
    by (auto simp: getNextSize_def rd_bind_def rd_return_def rd_fail_def fwd_Peek_def Let_def
        split: if_splits varmode.splits)
  then show ?thesis using cp Pair
    by (auto simp: copy_head_def fwd_Next_def advance_def split: sum.splits if_splits)
qed

lemma CopyNext_exact:
  "CopyNext rw = (res, r', w') \<Longrightarrow>
     \<exists>c. w' = snd rw @ c \<and> rest (fst rw) = c @ rest r' \<and> (\<forall>n. res = Inr n \<longrightarrow> n = length c)"
  "copy_elems k n0 rw = (res, r', w') \<Longrightarrow>
     \<exists>c. w' = snd rw @ c \<and> rest (fst rw) = c @ rest r' \<and> (\<forall>n. res = Inr n \<longrightarrow> n = n0 + length c)"
proof (induction rw and k n0 rw arbitrary: res r' w' and res r' w' rule: CopyNext_copy_elems.induct)
  case (1 rw)
  obtain r w where rw: "rw = (r, w)" by (cases rw)
  obtain x r1 w1 where h: "copy_head (r, w) = (x, r1, w1)" by (cases "copy_head (r, w)") auto
  obtain c where c: "w1 = w @ c" "rest r = c @ rest r1" "\<forall>n k. x = Inr (n, k) \<longrightarrow> n = length c"
    using copy_head_exact [OF h] by blast
  show ?case
  proof (cases x)
    case (Inl e)
    then show ?thesis using "1.prems" h c by (auto simp: rw)
  next
    case (Inr nk)
    obtain n k where nk: "nk = (n, k)" by (cases nk)
    have "copy_elems k n (r1, w1) = (res, r', w')" using "1.prems" h Inr nk by (simp add: rw)
    then obtain c' where "w' = w1 @ c'" "rest r1 = c' @ rest r'" "\<forall>m. res = Inr m \<longrightarrow> m = n + length c'"
      using "1.IH" [of x "(r1, w1)" nk n k] h Inr nk by (fastforce simp: rw)
    then show ?thesis using c Inr nk by (intro exI [of _ "c @ c'"]) (auto simp: rw)
  qed
next
  case (3 k n0 rw)
  obtain x r1 w1 where h: "CopyNext rw = (x, r1, w1)" by (cases "CopyNext rw") auto
  obtain c where c: "w1 = snd rw @ c" "rest (fst rw) = c @ rest r1" "\<forall>n. x = Inr n \<longrightarrow> n = length c"
    using "3.IH"(1) [OF h] by blast
  show ?case
  proof (cases x)
    case (Inl e)
    then show ?thesis using "3.prems" h c by auto
  next
    case (Inr n2)
    have "copy_elems k (n0 + n2) (r1, w1) = (res, r', w')" using "3.prems" h Inr by simp
    then obtain c' where "w' = w1 @ c'" "rest r1 = c' @ rest r'"
        "\<forall>m. res = Inr m \<longrightarrow> m = n0 + n2 + length c'"
      using "3.IH"(2) [of x "(r1, w1)" n2] h Inr by fastforce
    then show ?thesis using c Inr by (intro exI [of _ "c @ c'"]) auto
  qed
qed auto

section \<open>Looking up a field\<close>

lemma locate_loop_Some:
  assumes "fields_ok m" "map_of m key = Some v"
  shows "\<exists>pre post. append_fields [] m = pre @ AppendIntf [] v @ post \<and>
    locate_loop l key (length m) (append_fields [] m @ bs) =
      (l - length (AppendIntf [] v @ post @ bs), l - length (post @ bs))"
  using assms
proof (induction m)
  case (Cons p m)
  obtain k x where p: "p = (k, x)" by (cases p)
  have app: "append_fields [] (p # m) = AppendString [] k @ AppendIntf [] x @ append_fields [] m"
    using AppendIntf_split(2) [of "AppendIntf (AppendString [] k) x" m]
      AppendIntf_split(1) [of "AppendString [] k" x] by (simp add: p)
  have skip: "Skip (AppendIntf [] x @ rs) = (Inr (), rs)" for rs
    using Cons.prems(1) bytes_skip.walk_AppendIntf(1) [of x rs] by (simp add: p)
  have str: "ReadStringZC (AppendString [] k @ rs) = (Inr (str_bytes k), rs)" for rs
    using Cons.prems(1) by (simp add: p)
  show ?case
  proof (cases "k = key")
    case True
    then have "x = v" using Cons.prems(2) by (simp add: p)
    then show ?thesis using skip str True
      by (intro exI [of _ "AppendString [] k"] exI [of _ "append_fields [] m"])
        (simp add: app bytes_str_str_bytes del: Skip.simps)
  next
    case False
    obtain pre post where "append_fields [] m = pre @ AppendIntf [] v @ post"
      "locate_loop l key (length m) (append_fields [] m @ bs) =
         (l - length (AppendIntf [] v @ post @ bs), l - length (post @ bs))"
      using Cons.IH Cons.prems False by (auto simp: p)
    then show ?thesis using skip str False
      by (intro exI [of _ "AppendString [] k @ AppendIntf [] x @ pre"] exI [of _ post])
        (simp add: app bytes_str_str_bytes del: Skip.simps)
  qed
qed simp

lemma locate_loop_None:
  assumes "fields_ok m" "map_of m key = None"
  shows "locate_loop l key (length m) (append_fields [] m @ bs) = (0, 0)"
  using assms
proof (induction m)
  case (Cons p m)
  obtain k x where p: "p = (k, x)" by (cases p)
  have app: "append_fields [] (p # m) = AppendString [] k @ AppendIntf [] x @ append_fields [] m"
    using AppendIntf_split(2) [of "AppendIntf (AppendString [] k) x" m]
      AppendIntf_split(1) [of "AppendString [] k" x] by (simp add: p)
  show ?case
    using Cons bytes_skip.walk_AppendIntf(1) [of x "append_fields [] m @ bs"]
    by (simp add: p app [unfolded p] bytes_str_str_bytes del: Skip.simps append_fields.simps
        split: if_splits)
qed simp

lemma Locate_AppendIntf:
  assumes "intf_ok (IMapIntf m)"
  shows "Locate key (AppendIntf [] (IMapIntf m)) =
    (case map_of m key of None \<Rightarrow> [] | Some v \<Rightarrow> AppendIntf [] v)"
proof -
  let ?h = "AppendMapHeader [] (of_nat (length m))"
  have raw: "AppendIntf [] (IMapIntf m) = ?h @ append_fields [] m"
    using AppendIntf_split(2) [of ?h m] by simp
  have loop: "locate (AppendIntf [] (IMapIntf m)) key =
      locate_loop (length (?h @ append_fields [] m)) key (length m) (append_fields [] m)"
    unfolding raw using assms by (simp add: locate_def)
  show ?thesis
  proof (cases "map_of m key")
    case None
    then show ?thesis using assms loop locate_loop_None [of m key _ "[]"] by (simp add: Locate_def)
  next
    case (Some v)
    obtain pre post where "append_fields [] m = pre @ AppendIntf [] v @ post"
      "locate_loop (length (?h @ append_fields [] m)) key (length m) (append_fields [] m) =
        (length (?h @ append_fields [] m) - length (AppendIntf [] v @ post),
         length (?h @ append_fields [] m) - length post)"
      using locate_loop_Some [of m key v "length (?h @ append_fields [] m)" "[]"] assms Some by auto
    then show ?thesis using loop Some
      unfolding Locate_def raw by simp
  qed
qed

end
