(* ===== verification/Response.thy ===== *)
theory Response
  imports Msgp_Objects
begin

text \<open>
  A connection of the daemon with its response streams: \<^verbatim>\<open>src/isolate/conn_handler.go\<close> (the
  session table, \<^verbatim>\<open>responseStream\<close>), \<^verbatim>\<open>errors.go\<close> and the output collector of
  \<^verbatim>\<open>initialdispatch.go\<close>.  The state of a connection is one record; the methods of a stream take
  it and return it.
\<close>

section \<open>Error codes (errors.go)\<close>

text \<open>A code is a category and a number; \<^verbatim>\<open>EAGAIN\<close> is 11 and the constants count up from it.\<close>

type_synonym code = "u64 \<times> u64"

definition errSpawnEAGAIN :: code where "errSpawnEAGAIN = (1, 11)"
definition errBadMsg :: code where "errBadMsg = (42, 12)"
definition errBadProfile :: code where "errBadProfile = (42, 13)"
definition errUnknownIsolate :: code where "errUnknownIsolate = (42, 14)"
definition errSpoolingFailed :: code where "errSpoolingFailed = (42, 15)"
definition errSpawningFailed :: code where "errSpawningFailed = (42, 16)"
definition errOutputError :: code where "errOutputError = (42, 17)"
definition errKillError :: code where "errKillError = (42, 18)"
definition errSpoolCancellationError :: code where "errSpoolCancellationError = (42, 19)"

abbreviation (input) spool :: u64 where "spool \<equiv> 0"
abbreviation (input) spawn :: u64 where "spawn \<equiv> 1"
abbreviation (input) replySpoolOk :: u64 where "replySpoolOk \<equiv> 0"
abbreviation (input) replySpoolError :: u64 where "replySpoolError \<equiv> 1"
abbreviation (input) replySpawnWrite :: u64 where "replySpawnWrite \<equiv> 0"
abbreviation (input) replySpawnError :: u64 where "replySpawnError \<equiv> 1"
abbreviation (input) spoolCancel :: u64 where "spoolCancel \<equiv> 0"
abbreviation (input) spawnKill :: u64 where "spawnKill \<equiv> 0"
abbreviation (input) replyKillOk :: u64 where "replyKillOk \<equiv> 2"
abbreviation (input) replyKillError :: u64 where "replyKillError \<equiv> 1"

section \<open>Streams, dispatchers, sessions\<close>

record responseStream =
  rchannel :: u64
  rclosed :: bool

text \<open>
  The dispatchers.  The spool and spawn dispatchers share a cancellation with a background job,
  which the model names by the job's index.
\<close>

datatype dispatcher =
    InitialDispatch responseStream
  | SpoolCancelationDispatch responseStream nat
  | SpawnDispatch responseStream nat

type_synonym sessions = "u64 \<rightharpoonup> dispatcher"

definition newSessions :: sessions where
  "newSessions = Map.empty"

definition Attach :: "u64 \<Rightarrow> dispatcher \<Rightarrow> sessions \<Rightarrow> sessions" where
  "Attach channel d s = s(channel \<mapsto> d)"

definition Detach :: "u64 \<Rightarrow> sessions \<Rightarrow> sessions" where
  "Detach channel s = s(channel := None)"

definition Get :: "u64 \<Rightarrow> sessions \<Rightarrow> dispatcher option" where
  "Get channel s = s channel"

text \<open>
  A background job: the goroutine \<^verbatim>\<open>onSpool\<close> or \<^verbatim>\<open>onSpawn\<close> starts, with the arguments the box
  gets.  \<open>cancelled\<close> is the state of its context, \<open>jpc\<close> where the goroutine stands, \<open>kpc\<close> where
  the goroutine of \<^verbatim>\<open>asyncKill\<close> stands, \<open>flagKilled\<close> the flag the two share; \<open>spawned\<close> and \<open>kills\<close>
  record whether the box returned a process and how often \<^verbatim>\<open>Kill\<close> was called on it.
\<close>

datatype jobkind = SpoolJob | SpawnJob

text \<open>
  The goroutine is inside the box, has a process, waits in its \<^verbatim>\<open>select\<close>, is about to call
  \<^verbatim>\<open>Kill\<close>, is about to run its deferred calls, or has ended (for a spawn: the channel is closed).
\<close>

datatype job_pc = Running | Spawned | Offering | Killing | Exiting | Closed

text \<open>
  No kill was asked for, \<^verbatim>\<open>asyncKill\<close> is before its \<^verbatim>\<open>select\<close>, has received the process, is about
  to call \<^verbatim>\<open>Kill\<close>, or has ended.
\<close>

datatype kill_pc = NoKill | KillSelect | KillGot | KillCalling | KillDone

record job =
  jstream :: responseStream
  jkind :: jobkind
  jbox :: string
  jopts :: bytes
  jname :: string
  jexecutable :: string
  jargs :: strmap
  jenv :: strmap
  cancelled :: bool
  jpc :: job_pc
  kpc :: kill_pc
  flagKilled :: bool
  spawned :: bool
  kills :: nat

text \<open>
  Where the loop of \<^verbatim>\<open>HandleConn\<close> stands: it reads the next message, it has found the dispatcher
  of a message and is about to call it, it has handled one and is about to attach the dispatcher,
  or it has returned.
\<close>

datatype loop_pc = Reading | Handling bool u64 u64 dispatcher | Attaching u64 dispatcher | Returned

record conn =
  inp :: reader
  sent :: "bytes list"
  broken :: bool
  sess :: sessions
  highestChannel :: u64
  jobs :: "job list"
  pc :: loop_pc

section \<open>Writing to the connection\<close>

datatype serr = StreamClosed | WriteFailed

definition conn_write :: "bytes \<Rightarrow> conn \<Rightarrow> serr option \<times> conn" where
  "conn_write p c = (if broken c then (Some WriteFailed, c) else (None, c\<lparr>sent := sent c @ [p]\<rparr>))"

definition newResponseStream :: "u64 \<Rightarrow> responseStream" where
  "newResponseStream channel = \<lparr>rchannel = channel, rclosed = False\<rparr>"

text \<open>\<^verbatim>\<open>close\<close> runs the callback \<^verbatim>\<open>HandleConn\<close> installed, which detaches the channel.\<close>

definition rs_close :: "responseStream \<Rightarrow> conn \<Rightarrow> conn" where
  "rs_close r c = (if rclosed r then c else c\<lparr>sess := Detach (rchannel r) (sess c)\<rparr>)"

definition frame_head :: "u64 \<Rightarrow> u64 \<Rightarrow> bytes" where
  "frame_head channel num = AppendUint64 (AppendUint64 (AppendArrayHeader [] 3) channel) num"

definition frame_write :: "u64 \<Rightarrow> u64 \<Rightarrow> bytes \<Rightarrow> bytes" where
  "frame_write channel num data =
     AppendStringFromBytes (AppendArrayHeader (frame_head channel num) 1) data"

definition frame_error :: "u64 \<Rightarrow> u64 \<Rightarrow> code \<Rightarrow> string \<Rightarrow> bytes" where
  "frame_error channel num cd msg =
     (let p = frame_head channel num;
          p = AppendArrayHeader p 2;
          p = AppendArrayHeader p 2;
          p = AppendInt p (fst cd);
          p = AppendInt p (snd cd)
      in AppendString p msg)"

definition frame_close :: "u64 \<Rightarrow> u64 \<Rightarrow> bytes" where
  "frame_close channel num = AppendArrayHeader (frame_head channel num) 0"

definition rs_Write :: "responseStream \<Rightarrow> u64 \<Rightarrow> bytes \<Rightarrow> conn \<Rightarrow> serr option \<times> conn" where
  "rs_Write r num data c =
     (if rclosed r then (Some StreamClosed, c)
      else conn_write (frame_write (rchannel r) num data) c)"

definition rs_Error :: "responseStream \<Rightarrow> u64 \<Rightarrow> code \<Rightarrow> string \<Rightarrow> conn \<Rightarrow> serr option \<times> conn" where
  "rs_Error r num cd msg c =
     (if rclosed r then (Some StreamClosed, c)
      else case conn_write (frame_error (rchannel r) num cd msg) c of (e, c') \<Rightarrow> (e, rs_close r c'))"

definition rs_Close :: "responseStream \<Rightarrow> u64 \<Rightarrow> conn \<Rightarrow> serr option \<times> conn" where
  "rs_Close r num c =
     (if rclosed r then (Some StreamClosed, c)
      else case conn_write (frame_close (rchannel r) num) c of (e, c') \<Rightarrow> (e, rs_close r c'))"

text \<open>
  \<^verbatim>\<open>OutputCollector.Write\<close>: the first write, even an empty one, is preceded by the empty
  notification.  The collector's flag is returned with the connection.
\<close>

definition collector_Write :: "responseStream \<Rightarrow> bool \<Rightarrow> bytes \<Rightarrow> conn \<Rightarrow> nat \<times> bool \<times> conn" where
  "collector_Write r flag p c =
     (if \<not> flag then
        let c1 = snd (rs_Write r replySpawnWrite [] c) in
        if length p = 0 then (0, True, c1)
        else (length p, True, snd (rs_Write r replySpawnWrite p c1))
      else (length p, True, snd (rs_Write r replySpawnWrite p c)))"

end
