(* ===== verification/Msgp_Source.thy ===== *)
theory Msgp_Source
  imports Msgp_Objects
begin

text \<open>
  The reading operations the generated decoders use, as one interface with two providers.  For
  every profile type the generator writes the decoder twice, \<^verbatim>\<open>DecodeMsg\<close> over a \<^verbatim>\<open>msgp.Reader\<close>
  and \<^verbatim>\<open>UnmarshalMsg\<close> over a byte slice, with the same control flow; the model writes the
  control flow once, over a source, and the two methods are its instances at \<open>reader_src\<close> and
  \<open>bytes_src\<close>.  The locale \<open>msgp_source\<close> states what both promise about bytes the encoders wrote.
\<close>

record 's src =
  rMapHeader :: "(rerr, 's, u32) rd"
  rArrayHeader :: "(rerr, 's, u32) rd"
  rKey :: "(rerr, 's, bytes) rd"
  rString :: "(rerr, 's, string) rd"
  rUint :: "(rerr, 's, u64) rd"
  rNumber :: "(rerr, 's, Number) rd"
  rSkip :: "(rerr, 's, unit) rd"

definition reader_src :: "reader src" where
  "reader_src = \<lparr>rMapHeader = ReadMapHeader, rArrayHeader = ReadArrayHeader, rKey = ReadMapKeyPtr,
     rString = ReadString, rUint = ReadUint, rNumber = Number_DecodeMsg, rSkip = Reader_Skip\<rparr>"

definition bytes_src :: "bytes src" where
  "bytes_src = \<lparr>rMapHeader = ReadMapHeaderBytes, rArrayHeader = ReadArrayHeaderBytes,
     rKey = ReadMapKeyZC, rString = ReadStringBytes, rUint = ReadUintBytes,
     rNumber = Number_UnmarshalMsg, rSkip = Skip\<rparr>"

section \<open>The loops of the generated decoders\<close>

text \<open>\<^verbatim>\<open>for n > 0 { n--; field, err = ReadMapKey...; switch UnsafeString(field) { ... } }\<close>\<close>

definition decode_fields ::
  "'s src \<Rightarrow> (string \<Rightarrow> 'z \<Rightarrow> (rerr, 's, 'z) rd) \<Rightarrow> 'z \<Rightarrow> (rerr, 's, 'z) rd" where
  "decode_fields S fld z =
     rd_bind (rMapHeader S) (\<lambda>n.
       rd_times (unat n) (\<lambda>z. rd_bind (rKey S) (\<lambda>k. fld (bytes_str k) z)) z)"

text \<open>
  Reading a \<^verbatim>\<open>map[string]string\<close>: an old map is emptied, a missing one is made when there is
  an entry to put.
\<close>

definition map_entry :: "'s src \<Rightarrow> strmap \<Rightarrow> (rerr, 's, strmap) rd" where
  "map_entry S m = rd_bind (rString S) (\<lambda>k. rd_bind (rString S) (\<lambda>v. rd_return (m(k \<mapsto> v))))"

definition decode_map :: "'s src \<Rightarrow> (rerr, 's, strmap) rd" where
  "decode_map S = rd_bind (rMapHeader S) (\<lambda>n. rd_times (unat n) (map_entry S) Map.empty)"

text \<open>Reading a \<^verbatim>\<open>[]string\<close> into the storage of the old slice when that is large enough.\<close>

definition decode_strings :: "'s src \<Rightarrow> string slice \<Rightarrow> (rerr, 's, string slice) rd" where
  "decode_strings S old =
     rd_bind (rArrayHeader S) (\<lambda>n.
       slice_fill (\<lambda>_ _. rString S) 0 (unat n) (resize '''' (unat n) old))"

definition skip_field :: "'s src \<Rightarrow> 'z \<Rightarrow> (rerr, 's, 'z) rd" where
  "skip_field S z = rd_bind (rSkip S) (\<lambda>_. rd_return z)"

section \<open>Maps and lists the format can express\<close>

definition map_wf :: "range_order \<Rightarrow> strmap \<Rightarrow> bool" where
  "map_wf ord m \<longleftrightarrow> ranges ord m \<and> length (ord m) < 2 ^ 32 \<and>
     (\<forall>k \<in> set (ord m). length k < 2 ^ 32 \<and> length (the (m k)) < 2 ^ 32)"

definition strings_wf :: "string list \<Rightarrow> bool" where
  "strings_wf vs \<longleftrightarrow> length vs < 2 ^ 32 \<and> (\<forall>v \<in> set vs. length v < 2 ^ 32)"

lemma map_wf_pairs:
  "map_wf ord m \<Longrightarrow> \<forall>(k, v) \<in> set (pairs ord m). length k < 2 ^ 32 \<and> length v < 2 ^ 32"
  by (auto simp: map_wf_def pairs_def)

lemma AppendMapStrStr_eq:
  "AppendMapStrStr ord [] m = AppendMapHeader [] (of_nat (length (ord m))) @ append_pairs [] (pairs ord m)"
  unfolding AppendMapStrStr_def by (rule append_pairs_split)

lemma append_strings_concat: "append_strings [] vs = concat (map (AppendString []) vs)"
proof (induction vs)
  case (Cons v vs)
  then show ?case using append_strings_split [of "AppendString [] v" vs] by simp
qed simp

lemma Number_MarshalMsg_append [append_simps]:
  "NO_MATCH [] b \<Longrightarrow> Number_MarshalMsg n b = b @ Number_MarshalMsg n []"
  by (simp add: Number_MarshalMsg_def AppendInt64_def AppendUint64_def AppendFloat64_def
      AppendFloat32_def split: mtype.split)

section \<open>The contract\<close>

text \<open>\<open>put b s\<close> is the source \<open>s\<close> with \<open>b\<close> as the bytes that are to come.\<close>

locale msgp_source =
  fixes S :: "'s src" and put :: "bytes \<Rightarrow> 's \<Rightarrow> 's"
  assumes map_header: "rMapHeader S (put (AppendMapHeader [] n @ bs) s) = (Inr n, put bs s)"
    and array_header: "rArrayHeader S (put (AppendArrayHeader [] n @ bs) s) = (Inr n, put bs s)"
    and key: "length k < 2 ^ 32 \<Longrightarrow> k \<noteq> [] \<Longrightarrow>
      rKey S (put (AppendString [] k @ bs) s) = (Inr (str_bytes k), put bs s)"
    and str: "length v < 2 ^ 32 \<Longrightarrow> rString S (put (AppendString [] v @ bs) s) = (Inr v, put bs s)"
    and uint: "rUint S (put (AppendUint [] u @ bs) s) = (Inr u, put bs s)"
    and number: "Number_wf x \<Longrightarrow>
      rNumber S (put (Number_MarshalMsg x [] @ bs) s) = (Inr (Number_norm x), put bs s)"
    and skip: "intf_ok i \<Longrightarrow> rSkip S (put (AppendIntf [] i @ bs) s) = (Inr (), put bs s)"
begin

lemma read_entry:
  assumes "length k < 2 ^ 32" "length v < 2 ^ 32"
  shows "map_entry S m (put (AppendString [] k @ AppendString [] v @ bs) s) = (Inr (m(k \<mapsto> v)), put bs s)"
  using assms by (simp add: map_entry_def rd_bind_def rd_return_def str)

lemma read_pairs:
  assumes "\<forall>(k, v) \<in> set ps. length k < 2 ^ 32 \<and> length v < 2 ^ 32" "distinct (map fst ps)"
  shows "rd_times (length ps) (map_entry S) m
      (put (append_pairs [] ps @ bs) s) = (Inr (m ++ map_of ps), put bs s)"
  using assms
proof (induction ps arbitrary: m)
  case (Cons p ps)
  obtain k v where p: "p = (k, v)" by (cases p)
  have app: "append_pairs [] (p # ps) = AppendString [] k @ AppendString [] v @ append_pairs [] ps"
    using append_pairs_split [of "AppendString (AppendString [] k) v" ps]
      AppendString_split [of "AppendString [] k" v] by (simp add: p)
  have "rd_times (length (p # ps)) (map_entry S) m (put (append_pairs [] (p # ps) @ bs) s) =
      rd_times (length ps) (map_entry S) (m(k \<mapsto> v)) (put (append_pairs [] ps @ bs) s)"
    using Cons.prems unfolding app by (simp add: p rd_bind_def read_entry)
  also have "\<dots> = (Inr (m(k \<mapsto> v) ++ map_of ps), put bs s)"
    using Cons.prems by (intro Cons.IH) (auto simp: p)
  also have "m(k \<mapsto> v) ++ map_of ps = m ++ map_of (p # ps)"
    using Cons.prems by (simp add: p map_add_upd_left dom_map_of_conv_image_fst)
  finally show ?case .
qed (simp add: rd_simps)

lemma read_map:
  assumes "ranges ord m" "length (ord m) < 2 ^ 32"
    "\<forall>k v. m k = Some v \<longrightarrow> length k < 2 ^ 32 \<and> length v < 2 ^ 32"
  shows "decode_map S (put (AppendMapStrStr ord [] m @ bs) s) = (Inr m, put bs s)"
proof -
  have "AppendMapStrStr ord [] m = AppendMapHeader [] (of_nat (length (ord m))) @ append_pairs [] (pairs ord m)"
    unfolding AppendMapStrStr_def by (rule append_pairs_split)
  moreover have "\<forall>(k, v) \<in> set (pairs ord m). length k < 2 ^ 32 \<and> length v < 2 ^ 32"
    using assms by (auto simp: pairs_def ranges_def)
  moreover have "length (pairs ord m) = length (ord m)" by (simp add: pairs_def)
  ultimately show ?thesis
    using assms(2) read_pairs [of "pairs ord m" Map.empty bs s] distinct_pairs [OF assms(1)]
      map_of_pairs [OF assms(1)]
    by (simp add: decode_map_def rd_simps map_header)
qed

lemma read_map_wf:
  assumes "map_wf ord m"
  shows "decode_map S (put (AppendMapStrStr ord [] m @ bs) s) = (Inr m, put bs s)"
proof (rule read_map)
  show "\<forall>k v. m k = Some v \<longrightarrow> length k < 2 ^ 32 \<and> length v < 2 ^ 32"
    using assms by (metis domI map_wf_def option.sel ranges_def)
qed (use assms in \<open>simp_all add: map_wf_def\<close>)

lemma read_elems:
  assumes "\<forall>y \<in> set ys. \<forall>old i bs. f old i (put (enc y @ bs) s) = (Inr y, put bs s)"
    "i + length ys \<le> length (arr sl)"
  shows "slice_fill f i (length ys) sl (put (concat (map enc ys) @ bs) s) =
    (Inr (Slice (take i (arr sl) @ ys @ drop (i + length ys) (arr sl)) (len sl)), put bs s)"
  using assms
proof (induction ys arbitrary: i sl)
  case (Cons y ys)
  have "i < length (arr sl)" using Cons.prems by simp
  then have "take (Suc i) ((arr sl)[i := y]) = take i (arr sl) @ [y]"
    by (simp add: take_Suc_conv_app_nth)
  then show ?case
    using Cons.prems Cons.IH [of "Suc i" "slice_upd i y sl"]
    by (simp add: rd_simps slice_upd_def)
qed (cases sl, simp add: rd_simps)

lemma read_strings_from:
  assumes "\<forall>v \<in> set vs. length v < 2 ^ 32" "i + length vs \<le> length (arr sl)"
  shows "slice_fill (\<lambda>_ _. rString S) i (length vs) sl (put (append_strings [] vs @ bs) s) =
    (Inr (Slice (take i (arr sl) @ vs @ drop (i + length vs) (arr sl)) (len sl)), put bs s)"
  unfolding append_strings_concat by (rule read_elems) (use assms in \<open>simp_all add: str\<close>)

lemma read_strings:
  assumes "\<forall>v \<in> set vs. length v < 2 ^ 32" "length vs < 2 ^ 32"
  shows "\<exists>sl. decode_strings S old
      (put (append_strings (AppendArrayHeader [] (of_nat (length vs))) vs @ bs) s) = (Inr sl, put bs s) \<and>
    elems sl = vs"
proof -
  let ?sl = "resize '''' (length vs) old"
  have "append_strings (AppendArrayHeader [] (of_nat (length vs))) vs =
      AppendArrayHeader [] (of_nat (length vs)) @ append_strings [] vs"
    by (rule append_strings_split)
  moreover have "length vs \<le> length (arr ?sl)" by (rule length_arr_resize)
  ultimately show ?thesis
    using assms read_strings_from [of vs 0 ?sl bs s]
    by (simp add: decode_strings_def rd_simps array_header elems_def)
qed

lemma read_strings_fresh:
  assumes "\<forall>v \<in> set vs. length v < 2 ^ 32" "length vs < 2 ^ 32"
  shows "decode_strings S nil_slice
      (put (append_strings (AppendArrayHeader [] (of_nat (length vs))) vs @ bs) s) =
    (Inr (slice_of vs), put bs s)"
proof -
  have "append_strings (AppendArrayHeader [] (of_nat (length vs))) vs =
      AppendArrayHeader [] (of_nat (length vs)) @ append_strings [] vs"
    by (rule append_strings_split)
  then show ?thesis
    using assms read_strings_from [of vs 0 "resize '''' (length vs) nil_slice" bs s]
    by (simp add: decode_strings_def rd_simps array_header resize_nil slice_of_def)
qed

end

interpretation reader: msgp_source reader_src "\<lambda>b r. r\<lparr>rest := b\<rparr>"
  by unfold_locales
    (simp_all add: reader_src_def reader_skip.walk_AppendIntf(1) del: Reader_Skip.simps)

interpretation bytes: msgp_source bytes_src "\<lambda>b _. b"
  by unfold_locales
    (simp_all add: bytes_src_def bytes_skip.walk_AppendIntf(1) del: Skip.simps)

end
