(* ===== verification/Dispatch.thy ===== *)
theory Dispatch
  imports Response Msgp_Source
begin

text \<open>
  Handling the messages of a connection: the raw profile (\<^verbatim>\<open>src/isolate/profile.go\<close>), the three
  dispatchers (\<^verbatim>\<open>initialdispatch.go\<close>, \<^verbatim>\<open>spooldispatch.go\<close>, \<^verbatim>\<open>spawndispatch.go\<close>) and the loop of
  \<^verbatim>\<open>HandleConn\<close> (\<^verbatim>\<open>conn_handler.go\<close>).  A dispatcher runs in the reader monad over the whole
  connection, so that what it read, replied and started shows in the state also when it fails.
\<close>

section \<open>The raw profile (profile.go)\<close>

datatype perr = ErrNoTypeField | ErrTwiceDecodedTo | PRead rerr

definition profile_Type :: "bytes \<Rightarrow> perr + string" where
  "profile_Type buff =
     (let raw = Locate ''type'' buff in
      if length raw = 0 then Inl ErrNoTypeField
      else case ReadStringBytes raw of (Inl e, _) \<Rightarrow> Inl (PRead e) | (Inr t, _) \<Rightarrow> Inr t)"

definition NewRawProfile :: "intf \<Rightarrow> bytes" where
  "NewRawProfile i = AppendIntf [] i"

text \<open>
  \<^verbatim>\<open>DecodeTo\<close> hands the buffer to a decoder through a \<^verbatim>\<open>bytes.Reader\<close>, which can seek, and gives
  the buffer back to the pool; a second call finds no buffer.
\<close>

definition bytes_reader :: "(nat \<Rightarrow> nat) \<Rightarrow> (nat \<Rightarrow> nat) \<Rightarrow> bytes \<Rightarrow> reader" where
  "bytes_reader ch cp b = \<lparr>rest = b, ending = EOF, seeker = True, chunk = ch, bufcap = cp\<rparr>"

definition DecodeTo ::
  "(nat \<Rightarrow> nat) \<Rightarrow> (nat \<Rightarrow> nat) \<Rightarrow> (rerr, reader, 'z) rd \<Rightarrow> bytes option \<Rightarrow> (perr + 'z) \<times> bytes option" where
  "DecodeTo ch cp dec buff = (case buff of
      None \<Rightarrow> (Inl ErrTwiceDecodedTo, None)
    | Some b \<Rightarrow> (case dec (bytes_reader ch cp b) of
         (Inl e, _) \<Rightarrow> (Inl (PRead e), None)
       | (Inr z, _) \<Rightarrow> (Inr z, None)))"

section \<open>Reading the arguments of a message (initialdispatch.go)\<close>

datatype herr = HRead rerr | ErrInvalidArgsNum | HProfileType mtype | HCorruptedProfile
  | HUnknownIsolate string | HUnknownTransition u64

definition lift :: "(rerr, reader, 'a) rd \<Rightarrow> (herr, conn, 'a) rd" where
  "lift f c = (case f (inp c) of
      (Inl e, i) \<Rightarrow> (Inl (HRead e), c\<lparr>inp := i\<rparr>)
    | (Inr x, i) \<Rightarrow> (Inr x, c\<lparr>inp := i\<rparr>))"

text \<open>The number of parameters of \<^verbatim>\<open>onSpool\<close> and \<^verbatim>\<open>onSpawn\<close>, as reflection counts them.\<close>

abbreviation (input) onSpoolArgsNum :: u32 where "onSpoolArgsNum \<equiv> 2"
abbreviation (input) onSpawnArgsNum :: u32 where "onSpawnArgsNum \<equiv> 5"

definition checkSize :: "u32 \<Rightarrow> (herr, conn, unit) rd" where
  "checkSize num =
     rd_bind (lift ReadArrayHeader) (\<lambda>size.
       if size \<noteq> num then rd_fail ErrInvalidArgsNum else rd_return ())"

definition readMapStrStr :: "strmap \<Rightarrow> (rerr, reader, strmap) rd" where
  "readMapStrStr mp = rd_bind ReadMapHeader (\<lambda>sz. rd_times (unat sz) (map_entry reader_src) mp)"

text \<open>\<^verbatim>\<open>r.CopyNext(rawProfile)\<close> into a new, empty profile.\<close>

definition copy_profile :: "(rerr, reader, bytes) rd" where
  "copy_profile r = (case CopyNext (r, []) of
      (Inl e, (r', w)) \<Rightarrow> (Inl e, r')
    | (Inr n, (r', w)) \<Rightarrow> (Inr w, r'))"

definition read_profile :: "(herr, conn, bytes) rd" where
  "read_profile =
     rd_bind (lift Reader_NextType) (\<lambda>nt.
       if nt \<noteq> MapType then rd_fail (HProfileType nt) else lift copy_profile)"

section \<open>Dispatchers\<close>

definition upd_job :: "nat \<Rightarrow> (job \<Rightarrow> job) \<Rightarrow> conn \<Rightarrow> conn" where
  "upd_job j f c = c\<lparr>jobs := (jobs c)[j := f (jobs c ! j)]\<rparr>"

definition cancel_job :: "nat \<Rightarrow> conn \<Rightarrow> conn" where
  "cancel_job j = upd_job j (\<lambda>x. x\<lparr>cancelled := True\<rparr>)"

text \<open>\<^verbatim>\<open>go d.asyncKill()\<close>\<close>

definition request_kill :: "nat \<Rightarrow> conn \<Rightarrow> conn" where
  "request_kill j = upd_job j (\<lambda>x. x\<lparr>kpc := KillSelect\<rparr>)"

definition start_job :: "job \<Rightarrow> conn \<Rightarrow> conn" where
  "start_job j c = c\<lparr>jobs := jobs c @ [j]\<rparr>"

definition new_job :: "responseStream \<Rightarrow> jobkind \<Rightarrow> string \<Rightarrow> bytes \<Rightarrow> string \<Rightarrow> job" where
  "new_job rs k box opts name = \<lparr>jstream = rs, jkind = k, jbox = box, jopts = opts, jname = name,
     jexecutable = '''', jargs = Map.empty, jenv = Map.empty, cancelled = False, jpc = Running,
     kpc = NoKill, flagKilled = False, spawned = False, kills = 0\<rparr>"

definition onSpool ::
  "(string \<Rightarrow> bool) \<Rightarrow> responseStream \<Rightarrow> bytes \<Rightarrow> string \<Rightarrow> (herr, conn, dispatcher option) rd" where
  "onSpool boxes rs opts name c = (case profile_Type opts of
      Inl _ \<Rightarrow> (Inl HCorruptedProfile,
        snd (rs_Error rs replySpoolError errBadProfile (''corrupted profile: '' @ bytes_str opts) c))
    | Inr t \<Rightarrow>
        if \<not> boxes t then (Inl (HUnknownIsolate t),
          snd (rs_Error rs replySpoolError errUnknownIsolate (''isolate type '' @ t @ '' is not available'') c))
        else (Inr (Some (SpoolCancelationDispatch rs (length (jobs c)))),
          start_job (new_job rs SpoolJob t opts name) c))"

definition onSpawn ::
  "(string \<Rightarrow> bool) \<Rightarrow> responseStream \<Rightarrow> bytes \<Rightarrow> string \<Rightarrow> string \<Rightarrow> strmap \<Rightarrow> strmap \<Rightarrow>
   (herr, conn, dispatcher option) rd" where
  "onSpawn boxes rs opts name executable args env c = (case profile_Type opts of
      Inl _ \<Rightarrow> (Inl HCorruptedProfile,
        snd (rs_Error rs replySpawnError errBadProfile (''corrupted profile: '' @ bytes_str opts) c))
    | Inr t \<Rightarrow>
        if \<not> boxes t then (Inl (HUnknownIsolate t),
          snd (rs_Error rs replySpawnError errUnknownIsolate (''isolate type '' @ t @ '' is not available'') c))
        else (Inr (Some (SpawnDispatch rs (length (jobs c)))),
          start_job ((new_job rs SpawnJob t opts name)
            \<lparr>jexecutable := executable, jargs := args, jenv := env\<rparr>) c))"

definition initial_Handle ::
  "(string \<Rightarrow> bool) \<Rightarrow> responseStream \<Rightarrow> u64 \<Rightarrow> (herr, conn, dispatcher option) rd" where
  "initial_Handle boxes rs num =
     (if num = spool then
        rd_bind (checkSize onSpoolArgsNum) (\<lambda>_.
        rd_bind read_profile (\<lambda>opts.
        rd_bind (lift ReadString) (\<lambda>name. onSpool boxes rs opts name)))
      else if num = spawn then
        rd_bind (checkSize onSpawnArgsNum) (\<lambda>_.
        rd_bind read_profile (\<lambda>opts.
        rd_bind (lift ReadString) (\<lambda>name.
        rd_bind (lift ReadString) (\<lambda>executable.
        rd_bind (lift (readMapStrStr Map.empty)) (\<lambda>args.
        rd_bind (lift (readMapStrStr Map.empty)) (\<lambda>env.
        onSpawn boxes rs opts name executable args env))))))
      else rd_fail (HUnknownTransition num))"

text \<open>\<^verbatim>\<open>r.Skip()\<close> with its error dropped.\<close>

definition skip_ignore :: "conn \<Rightarrow> conn" where
  "skip_ignore c = c\<lparr>inp := snd (Reader_Skip (inp c))\<rparr>"

definition spool_Handle :: "responseStream \<Rightarrow> nat \<Rightarrow> u64 \<Rightarrow> (herr, conn, dispatcher option) rd" where
  "spool_Handle rs j num c =
     (if num = spoolCancel then
        (Inr None, snd (rs_Close rs replySpoolOk (cancel_job j (skip_ignore c))))
      else (Inl (HUnknownTransition num), c))"

definition spawn_Handle :: "responseStream \<Rightarrow> nat \<Rightarrow> u64 \<Rightarrow> (herr, conn, dispatcher option) rd" where
  "spawn_Handle rs j num c =
     (if num = spawnKill then (Inr None, request_kill j (skip_ignore c))
      else (Inl (HUnknownTransition num), c))"

definition Handle :: "(string \<Rightarrow> bool) \<Rightarrow> dispatcher \<Rightarrow> u64 \<Rightarrow> (herr, conn, dispatcher option) rd" where
  "Handle boxes d num = (case d of
      InitialDispatch rs \<Rightarrow> initial_Handle boxes rs num
    | SpoolCancelationDispatch rs j \<Rightarrow> spool_Handle rs j num
    | SpawnDispatch rs j \<Rightarrow> spawn_Handle rs j num)"

section \<open>The loop of HandleConn\<close>

definition conn_next :: "(rerr, reader, bool \<times> u64 \<times> u64) rd" where
  "conn_next =
     rd_bind ReadArrayHeader (\<lambda>sz.
     rd_bind ReadUint64 (\<lambda>channel.
     rd_bind ReadUint64 (\<lambda>c. rd_return (sz = 4, channel, c))))"

definition skip_headers :: "bool \<Rightarrow> conn \<Rightarrow> conn" where
  "skip_headers hasHeaders c = (if hasHeaders then skip_ignore c else c)"

text \<open>A message on a channel whose dispatcher is gone: its arguments and headers are skipped.\<close>

definition conn_detached :: "bool \<Rightarrow> conn \<Rightarrow> conn" where
  "conn_detached hasHeaders c = skip_headers hasHeaders (skip_ignore c)"

text \<open>
  The deferred \<^verbatim>\<open>cancel\<close>, which ends the context of every job.  The deferred \<^verbatim>\<open>conn.Close\<close> is a
  later step.
\<close>

definition conn_return :: "conn \<Rightarrow> conn" where
  "conn_return c = c\<lparr>pc := Returned, jobs := map (\<lambda>j. j\<lparr>cancelled := True\<rparr>) (jobs c)\<rparr>"

text \<open>From the start of an iteration to the call of \<^verbatim>\<open>Handle\<close>.\<close>

definition conn_read :: "conn \<Rightarrow> conn" where
  "conn_read c = (case conn_next (inp c) of
      (Inl e, i) \<Rightarrow> conn_return (c\<lparr>inp := i\<rparr>)
    | (Inr (hasHeaders, channel, num), i) \<Rightarrow>
        let c1 = c\<lparr>inp := i\<rparr> in
        (case Get channel (sess c1) of
           Some d \<Rightarrow> c1\<lparr>pc := Handling hasHeaders channel num d\<rparr>
         | None \<Rightarrow>
             if channel \<le> highestChannel c1 then conn_detached hasHeaders c1
             else c1\<lparr>highestChannel := channel,
               pc := Handling hasHeaders channel num (InitialDispatch (newResponseStream channel))\<rparr>))"

text \<open>From the call of \<^verbatim>\<open>Handle\<close> to the end of the iteration, up to the \<^verbatim>\<open>Attach\<close>.\<close>

definition conn_handle :: "(string \<Rightarrow> bool) \<Rightarrow> bool \<Rightarrow> u64 \<Rightarrow> u64 \<Rightarrow> dispatcher \<Rightarrow> conn \<Rightarrow> conn" where
  "conn_handle boxes hasHeaders channel num d c = (case Handle boxes d num c of (res, c1) \<Rightarrow>
     let c2 = skip_headers hasHeaders c1 in
     (case res of
        Inl ErrInvalidArgsNum \<Rightarrow> conn_return c2
      | Inl _ \<Rightarrow> c2\<lparr>sess := Detach channel (sess c2), pc := Reading\<rparr>
      | Inr None \<Rightarrow> c2\<lparr>sess := Detach channel (sess c2), pc := Reading\<rparr>
      | Inr (Some d') \<Rightarrow> c2\<lparr>pc := Attaching channel d'\<rparr>))"

text \<open>One iteration without interference, up to the \<^verbatim>\<open>Attach\<close>.\<close>

definition conn_iter :: "(string \<Rightarrow> bool) \<Rightarrow> conn \<Rightarrow> conn" where
  "conn_iter boxes c = (let c1 = conn_read c in
     case pc c1 of Handling hasHeaders channel num d \<Rightarrow> conn_handle boxes hasHeaders channel num d c1
     | _ \<Rightarrow> c1)"

definition conn_attach :: "u64 \<Rightarrow> dispatcher \<Rightarrow> conn \<Rightarrow> conn" where
  "conn_attach channel d c = c\<lparr>sess := Attach channel d (sess c), pc := Reading\<rparr>"

definition newConnectionHandler :: "reader \<Rightarrow> conn" where
  "newConnectionHandler r = \<lparr>inp = r, sent = [], broken = False, sess = newSessions,
     highestChannel = 0, jobs = [], pc = Reading\<rparr>"

section \<open>Messages on the wire\<close>

text \<open>
  A message of the runtime is an array of the channel, the method number, the arguments and,
  when it has four elements, headers.
\<close>

definition message :: "u64 \<Rightarrow> u64 \<Rightarrow> intf list \<Rightarrow> intf option \<Rightarrow> bytes" where
  "message ch num args hdr = (case hdr of
      None \<Rightarrow> AppendIntf [] (ISlice [IUint ch, IUint num, ISlice args])
    | Some h \<Rightarrow> AppendIntf [] (ISlice [IUint ch, IUint num, ISlice args, h]))"

lemma message_eq:
  "message ch num args None =
     AppendArrayHeader [] 3 @ AppendUint64 [] ch @ AppendUint64 [] num @ AppendIntf [] (ISlice args)"
  "message ch num args (Some h) =
     AppendArrayHeader [] 4 @ AppendUint64 [] ch @ AppendUint64 [] num @ AppendIntf [] (ISlice args) @
     AppendIntf [] h"
  by (simp_all add: message_def append_simps AppendIntf_split [of "_ @ _"] append_intfs.simps
      AppendIntf_split(3) [of "AppendArrayHeader _ _"] AppendIntf_split(1) [of "_ # _"] del: append_Cons)

lemma conn_next_message:
  "conn_next (r\<lparr>rest := message ch num args None @ bs\<rparr>) =
     (Inr (False, ch, num), r\<lparr>rest := AppendIntf [] (ISlice args) @ bs\<rparr>)"
  "conn_next (r\<lparr>rest := message ch num args (Some h) @ bs\<rparr>) =
     (Inr (True, ch, num), r\<lparr>rest := AppendIntf [] (ISlice args) @ AppendIntf [] h @ bs\<rparr>)"
  by (simp_all add: conn_next_def message_eq rd_simps del: AppendIntf.simps)

lemma Reader_Skip_value:
  "intf_ok i \<Longrightarrow> Reader_Skip (r\<lparr>rest := AppendIntf [] i @ bs\<rparr>) = (Inr (), r\<lparr>rest := bs\<rparr>)"
  by (rule reader_skip.walk_AppendIntf(1))

lemma skip_ignore_value:
  "intf_ok i \<Longrightarrow> skip_ignore (c\<lparr>inp := r\<lparr>rest := AppendIntf [] i @ bs\<rparr>\<rparr>) = c\<lparr>inp := r\<lparr>rest := bs\<rparr>\<rparr>"
  by (simp add: skip_ignore_def Reader_Skip_value del: Reader_Skip.simps AppendIntf.simps)

lemma copy_profile_value:
  assumes "intf_ok i"
  shows "copy_profile (r\<lparr>rest := AppendIntf [] i @ bs\<rparr>) = (Inr (AppendIntf [] i), r\<lparr>rest := bs\<rparr>)"
proof -
  have "forget (CopyNext (r\<lparr>rest := AppendIntf [] i @ bs\<rparr>, [])) = (Inr (), r\<lparr>rest := bs\<rparr>, AppendIntf [] i)"
    using copy.walk_AppendIntf(1) [OF assms, where r = r and w = "[]" and c = "[]" and bs = bs] by (simp del: CopyNext.simps AppendIntf.simps)
  then show ?thesis
    by (auto simp: copy_profile_def forget_def simp del: CopyNext.simps AppendIntf.simps
        split: prod.splits sum.splits)
qed

lemma profile_Type_map:
  assumes "intf_ok (IMapIntf m)" "map_of m ''type'' = Some (IString t)"
  shows "profile_Type (AppendIntf [] (IMapIntf m)) = Inr t"
proof -
  have "fields_ok m \<Longrightarrow> map_of m k = Some v \<Longrightarrow> intf_ok v" for k v
    by (induction m) (auto split: if_splits)
  then have "length t < 2 ^ 32" using assms by fastforce
  moreover have "AppendString [] t \<noteq> []" by (simp add: AppendString_def Let_def)
  moreover have "Locate ''type'' (AppendIntf [] (IMapIntf m)) = AppendString [] t"
    using Locate_AppendIntf [OF assms(1), of "''type''"] assms(2) by (simp del: AppendIntf.simps(9))
  ultimately show ?thesis
    using ReadStringBytes_back [of t "[]"] by (simp add: profile_Type_def del: AppendIntf.simps(9))
qed

section \<open>What an iteration of the loop does\<close>

lemma ISlice_eq:
  "AppendIntf [] (ISlice xs) = AppendArrayHeader [] (of_nat (length xs)) @ append_intfs [] xs"
  using AppendIntf_split(3) [of "AppendArrayHeader [] (of_nat (length xs))" xs] by simp

lemma intfs_Cons: "append_intfs [] (x # xs) = AppendIntf [] x @ append_intfs [] xs"
  using AppendIntf_split(3) [of "AppendIntf [] x" xs] by simp

lemma IMapIntf_type: "Reader_NextType (r\<lparr>rest := AppendIntf [] (IMapIntf m) @ bs\<rparr>) =
  (Inr MapType, r\<lparr>rest := AppendIntf [] (IMapIntf m) @ bs\<rparr>)"
proof -
  have hd: "\<exists>a as. AppendMapHeader [] n = a # as \<and> getType a = MapType" for n
    by (auto simp: AppendMapHeader_def getType_def sizes_wfix word_le_unat unat_ucast_small)
  obtain a as where "AppendMapHeader [] (of_nat (length m)) = a # as" "getType a = MapType"
    using hd by blast
  then show ?thesis
    using AppendIntf_split(2) [of "AppendMapHeader [] (of_nat (length m))" m]
      Reader_NextType_lead [of a "as @ append_fields [] m @ bs" r] by simp
qed

lemma read_profile_value:
  assumes "intf_ok (IMapIntf m)"
  shows "read_profile (c\<lparr>inp := r\<lparr>rest := AppendIntf [] (IMapIntf m) @ bs\<rparr>\<rparr>) =
    (Inr (AppendIntf [] (IMapIntf m)), c\<lparr>inp := r\<lparr>rest := bs\<rparr>\<rparr>)"
  unfolding read_profile_def
  by (simp add: rd_simps lift_def IMapIntf_type copy_profile_value [OF assms] del: AppendIntf.simps)

lemma IMapStr_eq:
  "AppendIntf [] (IMapStr ps) = AppendMapHeader [] (of_nat (length ps)) @ append_pairs [] ps"
  using append_pairs_split [of "AppendMapHeader [] (of_nat (length ps))" ps] by simp

lemma readMapStrStr_value:
  assumes "intf_ok (IMapStr ps)" "distinct (map fst ps)"
  shows "readMapStrStr Map.empty (r\<lparr>rest := AppendIntf [] (IMapStr ps) @ bs\<rparr>) =
    (Inr (map_of ps), r\<lparr>rest := bs\<rparr>)"
  using assms reader.read_pairs [of ps Map.empty bs r]
  by (simp add: readMapStrStr_def IMapStr_eq rd_simps del: AppendIntf.simps)

text \<open>A message to a channel that is not open any more changes nothing but the input.\<close>

lemma conn_iter_detached:
  assumes "pc c = Reading" "sess c ch = None" "ch \<le> highestChannel c"
    "intf_ok (ISlice args)" "\<forall>h. hdr = Some h \<longrightarrow> intf_ok h"
  shows "conn_iter boxes (c\<lparr>inp := r\<lparr>rest := message ch num args hdr @ bs\<rparr>\<rparr>) = c\<lparr>inp := r\<lparr>rest := bs\<rparr>\<rparr>"
proof (cases hdr)
  case None
  then show ?thesis using assms
    by (simp add: conn_iter_def conn_read_def conn_next_message conn_detached_def skip_headers_def skip_ignore_value
        Get_def del: AppendIntf.simps)
next
  case (Some h)
  then show ?thesis using assms
    by (simp add: conn_iter_def conn_read_def conn_next_message conn_detached_def skip_headers_def skip_ignore_value
        Get_def del: AppendIntf.simps)
qed

lemma skip_headers_value:
  "\<forall>h. hdr = Some h \<longrightarrow> intf_ok h \<Longrightarrow>
   skip_headers (hdr \<noteq> None) (c\<lparr>inp := r\<lparr>rest := (case hdr of None \<Rightarrow> [] | Some h \<Rightarrow> AppendIntf [] h) @ bs\<rparr>\<rparr>)
     = c\<lparr>inp := r\<lparr>rest := bs\<rparr>\<rparr>"
  by (cases hdr) (simp_all add: skip_headers_def skip_ignore_value del: AppendIntf.simps)

lemma conn_next_message_hdr:
  "conn_next (r\<lparr>rest := message ch num args hdr @ bs\<rparr>) =
     (Inr (hdr \<noteq> None, ch, num), r\<lparr>rest := AppendIntf [] (ISlice args) @
        (case hdr of None \<Rightarrow> [] | Some h \<Rightarrow> AppendIntf [] h) @ bs\<rparr>)"
  by (cases hdr) (simp_all add: conn_next_message del: AppendIntf.simps)

lemma initial_Handle_spool:
  assumes "intf_ok (IMapIntf m)" "map_of m ''type'' = Some (IString t)" "boxes t" "length name < 2 ^ 32"
  shows "initial_Handle boxes rs spool
      (c\<lparr>inp := r\<lparr>rest := AppendIntf [] (ISlice [IMapIntf m, IString name]) @ bs\<rparr>\<rparr>) =
    (Inr (Some (SpoolCancelationDispatch rs (length (jobs c)))),
     start_job (new_job rs SpoolJob t (AppendIntf [] (IMapIntf m)) name) (c\<lparr>inp := r\<lparr>rest := bs\<rparr>\<rparr>))"
  using assms
  by (simp add: initial_Handle_def checkSize_def rd_simps lift_def ISlice_eq intfs_Cons read_profile_value
      AppendIntf.simps(5) onSpool_def profile_Type_map
      del: AppendIntf.simps(9) AppendIntf.simps(11) append_intfs.simps(2))

lemma initial_Handle_spawn:
  assumes "intf_ok (IMapIntf m)" "map_of m ''type'' = Some (IString t)" "boxes t"
    "length name < 2 ^ 32" "length exe < 2 ^ 32" "intf_ok (IMapStr args)" "distinct (map fst args)"
    "intf_ok (IMapStr env)" "distinct (map fst env)"
  shows "initial_Handle boxes rs spawn
      (c\<lparr>inp := r\<lparr>rest := AppendIntf [] (ISlice [IMapIntf m, IString name, IString exe, IMapStr args, IMapStr env]) @ bs\<rparr>\<rparr>) =
    (Inr (Some (SpawnDispatch rs (length (jobs c)))),
     start_job ((new_job rs SpawnJob t (AppendIntf [] (IMapIntf m)) name)
         \<lparr>jexecutable := exe, jargs := map_of args, jenv := map_of env\<rparr>) (c\<lparr>inp := r\<lparr>rest := bs\<rparr>\<rparr>))"
  using assms
  by (simp add: initial_Handle_def checkSize_def rd_simps lift_def ISlice_eq intfs_Cons read_profile_value
      readMapStrStr_value onSpawn_def profile_Type_map
      del: AppendIntf.simps(9) AppendIntf.simps(10) AppendIntf.simps(11) append_intfs.simps(2) intf_ok.simps)

lemma initial_Handle_args:
  assumes "num = spool \<and> n \<noteq> 2 \<or> num = spawn \<and> n \<noteq> 5"
  shows "initial_Handle boxes rs num (c\<lparr>inp := r\<lparr>rest := AppendArrayHeader [] n @ bs\<rparr>\<rparr>) =
    (Inl ErrInvalidArgsNum, c\<lparr>inp := r\<lparr>rest := bs\<rparr>\<rparr>)"
  using assms by (auto simp: initial_Handle_def checkSize_def rd_simps lift_def)

lemma skip_headers_start_job: "skip_headers b (start_job j c) = start_job j (skip_headers b c)"
  by (simp add: skip_headers_def start_job_def skip_ignore_def)

lemma conn_update_swap:
  "c\<lparr>inp := i, highestChannel := h, pc := x\<rparr> = c\<lparr>highestChannel := h, pc := x, inp := i\<rparr>"
  "c\<lparr>inp := i, pc := x\<rparr> = c\<lparr>pc := x, inp := i\<rparr>"
  by simp_all

text \<open>The iteration for the first message on a channel, from the outcome of the dispatcher.\<close>

lemma conn_iter_first:
  assumes "highestChannel c < ch" "sess c ch = None"
    and "initial_Handle boxes (newResponseStream ch) num
      (c\<lparr>highestChannel := ch, pc := Handling (hdr \<noteq> None) ch num (InitialDispatch (newResponseStream ch)),
         inp := r\<lparr>rest := AppendIntf [] (ISlice args) @
         (case hdr of None \<Rightarrow> [] | Some h \<Rightarrow> AppendIntf [] h) @ bs\<rparr>\<rparr>) = (res, c1)"
  shows "conn_iter boxes (c\<lparr>inp := r\<lparr>rest := message ch num args hdr @ bs\<rparr>\<rparr>) =
    (let c2 = skip_headers (hdr \<noteq> None) c1 in
     case res of
        Inl ErrInvalidArgsNum \<Rightarrow> conn_return c2
      | Inl _ \<Rightarrow> c2\<lparr>sess := Detach ch (sess c2), pc := Reading\<rparr>
      | Inr None \<Rightarrow> c2\<lparr>sess := Detach ch (sess c2), pc := Reading\<rparr>
      | Inr (Some d') \<Rightarrow> c2\<lparr>pc := Attaching ch d'\<rparr>)"
  using assms
  by (simp add: conn_iter_def conn_read_def conn_next_message_hdr Get_def conn_handle_def Handle_def
      conn_update_swap not_le [symmetric] del: AppendIntf.simps not_le)

lemma conn_iter_spool:
  assumes "highestChannel c < ch" "sess c ch = None"
    "intf_ok (IMapIntf m)" "map_of m ''type'' = Some (IString t)" "boxes t" "length name < 2 ^ 32"
    "\<forall>h. hdr = Some h \<longrightarrow> intf_ok h"
  shows "conn_iter boxes (c\<lparr>inp := r\<lparr>rest := message ch spool [IMapIntf m, IString name] hdr @ bs\<rparr>\<rparr>) =
    c\<lparr>inp := r\<lparr>rest := bs\<rparr>, highestChannel := ch,
      jobs := jobs c @ [new_job (newResponseStream ch) SpoolJob t (AppendIntf [] (IMapIntf m)) name],
      pc := Attaching ch (SpoolCancelationDispatch (newResponseStream ch) (length (jobs c)))\<rparr>"
proof -
  let ?tail = "(case hdr of None \<Rightarrow> [] | Some h \<Rightarrow> AppendIntf [] h) @ bs"
  note initial_Handle_spool [where boxes = boxes and rs = "newResponseStream ch"
        and c = "c\<lparr>highestChannel := ch, pc := Handling (hdr \<noteq> None) ch spool (InitialDispatch (newResponseStream ch))\<rparr>" and r = r and bs = ?tail, OF assms(3-6)]
  from conn_iter_first [OF assms(1,2) this] show ?thesis
    using skip_headers_value [OF assms(7), where c = "c\<lparr>highestChannel := ch, pc := Handling (hdr \<noteq> None) ch spool (InitialDispatch (newResponseStream ch))\<rparr>" and r = r and bs = bs]
    by (simp add: skip_headers_start_job del: AppendIntf.simps) (simp add: start_job_def)
qed

lemma conn_iter_spawn:
  assumes "highestChannel c < ch" "sess c ch = None"
    "intf_ok (IMapIntf m)" "map_of m ''type'' = Some (IString t)" "boxes t"
    "length name < 2 ^ 32" "length exe < 2 ^ 32" "intf_ok (IMapStr args)" "distinct (map fst args)"
    "intf_ok (IMapStr env)" "distinct (map fst env)" "\<forall>h. hdr = Some h \<longrightarrow> intf_ok h"
  shows "conn_iter boxes (c\<lparr>inp := r\<lparr>rest :=
      message ch spawn [IMapIntf m, IString name, IString exe, IMapStr args, IMapStr env] hdr @ bs\<rparr>\<rparr>) =
    c\<lparr>inp := r\<lparr>rest := bs\<rparr>, highestChannel := ch,
      jobs := jobs c @ [(new_job (newResponseStream ch) SpawnJob t (AppendIntf [] (IMapIntf m)) name)
        \<lparr>jexecutable := exe, jargs := map_of args, jenv := map_of env\<rparr>],
      pc := Attaching ch (SpawnDispatch (newResponseStream ch) (length (jobs c)))\<rparr>"
proof -
  let ?tail = "(case hdr of None \<Rightarrow> [] | Some h \<Rightarrow> AppendIntf [] h) @ bs"
  note initial_Handle_spawn [where boxes = boxes and rs = "newResponseStream ch"
        and c = "c\<lparr>highestChannel := ch, pc := Handling (hdr \<noteq> None) ch spawn (InitialDispatch (newResponseStream ch))\<rparr>" and r = r and bs = ?tail, OF assms(3-11)]
  from conn_iter_first [OF assms(1,2) this] show ?thesis
    using skip_headers_value [OF assms(12), where c = "c\<lparr>highestChannel := ch, pc := Handling (hdr \<noteq> None) ch spawn (InitialDispatch (newResponseStream ch))\<rparr>" and r = r and bs = bs]
    by (simp add: skip_headers_start_job del: AppendIntf.simps) (simp add: start_job_def)
qed

text \<open>A message with the wrong number of arguments ends the connection.\<close>

lemma conn_iter_args:
  assumes "highestChannel c < ch" "sess c ch = None" "length args < 2 ^ 32"
    "num = spool \<and> length args \<noteq> 2 \<or> num = spawn \<and> length args \<noteq> 5"
  shows "pc (conn_iter boxes (c\<lparr>inp := r\<lparr>rest := message ch num args hdr @ bs\<rparr>\<rparr>)) = Returned"
proof -
  let ?n = "of_nat (length args) :: u32"
  have "unat ?n = length args" using assms(3) by simp
  then have n: "num = spool \<and> ?n \<noteq> 2 \<or> num = spawn \<and> ?n \<noteq> 5" using assms(4) by auto
  let ?tail = "append_intfs [] args @ (case hdr of None \<Rightarrow> [] | Some h \<Rightarrow> AppendIntf [] h) @ bs"
  note initial_Handle_args [OF n, where boxes = boxes and rs = "newResponseStream ch"
      and c = "c\<lparr>highestChannel := ch, pc := Handling (hdr \<noteq> None) ch num (InitialDispatch (newResponseStream ch))\<rparr>" and r = r and bs = ?tail]
  then have "initial_Handle boxes (newResponseStream ch) num
      (c\<lparr>highestChannel := ch, pc := Handling (hdr \<noteq> None) ch num (InitialDispatch (newResponseStream ch)), inp := r\<lparr>rest := AppendIntf [] (ISlice args) @
         (case hdr of None \<Rightarrow> [] | Some h \<Rightarrow> AppendIntf [] h) @ bs\<rparr>\<rparr>) =
      (Inl ErrInvalidArgsNum, c\<lparr>highestChannel := ch, pc := Handling (hdr \<noteq> None) ch num (InitialDispatch (newResponseStream ch)), inp := r\<lparr>rest := ?tail\<rparr>\<rparr>)"
    by (simp add: ISlice_eq del: AppendIntf.simps)
  from conn_iter_first [OF assms(1,2) this] show ?thesis
    by (simp add: conn_return_def Let_def)
qed

text \<open>A message whose method the dispatcher does not know: its arguments stay unread.\<close>

lemma conn_iter_unknown:
  assumes "highestChannel c < ch" "sess c ch = None" "num \<noteq> spool" "num \<noteq> spawn"
  shows "conn_iter boxes (c\<lparr>inp := r\<lparr>rest := message ch num args None @ bs\<rparr>\<rparr>) =
    c\<lparr>inp := r\<lparr>rest := AppendIntf [] (ISlice args) @ bs\<rparr>, highestChannel := ch, pc := Reading\<rparr>"
  using assms
  by (simp add: conn_iter_def conn_read_def conn_next_message Get_def conn_handle_def Handle_def initial_Handle_def
      rd_simps skip_headers_def Detach_def fun_upd_idem not_le [symmetric] del: AppendIntf.simps not_le)

lemma conn_iter_cancel:
  assumes "sess c ch = Some (SpoolCancelationDispatch rs j)"
    "\<not> rclosed rs" "rchannel rs = ch" "\<not> broken c" "intf_ok (ISlice args)"
  shows "conn_iter boxes (c\<lparr>inp := r\<lparr>rest := message ch spoolCancel args None @ bs\<rparr>\<rparr>) =
    c\<lparr>inp := r\<lparr>rest := bs\<rparr>, sess := (sess c)(ch := None), pc := Reading, sent := sent c @ [frame_close ch replySpoolOk],
      jobs := (jobs c)[j := (jobs c ! j)\<lparr>cancelled := True\<rparr>]\<rparr>"
  using assms
  by (simp add: conn_iter_def conn_read_def conn_next_message Get_def conn_handle_def Handle_def spool_Handle_def
      skip_ignore_value Let_def conn_update_swap cancel_job_def upd_job_def rs_Close_def conn_write_def rs_close_def skip_headers_def Detach_def
      del: AppendIntf.simps)

text \<open>A request for an isolation the daemon does not have: an error reply, and the input is in step.\<close>

lemma initial_Handle_unavailable:
  assumes "intf_ok (IMapIntf m)" "map_of m ''type'' = Some (IString t)" "\<not> boxes t" "length name < 2 ^ 32"
  shows "initial_Handle boxes rs spool
      (c\<lparr>inp := r\<lparr>rest := AppendIntf [] (ISlice [IMapIntf m, IString name]) @ bs\<rparr>\<rparr>) =
    (Inl (HUnknownIsolate t), snd (rs_Error rs replySpoolError errUnknownIsolate
       (''isolate type '' @ t @ '' is not available'') (c\<lparr>inp := r\<lparr>rest := bs\<rparr>\<rparr>)))"
  using assms
  by (simp add: initial_Handle_def checkSize_def rd_simps lift_def ISlice_eq intfs_Cons read_profile_value
      AppendIntf.simps(5) onSpool_def profile_Type_map
      del: AppendIntf.simps(9) AppendIntf.simps(11) append_intfs.simps(2))

lemma conn_iter_unavailable:
  assumes "highestChannel c < ch" "sess c ch = None" "\<not> broken c"
    "intf_ok (IMapIntf m)" "map_of m ''type'' = Some (IString t)" "\<not> boxes t" "length name < 2 ^ 32"
  shows "conn_iter boxes (c\<lparr>inp := r\<lparr>rest := message ch spool [IMapIntf m, IString name] None @ bs\<rparr>\<rparr>) =
    c\<lparr>inp := r\<lparr>rest := bs\<rparr>, highestChannel := ch, pc := Reading,
      sent := sent c @ [frame_error ch replySpoolError errUnknownIsolate (''isolate type '' @ t @ '' is not available'')]\<rparr>"
proof -
  note initial_Handle_unavailable [where boxes = boxes and rs = "newResponseStream ch" and m = m and t = t and name = name
        and c = "c\<lparr>highestChannel := ch, pc := Handling False ch spool (InitialDispatch (newResponseStream ch))\<rparr>"
        and r = r and bs = bs, OF assms(4-7)]
  then show ?thesis
    using conn_iter_first [OF assms(1,2), where hdr = None and num = spool and args = "[IMapIntf m, IString name]"
        and boxes = boxes and r = r and bs = bs] assms(2,3)
    by (simp add: skip_headers_def rs_Error_def newResponseStream_def conn_write_def rs_close_def Detach_def
        fun_upd_idem del: AppendIntf.simps)
qed

text \<open>A kill message: the channel is closed to further messages and \<^verbatim>\<open>asyncKill\<close> starts.\<close>

lemma conn_iter_kill:
  assumes "sess c ch = Some (SpawnDispatch rs j)" "intf_ok (ISlice args)"
  shows "conn_iter boxes (c\<lparr>inp := r\<lparr>rest := message ch spawnKill args None @ bs\<rparr>\<rparr>) =
    c\<lparr>inp := r\<lparr>rest := bs\<rparr>, sess := (sess c)(ch := None), pc := Reading,
      jobs := (jobs c)[j := (jobs c ! j)\<lparr>kpc := KillSelect\<rparr>]\<rparr>"
  using assms
  by (simp add: conn_iter_def conn_read_def conn_next_message Get_def conn_handle_def Handle_def spawn_Handle_def
      skip_ignore_value Let_def conn_update_swap request_kill_def upd_job_def skip_headers_def Detach_def
      del: AppendIntf.simps)

end
