(* ===== verification/Connection.thy ===== *)
theory Connection
  imports Dispatch
begin

text \<open>
  The goroutines of a connection and their interleavings: the loop of \<^verbatim>\<open>HandleConn\<close>, the
  background goroutines of \<^verbatim>\<open>onSpool\<close> and \<^verbatim>\<open>onSpawn\<close> (\<^verbatim>\<open>src/isolate/initialdispatch.go\<close>) and
  \<^verbatim>\<open>asyncKill\<close> (\<^verbatim>\<open>spawndispatch.go\<close>).  A step is what one goroutine does between two points
  where another can act; the box is a parameter that returns whatever it likes whenever it likes.
\<close>

section \<open>Steps of the background goroutines\<close>

text \<open>\<^verbatim>\<open>box.Spool\<close> returns, with an error message or with success, and the goroutine replies.\<close>

definition spool_return :: "nat \<Rightarrow> string option \<Rightarrow> conn \<Rightarrow> conn" where
  "spool_return i err c =
     (let rs = jstream (jobs c ! i);
          c1 = (case err of
                  Some msg \<Rightarrow> snd (rs_Error rs replySpoolError errSpoolingFailed msg c)
                | None \<Rightarrow> snd (rs_Close rs replySpoolOk c))
      in upd_job i (\<lambda>j. j\<lparr>jpc := Closed\<rparr>) c1)"

text \<open>What \<^verbatim>\<open>box.Spawn\<close> returns, as the \<^verbatim>\<open>switch\<close> on its error distinguishes it.\<close>

datatype spawn_result = SpawnOk | SpawnCancelled | SpawnEAGAIN string | SpawnError string

definition spawn_return :: "nat \<Rightarrow> spawn_result \<Rightarrow> conn \<Rightarrow> conn" where
  "spawn_return i res c =
     (let rs = jstream (jobs c ! i) in
      case res of
        SpawnOk \<Rightarrow> upd_job i (\<lambda>j. j\<lparr>jpc := Spawned, spawned := True\<rparr>) c
      | SpawnCancelled \<Rightarrow> upd_job i (\<lambda>j. j\<lparr>jpc := Exiting\<rparr>) c
      | SpawnEAGAIN msg \<Rightarrow>
          upd_job i (\<lambda>j. j\<lparr>jpc := Exiting\<rparr>) (snd (rs_Error rs replySpawnError errSpawnEAGAIN msg c))
      | SpawnError msg \<Rightarrow>
          upd_job i (\<lambda>j. j\<lparr>jpc := Exiting\<rparr>) (snd (rs_Error rs replySpawnError errSpawningFailed msg c)))"

text \<open>
  \<^verbatim>\<open>atomic.CompareAndSwapUint32\<close> on the shared flag, in the goroutine (after its context is
  done) and in \<^verbatim>\<open>asyncKill\<close> (after it received the process).
\<close>

definition spawn_cas :: "job \<Rightarrow> job" where
  "spawn_cas j = (if flagKilled j then j\<lparr>jpc := Exiting\<rparr> else j\<lparr>flagKilled := True, jpc := Killing\<rparr>)"

definition kill_cas :: "job \<Rightarrow> job" where
  "kill_cas j = (if flagKilled j then j\<lparr>kpc := KillDone\<rparr> else j\<lparr>flagKilled := True, kpc := KillCalling\<rparr>)"

text \<open>\<^verbatim>\<open>pr.Kill\<close> and the reply to it.\<close>

definition kill_reply :: "responseStream \<Rightarrow> string option \<Rightarrow> conn \<Rightarrow> conn" where
  "kill_reply rs err c = (case err of
      Some msg \<Rightarrow> snd (rs_Error rs replyKillError errKillError msg c)
    | None \<Rightarrow> snd (rs_Close rs replyKillOk c))"

definition spawn_kill :: "nat \<Rightarrow> string option \<Rightarrow> conn \<Rightarrow> conn" where
  "spawn_kill i err c = upd_job i (\<lambda>j. j\<lparr>kills := Suc (kills j), jpc := Exiting\<rparr>)
     (kill_reply (jstream (jobs c ! i)) err c)"

definition async_kill :: "nat \<Rightarrow> string option \<Rightarrow> conn \<Rightarrow> conn" where
  "async_kill i err c = upd_job i (\<lambda>j. j\<lparr>kills := Suc (kills j), kpc := KillDone\<rparr>)
     (kill_reply (jstream (jobs c ! i)) err c)"

text \<open>
  One step of the goroutine of job \<open>i\<close> or of its \<^verbatim>\<open>asyncKill\<close>.  Sending the process on the
  unbuffered channel and receiving it is one step.  The \<^verbatim>\<open>default\<close> branch of the \<^verbatim>\<open>select\<close> in
  \<^verbatim>\<open>asyncKill\<close> runs only when no other branch can.
\<close>

inductive job_step :: "nat \<Rightarrow> conn \<Rightarrow> conn \<Rightarrow> bool" for i :: nat where
  spool_returns: "i < length (jobs c) \<Longrightarrow> jkind (jobs c ! i) = SpoolJob \<Longrightarrow> jpc (jobs c ! i) = Running \<Longrightarrow>
    job_step i c (spool_return i err c)"
| spawn_returns: "i < length (jobs c) \<Longrightarrow> jkind (jobs c ! i) = SpawnJob \<Longrightarrow> jpc (jobs c ! i) = Running \<Longrightarrow>
    job_step i c (spawn_return i res c)"
| offers: "i < length (jobs c) \<Longrightarrow> jpc (jobs c ! i) = Spawned \<Longrightarrow>
    job_step i c (upd_job i (\<lambda>j. j\<lparr>jpc := Offering\<rparr>) c)"
| hands_over: "i < length (jobs c) \<Longrightarrow> jpc (jobs c ! i) = Offering \<Longrightarrow> kpc (jobs c ! i) = KillSelect \<Longrightarrow>
    job_step i c (upd_job i (\<lambda>j. j\<lparr>jpc := Exiting, kpc := KillGot\<rparr>) c)"
| context_done: "i < length (jobs c) \<Longrightarrow> jpc (jobs c ! i) = Offering \<Longrightarrow> cancelled (jobs c ! i) \<Longrightarrow>
    job_step i c (upd_job i spawn_cas c)"
| spawn_kills: "i < length (jobs c) \<Longrightarrow> jpc (jobs c ! i) = Killing \<Longrightarrow>
    job_step i c (spawn_kill i err c)"
| closes_channel: "i < length (jobs c) \<Longrightarrow> jpc (jobs c ! i) = Exiting \<Longrightarrow>
    job_step i c (upd_job i (\<lambda>j. j\<lparr>jpc := Closed\<rparr>) c)"
| kill_closed: "i < length (jobs c) \<Longrightarrow> kpc (jobs c ! i) = KillSelect \<Longrightarrow> jpc (jobs c ! i) = Closed \<Longrightarrow>
    job_step i c (upd_job i (\<lambda>j. j\<lparr>kpc := KillDone\<rparr>) c)"
| kill_context: "i < length (jobs c) \<Longrightarrow> kpc (jobs c ! i) = KillSelect \<Longrightarrow> pc c = Returned \<Longrightarrow>
    job_step i c (upd_job i (\<lambda>j. j\<lparr>kpc := KillDone\<rparr>) c)"
| kill_default: "i < length (jobs c) \<Longrightarrow> kpc (jobs c ! i) = KillSelect \<Longrightarrow>
    jpc (jobs c ! i) \<noteq> Offering \<Longrightarrow> jpc (jobs c ! i) \<noteq> Closed \<Longrightarrow> pc c \<noteq> Returned \<Longrightarrow>
    job_step i c (upd_job i (\<lambda>j. j\<lparr>cancelled := True, kpc := KillDone\<rparr>) c)"
| kill_receives: "i < length (jobs c) \<Longrightarrow> kpc (jobs c ! i) = KillGot \<Longrightarrow>
    job_step i c (upd_job i kill_cas c)"
| kill_kills: "i < length (jobs c) \<Longrightarrow> kpc (jobs c ! i) = KillCalling \<Longrightarrow>
    job_step i c (async_kill i err c)"

text \<open>
  The steps of the whole connection: the loop, the job goroutines, output of a spawned process
  (one write of its collector), and the connection breaking or being closed by the deferred call.
\<close>

inductive conn_step :: "(string \<Rightarrow> bool) \<Rightarrow> conn \<Rightarrow> conn \<Rightarrow> bool" for boxes :: "string \<Rightarrow> bool" where
  loop_reads: "pc c = Reading \<Longrightarrow> conn_step boxes c (conn_read c)"
| loop_handles: "pc c = Handling hasHeaders ch num d \<Longrightarrow>
    conn_step boxes c (conn_handle boxes hasHeaders ch num d c)"
| loop_attaches: "pc c = Attaching ch d \<Longrightarrow> conn_step boxes c (conn_attach ch d c)"
| job_moves: "job_step i c c' \<Longrightarrow> conn_step boxes c c'"
| box_writes: "i < length (jobs c) \<Longrightarrow> jkind (jobs c ! i) = SpawnJob \<Longrightarrow>
    conn_step boxes c (snd (rs_Write (jstream (jobs c ! i)) replySpawnWrite p c))"
| conn_breaks: "conn_step boxes c (c\<lparr>broken := True\<rparr>)"

inductive reachable :: "(string \<Rightarrow> bool) \<Rightarrow> reader \<Rightarrow> conn \<Rightarrow> bool" for boxes r where
  reach_init: "reachable boxes r (newConnectionHandler r)"
| reach_step: "reachable boxes r c \<Longrightarrow> conn_step boxes c c' \<Longrightarrow> reachable boxes r c'"

section \<open>Replies on the wire\<close>

text \<open>The channel and the number of a reply, as the runtime reads them: a frame without headers.\<close>

definition frame_id :: "bytes \<Rightarrow> (u64 \<times> u64) option" where
  "frame_id f = (case conn_next (bytes_reader (\<lambda>n. n) (\<lambda>_. 4096) f) of
      (Inr (False, ch, n), _) \<Rightarrow> Some (ch, n) | _ \<Rightarrow> None)"

definition replies :: "conn \<Rightarrow> (u64 \<times> u64) option list" where
  "replies c = map frame_id (sent c)"

text \<open>The replies on a channel, and those that end a spawn: all but the output.\<close>

definition on_channel :: "u64 \<Rightarrow> (u64 \<times> u64) option \<Rightarrow> bool" where
  "on_channel ch x = (case x of Some (c, n) \<Rightarrow> c = ch | None \<Rightarrow> False)"

definition terminal :: "u64 \<Rightarrow> (u64 \<times> u64) option \<Rightarrow> bool" where
  "terminal ch x = (case x of Some (c, n) \<Rightarrow> c = ch \<and> n \<noteq> replySpawnWrite | None \<Rightarrow> False)"

lemma conn_next_frame:
  "conn_next (r\<lparr>rest := frame_head ch n @ bs\<rparr>) = (Inr (False, ch, n), r\<lparr>rest := bs\<rparr>)"
  by (simp add: conn_next_def frame_head_def append_simps rd_simps)

lemma frame_id_head: "frame_id (frame_head ch n @ bs) = Some (ch, n)"
  using conn_next_frame [where r = "bytes_reader (\<lambda>n. n) (\<lambda>_. 4096) []"]
  by (simp add: frame_id_def bytes_reader_def)

lemma frame_id_simps [simp]:
  "frame_id (frame_write ch n d) = Some (ch, n)"
  "frame_id (frame_error ch n cd msg) = Some (ch, n)"
  "frame_id (frame_close ch n) = Some (ch, n)"
  by (simp_all add: frame_write_def frame_error_def frame_close_def Let_def append_simps frame_id_head)

text \<open>The effect of the methods of an open stream.\<close>

definition reply :: "bool \<Rightarrow> u64 \<Rightarrow> u64 \<Rightarrow> bytes list \<Rightarrow> bool" where
  "reply br ch n fs \<longleftrightarrow> map frame_id fs = (if br then [] else [Some (ch, n)])"

lemma rs_Write_effect:
  assumes "\<not> rclosed rs"
  obtains fs where "snd (rs_Write rs n p c) = c\<lparr>sent := sent c @ fs\<rparr>" "reply (broken c) (rchannel rs) n fs"
proof
  let ?fs = "if broken c then [] else [frame_write (rchannel rs) n p]"
  show "snd (rs_Write rs n p c) = c\<lparr>sent := sent c @ ?fs\<rparr>" "reply (broken c) (rchannel rs) n ?fs"
    using assms by (simp_all add: rs_Write_def conn_write_def reply_def)
qed

lemma rs_Error_effect:
  assumes "\<not> rclosed rs"
  obtains fs where "snd (rs_Error rs n cd msg c) = c\<lparr>sent := sent c @ fs, sess := (sess c)(rchannel rs := None)\<rparr>"
    "reply (broken c) (rchannel rs) n fs"
proof
  let ?fs = "if broken c then [] else [frame_error (rchannel rs) n cd msg]"
  show "snd (rs_Error rs n cd msg c) = c\<lparr>sent := sent c @ ?fs, sess := (sess c)(rchannel rs := None)\<rparr>"
    "reply (broken c) (rchannel rs) n ?fs"
    using assms by (simp_all add: rs_Error_def conn_write_def rs_close_def reply_def Detach_def)
qed

lemma rs_Close_effect:
  assumes "\<not> rclosed rs"
  obtains fs where "snd (rs_Close rs n c) = c\<lparr>sent := sent c @ fs, sess := (sess c)(rchannel rs := None)\<rparr>"
    "reply (broken c) (rchannel rs) n fs"
proof
  let ?fs = "if broken c then [] else [frame_close (rchannel rs) n]"
  show "snd (rs_Close rs n c) = c\<lparr>sent := sent c @ ?fs, sess := (sess c)(rchannel rs := None)\<rparr>"
    "reply (broken c) (rchannel rs) n ?fs"
    using assms by (simp_all add: rs_Close_def conn_write_def rs_close_def reply_def Detach_def)
qed

section \<open>The protocol of one job\<close>

text \<open>
  What a step of job \<open>i\<close> does to the job alone, with the number of the reply it sends;
  \<open>ret\<close> says whether \<^verbatim>\<open>HandleConn\<close> has returned.
\<close>

inductive job_trans :: "bool \<Rightarrow> job \<Rightarrow> u64 option \<Rightarrow> job \<Rightarrow> bool" for ret :: bool where
  "jkind j = SpoolJob \<Longrightarrow> jpc j = Running \<Longrightarrow> job_trans ret j (Some n) (j\<lparr>jpc := Closed\<rparr>)"
| "jkind j = SpawnJob \<Longrightarrow> jpc j = Running \<Longrightarrow> job_trans ret j None (j\<lparr>jpc := Spawned, spawned := True\<rparr>)"
| "jkind j = SpawnJob \<Longrightarrow> jpc j = Running \<Longrightarrow> job_trans ret j no (j\<lparr>jpc := Exiting\<rparr>)"
| "jpc j = Spawned \<Longrightarrow> job_trans ret j None (j\<lparr>jpc := Offering\<rparr>)"
| "jpc j = Offering \<Longrightarrow> kpc j = KillSelect \<Longrightarrow> job_trans ret j None (j\<lparr>jpc := Exiting, kpc := KillGot\<rparr>)"
| "jpc j = Offering \<Longrightarrow> cancelled j \<Longrightarrow> job_trans ret j None (spawn_cas j)"
| "jpc j = Killing \<Longrightarrow> job_trans ret j (Some n) (j\<lparr>kills := Suc (kills j), jpc := Exiting\<rparr>)"
| "jpc j = Exiting \<Longrightarrow> job_trans ret j None (j\<lparr>jpc := Closed\<rparr>)"
| "kpc j = KillSelect \<Longrightarrow> jpc j = Closed \<or> ret \<Longrightarrow> job_trans ret j None (j\<lparr>kpc := KillDone\<rparr>)"
| "kpc j = KillSelect \<Longrightarrow> job_trans ret j None (j\<lparr>cancelled := True, kpc := KillDone\<rparr>)"
| "kpc j = KillGot \<Longrightarrow> job_trans ret j None (kill_cas j)"
| "kpc j = KillCalling \<Longrightarrow> job_trans ret j (Some n) (j\<lparr>kills := Suc (kills j), kpc := KillDone\<rparr>)"

definition replied :: "bool \<Rightarrow> u64 \<Rightarrow> u64 option \<Rightarrow> bytes list \<Rightarrow> bool" where
  "replied br ch no fs = (case no of None \<Rightarrow> fs = [] | Some n \<Rightarrow> reply br ch n fs)"

definition job_effect :: "nat \<Rightarrow> conn \<Rightarrow> conn \<Rightarrow> bool" where
  "job_effect i c c' \<longleftrightarrow> (\<exists>fs s no j'.
     c' = c\<lparr>sent := sent c @ fs, sess := s, jobs := (jobs c)[i := j']\<rparr> \<and>
     replied (broken c) (rchannel (jstream (jobs c ! i))) no fs \<and>
     (s = sess c \<or> s = (sess c)(rchannel (jstream (jobs c ! i)) := None)) \<and>
     job_trans (pc c = Returned) (jobs c ! i) no j')"

lemma job_effect_quiet:
  assumes "job_trans (pc c = Returned) (jobs c ! i) None (f (jobs c ! i))"
  shows "job_effect i c (upd_job i f c)"
  unfolding job_effect_def
  by (rule exI [of _ "[]"], rule exI [of _ "sess c"], rule exI [of _ None], rule exI [of _ "f (jobs c ! i)"])
    (simp add: upd_job_def replied_def assms)

lemma job_effect_reply:
  assumes "c1 = c\<lparr>sent := sent c @ fs, sess := (sess c)(rchannel (jstream (jobs c ! i)) := None)\<rparr>"
    "reply (broken c) (rchannel (jstream (jobs c ! i))) n fs"
    "job_trans (pc c = Returned) (jobs c ! i) (Some n) (f (jobs c ! i))"
  shows "job_effect i c (upd_job i f c1)"
  unfolding job_effect_def
  by (rule exI [of _ fs], rule exI [of _ "(sess c)(rchannel (jstream (jobs c ! i)) := None)"],
      rule exI [of _ "Some n"], rule exI [of _ "f (jobs c ! i)"])
    (use assms in \<open>simp add: upd_job_def replied_def\<close>)

lemma job_effect_Error:
  assumes "\<not> rclosed (jstream (jobs c ! i))"
    "job_trans (pc c = Returned) (jobs c ! i) (Some n) (f (jobs c ! i))"
  shows "job_effect i c (upd_job i f (snd (rs_Error (jstream (jobs c ! i)) n cd msg c)))"
  by (rule rs_Error_effect [OF assms(1)]) (rule job_effect_reply, assumption, assumption, rule assms(2))

lemma job_effect_Close:
  assumes "\<not> rclosed (jstream (jobs c ! i))"
    "job_trans (pc c = Returned) (jobs c ! i) (Some n) (f (jobs c ! i))"
  shows "job_effect i c (upd_job i f (snd (rs_Close (jstream (jobs c ! i)) n c)))"
  by (rule rs_Close_effect [OF assms(1)]) (rule job_effect_reply, assumption, assumption, rule assms(2))

lemmas job_effects = job_effect_quiet job_effect_Error job_effect_Close

text \<open>The connection's steps for a job follow the protocol.\<close>

lemma job_step_effect:
  assumes "job_step i c c'" "\<not> rclosed (jstream (jobs c ! i))"
  shows "job_effect i c c'"
  using assms
proof (cases rule: job_step.cases)
  case (spool_returns err)
  then show ?thesis using assms(2)
    by (cases err) (auto simp: spool_return_def intro!: job_effects job_trans.intros(1))
next
  case (spawn_returns res)
  then show ?thesis using assms(2)
    by (cases res) (auto simp: spawn_return_def intro!: job_effects job_trans.intros(2,3))
next
  case (spawn_kills err)
  then show ?thesis using assms(2)
    by (cases err) (auto simp: spawn_kill_def kill_reply_def intro!: job_effects job_trans.intros(7))
next
  case (kill_kills err)
  then show ?thesis using assms(2)
    by (cases err) (auto simp: async_kill_def kill_reply_def intro!: job_effects job_trans.intros(12))
qed (auto intro!: job_effect_quiet intro: job_trans.intros(4-6,8-11))

section \<open>The invariant of a connection\<close>

text \<open>
  The state of one job: a process is killed at most once, by the goroutine or by \<^verbatim>\<open>asyncKill\<close>
  but not by both, and a goroutine that is done with a process has killed it or handed it over.
\<close>

definition handed_over :: "job \<Rightarrow> bool" where
  "handed_over j \<longleftrightarrow> kpc j = KillGot \<or> kpc j = KillCalling"

definition finished :: "job \<Rightarrow> bool" where
  "finished j \<longleftrightarrow> jpc j = Exiting \<or> jpc j = Closed"

definition job_ok :: "job \<Rightarrow> bool" where
  "job_ok j \<longleftrightarrow>
     (jkind j = SpoolJob \<longrightarrow> kpc j = NoKill \<and> (jpc j = Running \<or> jpc j = Closed) \<and> \<not> spawned j) \<and>
     (if finished j then handed_over j \<longrightarrow> spawned j else \<not> handed_over j \<and> (spawned j \<longleftrightarrow> jpc j \<noteq> Running)) \<and>
     kills j = (if finished j \<and> spawned j \<and> \<not> handed_over j then 1 else 0) \<and>
     (flagKilled j \<longleftrightarrow> jpc j = Killing \<or> kpc j = KillCalling \<or> kills j = 1) \<and>
     (kpc j = KillDone \<longrightarrow> cancelled j \<or> finished j)"

lemma job_trans_ok:
  assumes "job_trans ret j no j'" "job_ok j" "ret \<longrightarrow> cancelled j"
  shows "job_ok j'"
  using assms
  by (cases rule: job_trans.cases)
    (auto simp: job_ok_def finished_def handed_over_def spawn_cas_def kill_cas_def split: if_splits)

lemma job_trans_frame:
  assumes "job_trans ret j no j'"
  shows "jstream j' = jstream j \<and> jkind j' = jkind j \<and> (kpc j = NoKill \<longrightarrow> kpc j' = NoKill) \<and>
    (cancelled j \<longrightarrow> cancelled j')"
  using assms by (cases rule: job_trans.cases) (simp_all add: spawn_cas_def kill_cas_def)

text \<open>
  How many terminal replies a spawn may have sent in a state, and how many replies of its own a
  spool.
\<close>

definition spawn_replies :: "job \<Rightarrow> nat" where
  "spawn_replies j = (if finished j \<and> \<not> handed_over j then 1 else 0)"

definition spool_replies :: "job \<Rightarrow> nat" where
  "spool_replies j = (if jpc j = Closed then 1 else 0)"

lemma job_ok_handed: "job_ok j \<Longrightarrow> handed_over j \<Longrightarrow> finished j"
  unfolding job_ok_def by argo

lemma job_ok_spool: "job_ok j \<Longrightarrow> jkind j = SpoolJob \<Longrightarrow> kpc j = NoKill \<and> (jpc j = Running \<or> jpc j = Closed)"
  unfolding job_ok_def by argo

lemma job_trans_spawn_replies:
  assumes "job_trans ret j no j'" "job_ok j" "jkind j = SpawnJob"
  shows "spawn_replies j + (if no = None then 0 else 1) \<le> spawn_replies j'"
  using assms(1,3) job_ok_handed [OF assms(2)]
  by (cases rule: job_trans.cases)
    (auto simp: spawn_replies_def finished_def handed_over_def spawn_cas_def kill_cas_def)

lemma job_trans_spool_replies:
  assumes "job_trans ret j no j'" "job_ok j" "jkind j = SpoolJob"
  shows "spool_replies j + (if no = None then 0 else 1) \<le> spool_replies j'"
  using assms(1,3) job_ok_spool [OF assms(2)]
  by (cases rule: job_trans.cases) (simp_all add: spool_replies_def spawn_cas_def kill_cas_def)

text \<open>Every step of a job brings it closer to its end.\<close>

definition job_rank :: "job \<Rightarrow> nat" where
  "job_rank j =
     (case jpc j of Running \<Rightarrow> 5 | Spawned \<Rightarrow> 4 | Offering \<Rightarrow> 3 | Killing \<Rightarrow> 2 | Exiting \<Rightarrow> 1 | Closed \<Rightarrow> 0) +
     (case kpc j of NoKill \<Rightarrow> 4 | KillSelect \<Rightarrow> 3 | KillGot \<Rightarrow> 2 | KillCalling \<Rightarrow> 1 | KillDone \<Rightarrow> 0)"

lemma job_trans_rank: "job_trans ret j no j' \<Longrightarrow> job_rank j' < job_rank j"
  by (erule job_trans.cases) (simp_all add: job_rank_def spawn_cas_def kill_cas_def)

end
