(* ===== verification/Connection_Inv.thy ===== *)
theory Connection_Inv
  imports Connection
begin

text \<open>
  The invariant of a connection and its proof: the steps of the loop of \<^verbatim>\<open>HandleConn\<close> are reduced
  to ten kinds of update, the steps of the background goroutines to those of \<^const>\<open>job_trans\<close>, and
  every kind keeps the invariant.
\<close>

section \<open>The updates the loop makes\<close>

text \<open>A job as the handlers of the first message start it, with the dispatcher of its channel.\<close>

definition fresh_job :: "responseStream \<Rightarrow> nat \<Rightarrow> job \<Rightarrow> dispatcher \<Rightarrow> bool" where
  "fresh_job rs k j d \<longleftrightarrow> jstream j = rs \<and> jpc j = Running \<and> kpc j = NoKill \<and> \<not> flagKilled j \<and>
     \<not> spawned j \<and> kills j = 0 \<and>
     (jkind j = SpoolJob \<and> d = SpoolCancelationDispatch rs k \<or> jkind j = SpawnJob \<and> d = SpawnDispatch rs k)"

inductive loop_trans :: "conn \<Rightarrow> conn \<Rightarrow> bool" for c :: conn where
  ends: "c' = conn_return (c\<lparr>inp := i\<rparr>) \<Longrightarrow> loop_trans c c'"
| skips: "c' = c\<lparr>inp := i\<rparr> \<Longrightarrow> loop_trans c c'"
| finds: "c' = c\<lparr>inp := i, pc := Handling h ch n d\<rparr> \<Longrightarrow> sess c ch = Some d \<Longrightarrow> loop_trans c c'"
| opens: "c' = c\<lparr>inp := i, highestChannel := ch, pc := Handling h ch n (InitialDispatch (newResponseStream ch))\<rparr> \<Longrightarrow>
    highestChannel c < ch \<Longrightarrow> sess c ch = None \<Longrightarrow> loop_trans c c'"
| drops: "c' = c\<lparr>inp := i, sess := (sess c)(ch := None), pc := Reading\<rparr> \<Longrightarrow> loop_trans c c'"
| refuses: "c' = c\<lparr>inp := i, sent := sent c @ fs, sess := (sess c)(ch := None), pc := Reading\<rparr> \<Longrightarrow>
    pc c = Handling h ch n (InitialDispatch rs) \<Longrightarrow> reply (broken c) ch m fs \<Longrightarrow> loop_trans c c'"
| starts: "c' = c\<lparr>inp := i, jobs := jobs c @ [j], pc := Attaching ch d\<rparr> \<Longrightarrow>
    pc c = Handling h ch n (InitialDispatch rs) \<Longrightarrow> fresh_job rs (length (jobs c)) j d \<Longrightarrow> loop_trans c c'"
| cancels: "c' = c\<lparr>inp := i, sent := sent c @ fs, sess := (sess c)(ch := None), pc := Reading,
      jobs := (jobs c)[k := (jobs c ! k)\<lparr>cancelled := True\<rparr>]\<rparr> \<Longrightarrow>
    pc c = Handling h ch n (SpoolCancelationDispatch rs k) \<Longrightarrow> reply (broken c) ch m fs \<Longrightarrow> loop_trans c c'"
| kills: "c' = c\<lparr>inp := i, sess := (sess c)(ch := None), pc := Reading,
      jobs := (jobs c)[k := (jobs c ! k)\<lparr>kpc := KillSelect\<rparr>]\<rparr> \<Longrightarrow>
    pc c = Handling h ch n (SpawnDispatch rs k) \<Longrightarrow> loop_trans c c'"
| attaches: "c' = c\<lparr>sess := (sess c)(ch \<mapsto> d), pc := Reading\<rparr> \<Longrightarrow> pc c = Attaching ch d \<Longrightarrow> loop_trans c c'"

lemma conn_return_alt: "conn_return c = c\<lparr>pc := Returned, jobs := map (\<lambda>j. j\<lparr>cancelled := True\<rparr>) (jobs c)\<rparr>"
  by (simp add: conn_return_def)

lemma skip_headers_inp: "\<exists>i. skip_headers h c = c\<lparr>inp := i\<rparr>"
  by (cases h) (auto simp: skip_headers_def skip_ignore_def intro: exI [of _ "inp c"])

lemma conn_detached_inp: "\<exists>i. conn_detached h c = c\<lparr>inp := i\<rparr>"
proof -
  obtain i where "skip_headers h (skip_ignore c) = (skip_ignore c)\<lparr>inp := i\<rparr>"
    using skip_headers_inp by blast
  then show ?thesis by (auto simp: conn_detached_def skip_ignore_def)
qed

lemma conn_read_trans: "loop_trans c (conn_read c)"
proof -
  obtain res i where next_eq: "conn_next (inp c) = (res, i)" by (rule prod.exhaust)
  show ?thesis
  proof (cases res)
    case (Inl e)
    then show ?thesis by (auto simp: conn_read_def next_eq intro: ends)
  next
    case (Inr m)
    obtain h ch n where m: "m = (h, ch, n)" by (metis prod.exhaust)
    show ?thesis
    proof (cases "sess c ch")
      case (Some d)
      then show ?thesis by (auto simp: conn_read_def next_eq Inr m Get_def intro: finds)
    next
      case None
      obtain i' where "conn_detached h (c\<lparr>inp := i\<rparr>) = c\<lparr>inp := i'\<rparr>"
        using conn_detached_inp [of h "c\<lparr>inp := i\<rparr>"] by auto
      then show ?thesis using None
        by (auto simp: conn_read_def next_eq Inr m Get_def Let_def intro: skips opens)
    qed
  qed
qed

text \<open>The dispatchers: what is read goes into \<^const>\<open>inp\<close>, and only there until the handler decides.\<close>

definition only_input :: "(herr, conn, 'a) rd \<Rightarrow> bool" where
  "only_input f \<longleftrightarrow> (\<forall>c. \<exists>i. snd (f c) = c\<lparr>inp := i\<rparr>)"

lemma only_input_lift: "only_input (lift f)"
  by (auto simp: only_input_def lift_def split: prod.splits sum.splits)

lemma only_input_bind:
  assumes "only_input f" "\<And>x. only_input (g x)"
  shows "only_input (rd_bind f g)"
  unfolding only_input_def
proof
  fix c
  obtain res c1 where f: "f c = (res, c1)" by (rule prod.exhaust)
  then obtain i where "c1 = c\<lparr>inp := i\<rparr>" using assms(1) unfolding only_input_def by (metis snd_conv)
  moreover have "\<exists>i. snd (g x c1) = c1\<lparr>inp := i\<rparr>" for x
    using assms(2) by (simp add: only_input_def)
  ultimately show "\<exists>i. snd (rd_bind f g c) = c\<lparr>inp := i\<rparr>"
    using f by (cases res) (auto simp: rd_bind_def)
qed

definition outcome :: "responseStream \<Rightarrow> conn \<Rightarrow> (herr + dispatcher option) \<times> conn \<Rightarrow> bool" where
  "outcome rs c o' \<longleftrightarrow> (\<exists>i.
     (\<exists>e. o' = (Inl e, c\<lparr>inp := i\<rparr>)) \<or>
     (\<exists>e m fs. o' = (Inl e, c\<lparr>inp := i, sent := sent c @ fs, sess := (sess c)(rchannel rs := None)\<rparr>) \<and>
        e \<noteq> ErrInvalidArgsNum \<and> reply (broken c) (rchannel rs) m fs) \<or>
     (\<exists>j d. o' = (Inr (Some d), c\<lparr>inp := i, jobs := jobs c @ [j]\<rparr>) \<and> fresh_job rs (length (jobs c)) j d))"

lemma outcome_input: "outcome rs (c\<lparr>inp := i\<rparr>) o' \<Longrightarrow> outcome rs c o'"
  by (fastforce simp: outcome_def)

lemma outcome_fail: "outcome rs c (rd_fail e (c\<lparr>inp := i\<rparr>))"
  by (auto simp: outcome_def rd_fail_def)

lemma outcome_bind:
  assumes "only_input f" "\<And>x c. outcome rs c (g x c)"
  shows "outcome rs c (rd_bind f g c)"
proof -
  obtain res c1 where f: "f c = (res, c1)" by (rule prod.exhaust)
  then obtain i where c1: "c1 = c\<lparr>inp := i\<rparr>" using assms(1) unfolding only_input_def by (metis snd_conv)
  show ?thesis
  proof (cases res)
    case (Inl e)
    then show ?thesis using f c1 by (auto simp: rd_bind_def outcome_def)
  next
    case (Inr x)
    then show ?thesis using f c1 outcome_input [OF assms(2)] by (simp add: rd_bind_def)
  qed
qed

lemma outcome_Error:
  assumes "\<not> rclosed rs" "e \<noteq> ErrInvalidArgsNum"
  shows "outcome rs c (Inl e, snd (rs_Error rs n cd msg c))"
proof -
  obtain fs where "snd (rs_Error rs n cd msg c) = c\<lparr>sent := sent c @ fs, sess := (sess c)(rchannel rs := None)\<rparr>"
    "reply (broken c) (rchannel rs) n fs"
    using rs_Error_effect [OF assms(1)] by metis
  moreover have "c\<lparr>inp := inp c\<rparr> = c" by simp
  ultimately show ?thesis using assms(2) unfolding outcome_def by metis
qed

lemma outcome_start:
  assumes "fresh_job rs (length (jobs c)) j d"
  shows "outcome rs c (Inr (Some d), start_job j c)"
proof -
  have "start_job j c = c\<lparr>inp := inp c, jobs := jobs c @ [j]\<rparr>" by (simp add: start_job_def)
  then show ?thesis using assms unfolding outcome_def by metis
qed

lemma onSpool_outcome: "\<not> rclosed rs \<Longrightarrow> outcome rs c (onSpool boxes rs opts name c)"
  by (auto simp: onSpool_def fresh_job_def new_job_def split: sum.split intro!: outcome_Error outcome_start)

lemma onSpawn_outcome: "\<not> rclosed rs \<Longrightarrow> outcome rs c (onSpawn boxes rs opts name exe args env c)"
  by (auto simp: onSpawn_def fresh_job_def new_job_def split: sum.split intro!: outcome_Error outcome_start)

lemma only_input_return: "only_input (rd_return x)" "only_input (rd_fail e)"
  by (auto simp: only_input_def rd_return_def rd_fail_def) (metis conn.surjective conn.update_convs(1))+

lemma only_input_checkSize: "only_input (checkSize n)"
  by (auto simp: checkSize_def intro!: only_input_bind only_input_lift only_input_return)

lemma only_input_profile: "only_input read_profile"
  by (auto simp: read_profile_def intro!: only_input_bind only_input_lift only_input_return)

lemma initial_Handle_outcome:
  assumes "\<not> rclosed rs"
  shows "outcome rs c (initial_Handle boxes rs num c)"
  using outcome_fail [of rs c _ "inp c"]
  by (auto simp: initial_Handle_def assms intro!: outcome_bind only_input_lift only_input_checkSize
      only_input_profile onSpool_outcome onSpawn_outcome)

lemma conn_handle_initial:
  assumes pc: "pc c = Handling h ch n (InitialDispatch rs)" and rs: "\<not> rclosed rs" "rchannel rs = ch"
  shows "loop_trans c (conn_handle boxes h ch n (InitialDispatch rs) c)"
proof -
  obtain res c1 where I: "initial_Handle boxes rs n c = (res, c1)" by (rule prod.exhaust)
  obtain i where hd: "skip_headers h c1 = c1\<lparr>inp := i\<rparr>" using skip_headers_inp by blast
  have "outcome rs c (res, c1)" using initial_Handle_outcome [OF rs(1), of c boxes n] I by simp
  then show ?thesis
    unfolding outcome_def
  proof (elim exE disjE conjE)
    fix i' e assume "(res, c1) = (Inl e, c\<lparr>inp := i'\<rparr>)"
    then show ?thesis
      using I hd
      by (cases e) (auto simp: conn_handle_def Handle_def Detach_def intro: ends drops)
  next
    fix i' e m fs
    assume "(res, c1) = (Inl e, c\<lparr>inp := i', sent := sent c @ fs, sess := (sess c)(rchannel rs := None)\<rparr>)"
      "e \<noteq> ErrInvalidArgsNum" and r: "reply (broken c) (rchannel rs) m fs"
    then have "conn_handle boxes h ch n (InitialDispatch rs) c =
        c\<lparr>inp := i, sent := sent c @ fs, sess := (sess c)(ch := None), pc := Reading\<rparr>"
      using I hd rs(2) by (cases e) (simp_all add: conn_handle_def Handle_def Detach_def)
    then show ?thesis by (rule refuses [OF _ pc r [unfolded rs(2)]])
  next
    fix i' j d'
    assume "(res, c1) = (Inr (Some d'), c\<lparr>inp := i', jobs := jobs c @ [j]\<rparr>)"
      and f: "fresh_job rs (length (jobs c)) j d'"
    then have "conn_handle boxes h ch n (InitialDispatch rs) c = c\<lparr>inp := i, jobs := jobs c @ [j], pc := Attaching ch d'\<rparr>"
      using I hd by (simp add: conn_handle_def Handle_def)
    then show ?thesis by (rule starts [OF _ pc f])
  qed
qed

lemma conn_handle_spool:
  assumes pc: "pc c = Handling h ch n (SpoolCancelationDispatch rs k)" and rs: "\<not> rclosed rs" "rchannel rs = ch"
  shows "loop_trans c (conn_handle boxes h ch n (SpoolCancelationDispatch rs k) c)"
proof (cases "n = spoolCancel")
  case True
  let ?c1 = "cancel_job k (skip_ignore c)"
  obtain fs where cl: "snd (rs_Close rs replySpoolOk ?c1) = ?c1\<lparr>sent := sent ?c1 @ fs, sess := (sess ?c1)(ch := None)\<rparr>"
    and r: "reply (broken ?c1) ch replySpoolOk fs"
    by (rule rs_Close_effect [OF rs(1), of replySpoolOk ?c1, unfolded rs(2)])
  obtain i where "skip_headers h (snd (rs_Close rs replySpoolOk ?c1)) = (snd (rs_Close rs replySpoolOk ?c1))\<lparr>inp := i\<rparr>"
    using skip_headers_inp by blast
  then have "conn_handle boxes h ch n (SpoolCancelationDispatch rs k) c = c\<lparr>inp := i, sent := sent c @ fs, sess := (sess c)(ch := None),
      pc := Reading, jobs := (jobs c)[k := (jobs c ! k)\<lparr>cancelled := True\<rparr>]\<rparr>"
    using True cl
    by (simp add: conn_handle_def Handle_def spool_Handle_def Detach_def cancel_job_def upd_job_def skip_ignore_def)
  moreover have "broken ?c1 = broken c" by (simp add: cancel_job_def upd_job_def skip_ignore_def)
  ultimately show ?thesis using r by (auto intro!: cancels [OF _ pc])
next
  case False
  obtain i where "skip_headers h c = c\<lparr>inp := i\<rparr>" using skip_headers_inp by blast
  then show ?thesis using False
    by (auto simp: conn_handle_def Handle_def spool_Handle_def Detach_def intro: drops)
qed

lemma conn_handle_spawn:
  assumes pc: "pc c = Handling h ch n (SpawnDispatch rs k)"
  shows "loop_trans c (conn_handle boxes h ch n (SpawnDispatch rs k) c)"
proof (cases "n = spawnKill")
  case True
  let ?c1 = "request_kill k (skip_ignore c)"
  obtain i where "skip_headers h ?c1 = ?c1\<lparr>inp := i\<rparr>" using skip_headers_inp by blast
  then have "conn_handle boxes h ch n (SpawnDispatch rs k) c = c\<lparr>inp := i, sess := (sess c)(ch := None), pc := Reading,
      jobs := (jobs c)[k := (jobs c ! k)\<lparr>kpc := KillSelect\<rparr>]\<rparr>"
    using True
    by (simp add: conn_handle_def Handle_def spawn_Handle_def Detach_def request_kill_def upd_job_def skip_ignore_def)
  then show ?thesis by (rule kills [OF _ pc])
next
  case False
  obtain i where "skip_headers h c = c\<lparr>inp := i\<rparr>" using skip_headers_inp by blast
  then show ?thesis using False
    by (auto simp: conn_handle_def Handle_def spawn_Handle_def Detach_def intro: drops)
qed

section \<open>The invariant\<close>

abbreviation (input) jchannel :: "job \<Rightarrow> u64" where "jchannel j \<equiv> rchannel (jstream j)"

text \<open>The jobs: each in a legal state, on its own open channel, cancelled once \<^verbatim>\<open>HandleConn\<close> returned.\<close>

definition jobs_ok :: "conn \<Rightarrow> bool" where
  "jobs_ok c \<longleftrightarrow>
     (\<forall>k<length (jobs c). job_ok (jobs c ! k) \<and> \<not> rclosed (jstream (jobs c ! k)) \<and>
        jchannel (jobs c ! k) \<le> highestChannel c \<and> (pc c = Returned \<longrightarrow> cancelled (jobs c ! k))) \<and>
     (\<forall>k<length (jobs c). \<forall>l<length (jobs c). jchannel (jobs c ! k) = jchannel (jobs c ! l) \<longrightarrow> k = l)"

text \<open>The dispatcher of a channel: attached, about to be attached, or about to be called.\<close>

definition holds :: "conn \<Rightarrow> u64 \<Rightarrow> dispatcher \<Rightarrow> bool" where
  "holds c ch d \<longleftrightarrow> sess c ch = Some d \<or> pc c = Attaching ch d \<or> (\<exists>h n. pc c = Handling h ch n d)"

definition disp_ok :: "job list \<Rightarrow> u64 \<Rightarrow> dispatcher \<Rightarrow> bool" where
  "disp_ok js ch d = (case d of
      InitialDispatch rs \<Rightarrow> rs = newResponseStream ch
    | SpoolCancelationDispatch rs k \<Rightarrow>
        k < length js \<and> jkind (js ! k) = SpoolJob \<and> jstream (js ! k) = rs \<and> rchannel rs = ch
    | SpawnDispatch rs k \<Rightarrow>
        k < length js \<and> jkind (js ! k) = SpawnJob \<and> jstream (js ! k) = rs \<and> rchannel rs = ch \<and>
        kpc (js ! k) = NoKill)"

text \<open>A channel that has just been opened: no job, no session, no reply.\<close>

definition fresh_channel :: "conn \<Rightarrow> u64 \<Rightarrow> bool" where
  "fresh_channel c ch \<longleftrightarrow> (\<forall>k<length (jobs c). jchannel (jobs c ! k) \<noteq> ch) \<and>
     (\<forall>x\<in>set (replies c). \<not> on_channel ch x) \<and> sess c ch = None"

definition sess_ok :: "conn \<Rightarrow> bool" where
  "sess_ok c \<longleftrightarrow>
     (\<forall>ch d. holds c ch d \<longrightarrow> ch \<le> highestChannel c \<and> disp_ok (jobs c) ch d) \<and>
     (\<forall>ch rs. sess c ch \<noteq> Some (InitialDispatch rs) \<and> pc c \<noteq> Attaching ch (InitialDispatch rs)) \<and>
     (\<forall>h ch n rs. pc c = Handling h ch n (InitialDispatch rs) \<longrightarrow> fresh_channel c ch)"

text \<open>
  The replies: every one on an opened channel, at most one that ends a spawn, and at most two on
  the channel of a spool, one by its goroutine and one by the cancellation.
\<close>

definition count_replies :: "((u64 \<times> u64) option \<Rightarrow> bool) \<Rightarrow> conn \<Rightarrow> nat" where
  "count_replies P c = length (filter P (replies c))"

definition sent_ok :: "conn \<Rightarrow> bool" where
  "sent_ok c \<longleftrightarrow>
     (\<forall>x\<in>set (replies c). \<exists>ch n. x = Some (ch, n) \<and> ch \<le> highestChannel c) \<and>
     (\<forall>k<length (jobs c). jkind (jobs c ! k) = SpawnJob \<longrightarrow>
        count_replies (terminal (jchannel (jobs c ! k))) c \<le> spawn_replies (jobs c ! k)) \<and>
     (\<forall>k<length (jobs c). jkind (jobs c ! k) = SpoolJob \<longrightarrow>
        count_replies (on_channel (jchannel (jobs c ! k))) c \<le>
          spool_replies (jobs c ! k) + (if \<exists>d. holds c (jchannel (jobs c ! k)) d then 0 else 1))"

definition conn_ok :: "conn \<Rightarrow> bool" where
  "conn_ok c \<longleftrightarrow> jobs_ok c \<and> sess_ok c \<and> sent_ok c"

lemma init_ok: "conn_ok (newConnectionHandler r)"
  by (simp add: conn_ok_def jobs_ok_def sess_ok_def sent_ok_def holds_def replies_def newConnectionHandler_def
      newSessions_def)

text \<open>Single updates of a job that keep it legal.\<close>

lemma job_ok_fresh: "fresh_job rs k j d \<Longrightarrow> job_ok j"
  by (auto simp: fresh_job_def job_ok_def finished_def handed_over_def)

lemma job_ok_cancelled: "job_ok j \<Longrightarrow> job_ok (j\<lparr>cancelled := True\<rparr>)"
  by (auto simp: job_ok_def finished_def handed_over_def)

lemma job_ok_request: "job_ok j \<Longrightarrow> kpc j = NoKill \<Longrightarrow> jkind j = SpawnJob \<Longrightarrow> job_ok (j\<lparr>kpc := KillSelect\<rparr>)"
  by (auto simp: job_ok_def finished_def handed_over_def split: if_splits)

lemma nth_update: "xs[i := x] ! j = (if i = j \<and> i < length xs then x else xs ! j)"
  by (cases "i < length xs") (auto simp: list_update_beyond)

lemma holds_intros:
  "sess c ch = Some d \<Longrightarrow> holds c ch d" "pc c = Attaching ch d \<Longrightarrow> holds c ch d"
  "pc c = Handling h ch n d \<Longrightarrow> holds c ch d"
  by (simp_all add: holds_def)

lemma sess_okD:
  assumes "sess_ok c" "holds c ch d"
  shows "ch \<le> highestChannel c" "disp_ok (jobs c) ch d"
  using assms by (simp_all add: sess_ok_def)

lemma jobs_okD:
  assumes "jobs_ok c" "k < length (jobs c)"
  shows "job_ok (jobs c ! k)" "\<not> rclosed (jstream (jobs c ! k))" "jchannel (jobs c ! k) \<le> highestChannel c"
    "pc c = Returned \<Longrightarrow> cancelled (jobs c ! k)"
    "l < length (jobs c) \<Longrightarrow> jchannel (jobs c ! l) = jchannel (jobs c ! k) \<Longrightarrow> l = k"
  using assms by (simp_all add: jobs_ok_def)

text \<open>Changing one job keeps \<^const>\<open>jobs_ok\<close> when the job stays legal and on its channel.\<close>

lemma jobs_ok_update:
  assumes "jobs_ok c" "jobs c' = (jobs c)[k := j']" "highestChannel c' = highestChannel c"
    "pc c' = Returned \<Longrightarrow> pc c = Returned"
    "k < length (jobs c) \<Longrightarrow> job_ok j'" "jstream j' = jstream (jobs c ! k)"
    "k < length (jobs c) \<Longrightarrow> cancelled (jobs c ! k) \<Longrightarrow> cancelled j'"
  shows "jobs_ok c'"
proof -
  have "jchannel (jobs c' ! l) = jchannel (jobs c ! l)" if "l < length (jobs c)" for l
    using that assms(2,6) by (cases "l = k") (auto simp: nth_update)
  moreover have "job_ok (jobs c' ! l) \<and> \<not> rclosed (jstream (jobs c' ! l)) \<and> (pc c' = Returned \<longrightarrow> cancelled (jobs c' ! l))"
    if "l < length (jobs c)" for l
    using that assms jobs_okD [OF assms(1) that] by (cases "l = k") auto
  ultimately show ?thesis
    using assms(1,2,3) by (simp add: jobs_ok_def)
qed

lemma jobs_ok_same:
  assumes "jobs_ok c" "jobs c' = jobs c" "highestChannel c \<le> highestChannel c'"
    "pc c' = Returned \<Longrightarrow> pc c = Returned"
  shows "jobs_ok c'"
  using assms order_trans [OF _ assms(3)] by (auto simp: jobs_ok_def)

lemma jobs_ok_append:
  assumes "jobs_ok c" "jobs c' = jobs c @ [j]" "highestChannel c' = highestChannel c" "pc c' \<noteq> Returned"
    "job_ok j" "\<not> rclosed (jstream j)" "jchannel j \<le> highestChannel c"
    "\<forall>k<length (jobs c). jchannel (jobs c ! k) \<noteq> jchannel j"
  shows "jobs_ok c'"
  using assms by (auto simp: jobs_ok_def nth_append less_Suc_eq)

lemma jobs_ok_cancel_all: "jobs_ok c \<Longrightarrow> jobs_ok (conn_return (c\<lparr>inp := i\<rparr>))"
  by (simp add: jobs_ok_def conn_return_alt job_ok_cancelled)

lemma loop_trans_jobs:
  assumes "loop_trans c c'" "jobs_ok c" "sess_ok c"
  shows "jobs_ok c'"
  using assms(1)
proof (cases rule: loop_trans.cases)
  case (starts ch d j i h n rs)
  note holds_intros(3) [OF starts(2)]
  note sess_okD [OF assms(3) this]
  moreover have "fresh_channel c ch" using starts(2) assms(3) by (simp add: sess_ok_def)
  moreover have "jstream j = rs" using starts(3) by (simp add: fresh_job_def)
  ultimately show ?thesis
    using starts(1) job_ok_fresh [OF starts(3)]
    by (intro jobs_ok_append [OF assms(2)]) (auto simp: disp_ok_def newResponseStream_def fresh_channel_def)
next
  case (kills k ch i h n rs)
  note holds_intros(3) [OF kills(2)]
  note sess_okD(2) [OF assms(3) this]
  then show ?thesis
    using kills(1) jobs_okD(1) [OF assms(2), of k]
    by (intro jobs_ok_update [OF assms(2), of _ k "(jobs c ! k)\<lparr>kpc := KillSelect\<rparr>"])
      (auto simp: disp_ok_def intro: job_ok_request)
next
  case (cancels k ch fs i h n rs m)
  then show ?thesis
    using jobs_okD(1) [OF assms(2), of k]
    by (intro jobs_ok_update [OF assms(2), of _ k "(jobs c ! k)\<lparr>cancelled := True\<rparr>"])
      (auto intro: job_ok_cancelled)
qed (auto intro: jobs_ok_same [OF assms(2)] jobs_ok_cancel_all [OF assms(2)])

lemma job_effect_jobs:
  assumes "job_effect i c c'" "jobs_ok c" "i < length (jobs c)"
  shows "jobs_ok c'"
proof -
  from assms(1) obtain fs s no j'
    where c': "c' = c\<lparr>sent := sent c @ fs, sess := s, jobs := (jobs c)[i := j']\<rparr>"
    and j: "job_trans (pc c = Returned) (jobs c ! i) no j'"
    by (auto simp: job_effect_def)
  show ?thesis
    using c' job_trans_ok [OF j] job_trans_frame [OF j] jobs_okD [OF assms(2,3)]
    by (intro jobs_ok_update [OF assms(2), of _ i j']) auto
qed

text \<open>The sessions.\<close>

lemma sess_okI:
  assumes "\<And>ch d. holds c ch d \<Longrightarrow> ch \<le> highestChannel c \<and> disp_ok (jobs c) ch d"
    "\<And>ch rs. sess c ch \<noteq> Some (InitialDispatch rs)" "\<And>ch rs. pc c \<noteq> Attaching ch (InitialDispatch rs)"
    "\<And>h ch n rs. pc c = Handling h ch n (InitialDispatch rs) \<Longrightarrow> fresh_channel c ch"
  shows "sess_ok c"
  using assms unfolding sess_ok_def by blast

lemma sess_ok_no_initial:
  assumes "sess_ok c"
  shows "sess c ch \<noteq> Some (InitialDispatch rs)" "pc c \<noteq> Attaching ch (InitialDispatch rs)"
    "pc c = Handling h ch n (InitialDispatch rs) \<Longrightarrow> fresh_channel c ch"
  using assms unfolding sess_ok_def by blast+

lemma disp_ok_update:
  assumes "disp_ok js ch d" "jstream j' = jstream (js ! k)" "jkind j' = jkind (js ! k)"
    "kpc (js ! k) = NoKill \<Longrightarrow> kpc j' = NoKill"
  shows "disp_ok (js[k := j']) ch d"
  using assms by (cases "k < length js"; cases d) (auto simp: disp_ok_def nth_update)

lemma disp_ok_append: "disp_ok js ch d \<Longrightarrow> disp_ok (js @ [j]) ch d"
  by (cases d) (auto simp: disp_ok_def nth_append)

lemma disp_ok_map: "disp_ok js ch d \<Longrightarrow> disp_ok (map (\<lambda>j. j\<lparr>cancelled := True\<rparr>) js) ch d"
  by (cases d) (auto simp: disp_ok_def)

text \<open>When a step attaches nothing and no job loses what its dispatcher relies on.\<close>

lemma sess_ok_shrink:
  assumes "sess_ok c" "\<And>ch d. holds c' ch d \<Longrightarrow> holds c ch d" "highestChannel c' = highestChannel c"
    "\<And>ch d. holds c' ch d \<Longrightarrow> disp_ok (jobs c) ch d \<Longrightarrow> disp_ok (jobs c') ch d"
    "\<And>ch d. sess c' ch = Some d \<Longrightarrow> sess c ch = Some d"
    "\<And>ch d. pc c' = Attaching ch d \<Longrightarrow> pc c = Attaching ch d"
    "\<And>h ch n rs. pc c' = Handling h ch n (InitialDispatch rs) \<Longrightarrow> fresh_channel c' ch"
  shows "sess_ok c'"
proof (rule sess_okI)
  show "holds c' ch d \<Longrightarrow> ch \<le> highestChannel c' \<and> disp_ok (jobs c') ch d" for ch d
    using assms(2-4) sess_okD [OF assms(1)] by metis
qed (use assms sess_ok_no_initial [OF assms(1)] in blast)+

lemma fresh_channel_update:
  assumes "fresh_channel c ch" "k < length (jobs c)" "jstream j' = jstream (jobs c ! k)"
    "c' = c\<lparr>sent := sent c @ fs, sess := s, jobs := (jobs c)[k := j']\<rparr>"
    "replied (broken c) (jchannel (jobs c ! k)) no fs"
    "s = sess c \<or> s = (sess c)(jchannel (jobs c ! k) := None)"
  shows "fresh_channel c' ch"
proof -
  have "jchannel (jobs c ! k) \<noteq> ch" using assms(1,2) by (simp add: fresh_channel_def)
  then have "\<not> on_channel ch x" if "x \<in> set (map frame_id fs)" for x
    using assms(5) that
    by (auto simp: replied_def reply_def on_channel_def split: option.splits if_splits)
  then show ?thesis
    using assms by (auto simp: fresh_channel_def replies_def nth_update)
qed

lemma job_effect_sess:
  assumes "job_effect i c c'" "sess_ok c" "i < length (jobs c)"
  shows "sess_ok c'"
proof -
  from assms(1) obtain fs s no j'
    where c': "c' = c\<lparr>sent := sent c @ fs, sess := s, jobs := (jobs c)[i := j']\<rparr>"
    and fs: "replied (broken c) (jchannel (jobs c ! i)) no fs"
    and s: "s = sess c \<or> s = (sess c)(jchannel (jobs c ! i) := None)"
    and j: "job_trans (pc c = Returned) (jobs c ! i) no j'"
    by (auto simp: job_effect_def)
  note fr = job_trans_frame [OF j]
  show ?thesis
  proof (rule sess_ok_shrink [OF assms(2)])
    show "pc c' = Handling h ch n (InitialDispatch rs) \<Longrightarrow> fresh_channel c' ch" for h ch n rs
      using fresh_channel_update [OF sess_ok_no_initial(3) [OF assms(2)] assms(3) _ c' fs s] fr c' by simp
    show "disp_ok (jobs c) ch d \<Longrightarrow> disp_ok (jobs c') ch d" for ch d
      using c' fr by (auto intro: disp_ok_update)
  qed (use c' s in \<open>auto simp: holds_def split: if_splits\<close>)
qed

text \<open>The steps of the loop that replace the sessions by fewer.\<close>

lemma sess_ok_drop:
  assumes "sess_ok c" "sess c' = sess c \<or> sess c' = (sess c)(ch := None)" "pc c' \<in> {Reading, Returned}"
    "highestChannel c' = highestChannel c"
    "\<And>ch d. sess c' ch = Some d \<Longrightarrow> disp_ok (jobs c) ch d \<Longrightarrow> disp_ok (jobs c') ch d"
  shows "sess_ok c'"
  by (rule sess_ok_shrink [OF assms(1)]) (use assms in \<open>auto simp: holds_def split: if_splits\<close>)

lemma sess_ok_kill:
  assumes "sess_ok c" "pc c = Handling h ch n (SpawnDispatch rs k)"
    "sess c' = (sess c)(ch := None)" "jobs c' = (jobs c)[k := (jobs c ! k)\<lparr>kpc := KillSelect\<rparr>]"
    "pc c' = Reading" "highestChannel c' = highestChannel c"
  shows "sess_ok c'"
proof (rule sess_ok_drop [OF assms(1), of _ ch])
  have "disp_ok (jobs c) ch (SpawnDispatch rs k)"
    using sess_okD(2) [OF assms(1) holds_intros(3) [OF assms(2)]] .
  then have k: "k < length (jobs c)" "jchannel (jobs c ! k) = ch" "jkind (jobs c ! k) = SpawnJob"
    by (auto simp: disp_ok_def)
  fix ch' d assume "sess c' ch' = Some d" "disp_ok (jobs c) ch' d"
  then show "disp_ok (jobs c') ch' d"
    using assms(3,4) k by (cases d) (auto simp: disp_ok_def nth_update split: if_splits)
qed (use assms in auto)

lemma sess_ok_start:
  assumes "sess_ok c" "pc c = Handling h ch n (InitialDispatch rs)" "fresh_job rs (length (jobs c)) j d"
    "sess c' = sess c" "jobs c' = jobs c @ [j]" "pc c' = Attaching ch d" "highestChannel c' = highestChannel c"
  shows "sess_ok c'"
proof (rule sess_okI)
  note h = sess_okD [OF assms(1) holds_intros(3) [OF assms(2)]]
  then have rs: "rs = newResponseStream ch" by (simp add: disp_ok_def)
  then have d: "disp_ok (jobs c') ch d"
    using assms(3,5) by (auto simp: fresh_job_def disp_ok_def newResponseStream_def)
  fix ch' d' assume "holds c' ch' d'"
  then consider "sess c ch' = Some d'" | "ch' = ch" "d' = d"
    using assms(4,6) by (auto simp: holds_def)
  then show "ch' \<le> highestChannel c' \<and> disp_ok (jobs c') ch' d'"
  proof cases
    case 1
    then show ?thesis
      using sess_okD [OF assms(1) holds_intros(1)] assms(5,7) by (simp add: disp_ok_append)
  next
    case 2
    then show ?thesis using h(1) d assms(7) by simp
  qed
qed (use assms sess_ok_no_initial [OF assms(1)] in \<open>auto simp: fresh_job_def\<close>)

lemma loop_trans_sess:
  assumes "loop_trans c c'" "jobs_ok c" "sess_ok c" "sent_ok c"
  shows "sess_ok c'"
  using assms(1)
proof (cases rule: loop_trans.cases)
  case ends
  then show ?thesis
    by (intro sess_ok_drop [OF assms(3)]) (auto simp: conn_return_alt disp_ok_map)
next
  case skips
  then show ?thesis
    using sess_ok_no_initial(3) [OF assms(3)]
    by (intro sess_ok_shrink [OF assms(3)]) (auto simp: holds_def fresh_channel_def replies_def)
next
  case (finds h ch n d i)
  then show ?thesis
    using sess_ok_no_initial(1) [OF assms(3)]
    by (intro sess_ok_shrink [OF assms(3)]) (auto simp: holds_def)
next
  case (opens h ch n i)
  have "fresh_channel c' ch"
    using opens assms(2,4)
    by (fastforce simp: fresh_channel_def replies_def jobs_ok_def sent_ok_def on_channel_def)
  moreover have "sess c ch' = Some d \<Longrightarrow> ch' \<le> ch \<and> disp_ok (jobs c) ch' d" for ch' d
    using sess_okD [OF assms(3) holds_intros(1)] opens(2) by fastforce
  ultimately show ?thesis
    using opens sess_ok_no_initial [OF assms(3)]
    by (intro sess_okI) (auto simp: holds_def disp_ok_def)
next
  case (starts ch d j i h n rs)
  then show ?thesis by (intro sess_ok_start [OF assms(3) starts(2,3)]) auto
next
  case (cancels k ch fs i h n rs m)
  then show ?thesis
    by (intro sess_ok_drop [OF assms(3), of _ ch]) (auto intro: disp_ok_update)
next
  case (kills k ch i h n rs)
  then show ?thesis by (intro sess_ok_kill [OF assms(3) kills(2)]) auto
next
  case (attaches ch d)
  then show ?thesis
    using sess_ok_no_initial [OF assms(3)] sess_okD [OF assms(3)] sess_okD [OF assms(3) holds_intros(2) [OF attaches(2)]]
    by (intro sess_okI) (auto simp: holds_def split: if_splits)
qed (auto intro: sess_ok_drop [OF assms(3)])

text \<open>The replies.\<close>

lemma count_replies_append:
  "sent c' = sent c @ fs \<Longrightarrow> count_replies P c' = count_replies P c + length (filter P (map frame_id fs))"
  by (simp add: count_replies_def replies_def)

lemma count_replies_same: "sent c' = sent c \<Longrightarrow> count_replies P c' = count_replies P c"
  by (simp add: count_replies_def replies_def)

lemma replied_count:
  assumes "replied br ch no fs"
  shows "length (filter (on_channel ch') (map frame_id fs)) \<le> (if ch = ch' \<and> no \<noteq> None then 1 else 0)"
    "length (filter (terminal ch') (map frame_id fs)) \<le> (if ch = ch' \<and> no \<noteq> None then 1 else 0)"
  using assms by (auto simp: replied_def reply_def on_channel_def terminal_def split: option.splits if_splits)

lemma replied_channels:
  "replied br ch no fs \<Longrightarrow> x \<in> set (map frame_id fs) \<Longrightarrow> \<exists>n. x = Some (ch, n)"
  by (auto simp: replied_def reply_def split: option.splits if_splits)

definition spool_bound :: "conn \<Rightarrow> job \<Rightarrow> nat" where
  "spool_bound c j = spool_replies j + (if \<exists>d. holds c (jchannel j) d then 0 else 1)"

lemma sent_okI:
  assumes "\<And>x. x \<in> set (replies c) \<Longrightarrow> \<exists>ch n. x = Some (ch, n) \<and> ch \<le> highestChannel c"
    "\<And>k. k < length (jobs c) \<Longrightarrow> jkind (jobs c ! k) = SpawnJob \<Longrightarrow>
        count_replies (terminal (jchannel (jobs c ! k))) c \<le> spawn_replies (jobs c ! k)"
    "\<And>k. k < length (jobs c) \<Longrightarrow> jkind (jobs c ! k) = SpoolJob \<Longrightarrow>
        count_replies (on_channel (jchannel (jobs c ! k))) c \<le> spool_bound c (jobs c ! k)"
  shows "sent_ok c"
  using assms unfolding sent_ok_def spool_bound_def by blast

lemma sent_okD:
  assumes "sent_ok c"
  shows "x \<in> set (replies c) \<Longrightarrow> \<exists>ch n. x = Some (ch, n) \<and> ch \<le> highestChannel c"
    "k < length (jobs c) \<Longrightarrow> jkind (jobs c ! k) = SpawnJob \<Longrightarrow>
        count_replies (terminal (jchannel (jobs c ! k))) c \<le> spawn_replies (jobs c ! k)"
    "k < length (jobs c) \<Longrightarrow> jkind (jobs c ! k) = SpoolJob \<Longrightarrow>
        count_replies (on_channel (jchannel (jobs c ! k))) c \<le> spool_bound c (jobs c ! k)"
  using assms unfolding sent_ok_def spool_bound_def by blast+

text \<open>
  A step that changes jobs without losing room for replies and sends no more than it makes room for.
\<close>

lemma sent_ok_step:
  assumes "sent_ok c" "sent c' = sent c @ fs" "highestChannel c \<le> highestChannel c'"
    "length (jobs c') = length (jobs c)"
    "\<And>x. x \<in> set (map frame_id fs) \<Longrightarrow> \<exists>ch n. x = Some (ch, n) \<and> ch \<le> highestChannel c'"
    "\<And>k. k < length (jobs c) \<Longrightarrow> jstream (jobs c' ! k) = jstream (jobs c ! k) \<and> jkind (jobs c' ! k) = jkind (jobs c ! k)"
    "\<And>k. k < length (jobs c) \<Longrightarrow> jkind (jobs c ! k) = SpawnJob \<Longrightarrow>
       spawn_replies (jobs c ! k) + length (filter (terminal (jchannel (jobs c ! k))) (map frame_id fs)) \<le>
       spawn_replies (jobs c' ! k)"
    "\<And>k. k < length (jobs c) \<Longrightarrow> jkind (jobs c ! k) = SpoolJob \<Longrightarrow>
       spool_bound c (jobs c ! k) + length (filter (on_channel (jchannel (jobs c ! k))) (map frame_id fs)) \<le>
       spool_bound c' (jobs c' ! k)"
  shows "sent_ok c'"
proof (rule sent_okI)
  fix x assume "x \<in> set (replies c')"
  then have "x \<in> set (replies c) \<or> x \<in> set (map frame_id fs)" using assms(2) by (auto simp: replies_def)
  then show "\<exists>ch n. x = Some (ch, n) \<and> ch \<le> highestChannel c'"
    using sent_okD(1) [OF assms(1)] assms(3,5) by fastforce
next
  fix k assume k: "k < length (jobs c')" "jkind (jobs c' ! k) = SpawnJob"
  then show "count_replies (terminal (jchannel (jobs c' ! k))) c' \<le> spawn_replies (jobs c' ! k)"
    using sent_okD(2) [OF assms(1), of k] assms(6,7) [of k] assms(4) count_replies_append [OF assms(2)] by fastforce
next
  fix k assume k: "k < length (jobs c')" "jkind (jobs c' ! k) = SpoolJob"
  then show "count_replies (on_channel (jchannel (jobs c' ! k))) c' \<le> spool_bound c' (jobs c' ! k)"
    using sent_okD(3) [OF assms(1), of k] assms(6,8) [of k] assms(4) count_replies_append [OF assms(2)] by fastforce
qed

lemma spool_bound_mono:
  assumes "jstream j' = jstream j" "spool_replies j + n \<le> spool_replies j'"
    "\<And>d. holds c' (jchannel j) d \<Longrightarrow> \<exists>d. holds c (jchannel j) d"
  shows "spool_bound c j + n \<le> spool_bound c' j'"
  using assms unfolding spool_bound_def by auto

lemma job_effect_sent:
  assumes "job_effect i c c'" "jobs_ok c" "sent_ok c" "i < length (jobs c)"
  shows "sent_ok c'"
proof -
  from assms(1) obtain fs s no j'
    where c': "c' = c\<lparr>sent := sent c @ fs, sess := s, jobs := (jobs c)[i := j']\<rparr>"
    and fs: "replied (broken c) (jchannel (jobs c ! i)) no fs"
    and s: "s = sess c \<or> s = (sess c)(jchannel (jobs c ! i) := None)"
    and j: "job_trans (pc c = Returned) (jobs c ! i) no j'"
    by (auto simp: job_effect_def)
  note fr = job_trans_frame [OF j] and ok = jobs_okD [OF assms(2,4)]
  have h: "holds c' ch d \<Longrightarrow> holds c ch d" for ch d
    using c' s by (auto simp: holds_def split: if_splits)
  show ?thesis
  proof (rule sent_ok_step [OF assms(3), of _ fs])
    show "\<exists>ch n. x = Some (ch, n) \<and> ch \<le> highestChannel c'" if "x \<in> set (map frame_id fs)" for x
      using replied_channels [OF fs that] ok(3) c' by auto
  next
    fix k assume k: "k < length (jobs c)" "jkind (jobs c ! k) = SpawnJob"
    show "spawn_replies (jobs c ! k) + length (filter (terminal (jchannel (jobs c ! k))) (map frame_id fs))
        \<le> spawn_replies (jobs c' ! k)"
    proof (cases "k = i")
      case True
      then show ?thesis
        using job_trans_spawn_replies [OF j ok(1)] k replied_count(2) [OF fs, of "jchannel (jobs c ! k)"] c'
        by (simp split: if_splits)
    next
      case False
      then have "jchannel (jobs c ! i) \<noteq> jchannel (jobs c ! k)" using ok(5) [OF k(1)] by auto
      then show ?thesis
        using False replied_count(2) [OF fs, of "jchannel (jobs c ! k)"] c' by simp
    qed
  next
    fix k assume k: "k < length (jobs c)" "jkind (jobs c ! k) = SpoolJob"
    have "spool_replies (jobs c ! k) + length (filter (on_channel (jchannel (jobs c ! k))) (map frame_id fs))
        \<le> spool_replies (jobs c' ! k)"
    proof (cases "k = i")
      case True
      then show ?thesis
        using job_trans_spool_replies [OF j ok(1)] k replied_count(1) [OF fs, of "jchannel (jobs c ! k)"] c'
        by (simp split: if_splits)
    next
      case False
      then have "jchannel (jobs c ! i) \<noteq> jchannel (jobs c ! k)" using ok(5) [OF k(1)] by auto
      then show ?thesis
        using False replied_count(1) [OF fs, of "jchannel (jobs c ! k)"] c' by simp
    qed
    then show "spool_bound c (jobs c ! k) + length (filter (on_channel (jchannel (jobs c ! k))) (map frame_id fs))
        \<le> spool_bound c' (jobs c' ! k)"
      using h c' fr assms(4) by (intro spool_bound_mono) (auto simp: nth_update)
  qed (use c' fr assms(4) in \<open>auto simp: nth_update\<close>)
qed

lemma rs_Write_sent:
  assumes "jobs_ok c" "sent_ok c" "i < length (jobs c)" "jkind (jobs c ! i) = SpawnJob"
    and c': "c' = c\<lparr>sent := sent c @ fs\<rparr>" and fs: "reply (broken c) (jchannel (jobs c ! i)) replySpawnWrite fs"
  shows "sent_ok c'"
proof (rule sent_ok_step [OF assms(2), of _ fs])
  note ok = jobs_okD [OF assms(1,3)]
  show "\<exists>ch n. x = Some (ch, n) \<and> ch \<le> highestChannel c'" if "x \<in> set (map frame_id fs)" for x
    using fs that ok(3) c' by (auto simp: reply_def split: if_splits)
  show "spawn_replies (jobs c ! k) + length (filter (terminal (jchannel (jobs c ! k))) (map frame_id fs))
      \<le> spawn_replies (jobs c' ! k)" for k
    using fs c' by (auto simp: reply_def terminal_def)
  fix k assume k: "k < length (jobs c)" "jkind (jobs c ! k) = SpoolJob"
  then have "jchannel (jobs c ! k) \<noteq> jchannel (jobs c ! i)" using ok(5) [OF k(1)] assms(4) by auto
  then show "spool_bound c (jobs c ! k) + length (filter (on_channel (jchannel (jobs c ! k))) (map frame_id fs))
      \<le> spool_bound c' (jobs c' ! k)"
    using fs c' by (auto simp: reply_def on_channel_def spool_bound_def holds_def)
qed (use c' in auto)

text \<open>The loop: it only drops dispatchers, except for a job it has just started.\<close>

lemma sent_ok_quiet:
  assumes "sent_ok c" "sent c' = sent c" "highestChannel c \<le> highestChannel c'"
    "length (jobs c') = length (jobs c)"
    "\<And>k. k < length (jobs c) \<Longrightarrow> jstream (jobs c' ! k) = jstream (jobs c ! k) \<and> jkind (jobs c' ! k) = jkind (jobs c ! k)
       \<and> jpc (jobs c' ! k) = jpc (jobs c ! k) \<and> handed_over (jobs c' ! k) = handed_over (jobs c ! k)"
    "\<And>k d. k < length (jobs c) \<Longrightarrow> holds c' (jchannel (jobs c ! k)) d \<Longrightarrow> \<exists>d. holds c (jchannel (jobs c ! k)) d"
  shows "sent_ok c'"
  by (rule sent_ok_step [OF assms(1), of _ "[]"])
    (use assms in \<open>auto simp: spawn_replies_def spool_replies_def spool_bound_def finished_def\<close>)

lemma sent_ok_refuse:
  assumes "jobs_ok c" "sess_ok c" "sent_ok c" "pc c = Handling h ch n (InitialDispatch rs)"
    "reply (broken c) ch m fs" "c' = c\<lparr>inp := i, sent := sent c @ fs, sess := (sess c)(ch := None), pc := Reading\<rparr>"
  shows "sent_ok c'"
proof (rule sent_ok_step [OF assms(3), of _ fs])
  have "fresh_channel c ch" using sess_ok_no_initial(3) [OF assms(2,4)] .
  then have ne: "k < length (jobs c) \<Longrightarrow> ch \<noteq> jchannel (jobs c ! k)" for k
    by (auto simp: fresh_channel_def)
  have r: "replied (broken c) ch (Some m) fs" using assms(5) by (simp add: replied_def)
  show "\<exists>ch n. x = Some (ch, n) \<and> ch \<le> highestChannel c'" if "x \<in> set (map frame_id fs)" for x
    using replied_channels [OF r that] sess_okD(1) [OF assms(2) holds_intros(3) [OF assms(4)]] assms(6) by auto
  fix k assume k: "k < length (jobs c)"
  show "spawn_replies (jobs c ! k) + length (filter (terminal (jchannel (jobs c ! k))) (map frame_id fs))
      \<le> spawn_replies (jobs c' ! k)"
    using replied_count(2) [OF r, of "jchannel (jobs c ! k)"] ne [OF k] assms(6) by simp
  show "spool_bound c (jobs c ! k) + length (filter (on_channel (jchannel (jobs c ! k))) (map frame_id fs))
      \<le> spool_bound c' (jobs c' ! k)"
    using replied_count(1) [OF r, of "jchannel (jobs c ! k)"] ne [OF k] assms(6)
    by (intro spool_bound_mono) (auto simp: holds_def)
qed (use assms(6) in auto)

lemma sent_ok_cancel:
  assumes "jobs_ok c" "sess_ok c" "sent_ok c" "pc c = Handling h ch n (SpoolCancelationDispatch rs l)"
    "reply (broken c) ch m fs"
    "c' = c\<lparr>inp := i, sent := sent c @ fs, sess := (sess c)(ch := None), pc := Reading,
      jobs := (jobs c)[l := (jobs c ! l)\<lparr>cancelled := True\<rparr>]\<rparr>"
  shows "sent_ok c'"
proof (rule sent_ok_step [OF assms(3), of _ fs])
  note h = sess_okD [OF assms(2) holds_intros(3) [OF assms(4)]]
  then have l: "l < length (jobs c)" "jkind (jobs c ! l) = SpoolJob" "jchannel (jobs c ! l) = ch"
    by (auto simp: disp_ok_def)
  have ne: "k < length (jobs c) \<Longrightarrow> k \<noteq> l \<Longrightarrow> ch \<noteq> jchannel (jobs c ! k)" for k
    using jobs_okD(5) [OF assms(1) l(1), of k] l(3) by auto
  have r: "replied (broken c) ch (Some m) fs" using assms(5) by (simp add: replied_def)
  show "\<exists>ch n. x = Some (ch, n) \<and> ch \<le> highestChannel c'" if "x \<in> set (map frame_id fs)" for x
    using replied_channels [OF r that] h(1) assms(6) by auto
  fix k assume k: "k < length (jobs c)"
  show "spawn_replies (jobs c ! k) + length (filter (terminal (jchannel (jobs c ! k))) (map frame_id fs))
      \<le> spawn_replies (jobs c' ! k)" if "jkind (jobs c ! k) = SpawnJob"
    using replied_count(2) [OF r, of "jchannel (jobs c ! k)"] ne [OF k] that l assms(6)
    by (cases "k = l") (simp_all add: spawn_replies_def)
  show "spool_bound c (jobs c ! k) + length (filter (on_channel (jchannel (jobs c ! k))) (map frame_id fs))
      \<le> spool_bound c' (jobs c' ! k)" if "jkind (jobs c ! k) = SpoolJob"
  proof (cases "k = l")
    case True
    have "\<exists>d. holds c ch d" "\<not> (\<exists>d. holds c' ch d)"
      using holds_intros(3) [OF assms(4)] assms(6) by (auto simp: holds_def)
    then show ?thesis
      using True l replied_count(1) [OF r, of ch] assms(6) by (simp add: spool_bound_def spool_replies_def)
  next
    case False
    then show ?thesis
      using replied_count(1) [OF r, of "jchannel (jobs c ! k)"] ne [OF k] assms(6)
      by (intro spool_bound_mono) (auto simp: holds_def split: if_splits)
  qed
qed (use assms(6) in \<open>auto simp: nth_update\<close>)

lemma sent_ok_start:
  assumes "sess_ok c" "sent_ok c" "pc c = Handling h ch n (InitialDispatch rs)"
    "fresh_job rs (length (jobs c)) j d" "c' = c\<lparr>inp := i, jobs := jobs c @ [j], pc := Attaching ch d\<rparr>"
  shows "sent_ok c'"
proof (rule sent_okI)
  have fr: "fresh_channel c ch" using sess_ok_no_initial(3) [OF assms(1,3)] .
  have "rs = newResponseStream ch" using sess_okD(2) [OF assms(1) holds_intros(3) [OF assms(3)]] by (simp add: disp_ok_def)
  then have j: "jchannel j = ch" "jpc j = Running" using assms(4) by (auto simp: fresh_job_def newResponseStream_def)
  have "terminal ch x \<Longrightarrow> on_channel ch x" for x by (auto simp: terminal_def on_channel_def split: option.splits)
  then have none: "count_replies (on_channel ch) c' = 0" "count_replies (terminal ch) c' = 0"
    using fr assms(5) by (auto simp: fresh_channel_def count_replies_def replies_def filter_empty_conv)
  note same = count_replies_same [of c' c]
  show "\<exists>ch n. x = Some (ch, n) \<and> ch \<le> highestChannel c'" if "x \<in> set (replies c')" for x
    using that sent_okD(1) [OF assms(2)] assms(5) by (auto simp: replies_def)
  fix k assume k: "k < length (jobs c')"
  show "count_replies (terminal (jchannel (jobs c' ! k))) c' \<le> spawn_replies (jobs c' ! k)"
    if "jkind (jobs c' ! k) = SpawnJob"
    using k that sent_okD(2) [OF assms(2), of k] none(2) j(1) assms(5) same
    by (cases "k < length (jobs c)") (auto simp: nth_append less_Suc_eq)
  show "count_replies (on_channel (jchannel (jobs c' ! k))) c' \<le> spool_bound c' (jobs c' ! k)"
    if "jkind (jobs c' ! k) = SpoolJob"
  proof (cases "k < length (jobs c)")
    case True
    then have "jchannel (jobs c ! k) \<noteq> ch" using fr by (simp add: fresh_channel_def)
    then have "spool_bound c (jobs c ! k) + 0 \<le> spool_bound c' (jobs c ! k)"
      using assms(5) by (intro spool_bound_mono) (auto simp: holds_def)
    then show ?thesis
      using True that sent_okD(3) [OF assms(2), of k] assms(5) same by (simp add: nth_append)
  next
    case False
    then show ?thesis using k none(1) j(1) assms(5) by (auto simp: nth_append less_Suc_eq)
  qed
qed

lemma loop_trans_sent:
  assumes "loop_trans c c'" "jobs_ok c" "sess_ok c" "sent_ok c"
  shows "sent_ok c'"
  using assms(1)
proof (cases rule: loop_trans.cases)
  case ends
  then show ?thesis
    by (intro sent_ok_quiet [OF assms(4)]) (auto simp: conn_return_alt holds_def handed_over_def)
next
  case (opens h ch n i)
  then have "ch \<noteq> jchannel (jobs c ! k)" if "k < length (jobs c)" for k
    using jobs_okD(3) [OF assms(2) that] by auto
  then show ?thesis
    using opens by (intro sent_ok_quiet [OF assms(4)]) (auto simp: holds_def)
next
  case (refuses ch fs i h n rs m)
  then show ?thesis by (intro sent_ok_refuse [OF assms(2-4) refuses(2)])
next
  case (starts ch d j i h n rs)
  then show ?thesis by (intro sent_ok_start [OF assms(3,4) starts(2)])
next
  case (cancels k ch fs i h n rs m)
  then show ?thesis by (intro sent_ok_cancel [OF assms(2-4) cancels(2)])
next
  case (kills k ch i h n rs)
  then have "\<not> handed_over (jobs c ! k)"
    using sess_okD(2) [OF assms(3) holds_intros(3) [OF kills(2)]] by (simp add: disp_ok_def handed_over_def)
  then show ?thesis using kills
    by (intro sent_ok_quiet [OF assms(4)])
      (auto simp: nth_update holds_def handed_over_def split: if_splits)
qed (auto intro!: sent_ok_quiet [OF assms(4)] simp: holds_def split: if_splits)

section \<open>Every step keeps the invariant\<close>

lemma loop_trans_ok: "loop_trans c c' \<Longrightarrow> conn_ok c \<Longrightarrow> conn_ok c'"
  using loop_trans_jobs loop_trans_sess loop_trans_sent by (auto simp: conn_ok_def)

lemma job_step_bound: "job_step i c c' \<Longrightarrow> i < length (jobs c)"
  by (erule job_step.cases) auto

lemma job_step_ok:
  assumes "job_step i c c'" "conn_ok c"
  shows "conn_ok c'"
proof -
  note i = job_step_bound [OF assms(1)] and ok = assms(2) [unfolded conn_ok_def]
  have "job_effect i c c'" using job_step_effect [OF assms(1)] jobs_okD(2) ok i by blast
  then show ?thesis
    using job_effect_jobs job_effect_sess job_effect_sent ok i by (auto simp: conn_ok_def)
qed

lemma conn_handle_ok:
  assumes "conn_ok c" "pc c = Handling h ch n d"
  shows "loop_trans c (conn_handle boxes h ch n d c)"
proof -
  have ok: "jobs_ok c" "sess_ok c" using assms(1) by (auto simp: conn_ok_def)
  have d: "disp_ok (jobs c) ch d" using sess_okD(2) [OF ok(2) holds_intros(3) [OF assms(2)]] .
  show ?thesis
  proof (cases d)
    case (InitialDispatch rs)
    then show ?thesis
      using assms(2) d by (auto simp: disp_ok_def newResponseStream_def intro: conn_handle_initial)
  next
    case (SpoolCancelationDispatch rs k)
    then show ?thesis
      using assms(2) d jobs_okD(2) [OF ok(1), of k] by (auto simp: disp_ok_def intro: conn_handle_spool)
  next
    case (SpawnDispatch rs k)
    then show ?thesis using assms(2) by (auto intro: conn_handle_spawn)
  qed
qed

lemma conn_step_ok:
  assumes "conn_step boxes c c'" "conn_ok c"
  shows "conn_ok c'"
  using assms(1)
proof (cases rule: conn_step.cases)
  case loop_reads
  then show ?thesis using conn_read_trans loop_trans_ok assms(2) by blast
next
  case loop_handles
  then show ?thesis using conn_handle_ok [OF assms(2)] loop_trans_ok assms(2) by blast
next
  case loop_attaches
  then show ?thesis
    using loop_trans_ok [OF loop_trans.attaches] assms(2) by (simp add: conn_attach_def Attach_def)
next
  case job_moves
  then show ?thesis using job_step_ok assms(2) by blast
next
  case (box_writes i p)
  note ok = assms(2) [unfolded conn_ok_def]
  obtain fs where c': "c' = c\<lparr>sent := sent c @ fs\<rparr>" and fs: "reply (broken c) (jchannel (jobs c ! i)) replySpawnWrite fs"
    using rs_Write_effect jobs_okD(2) ok box_writes by metis
  have "fresh_channel c ch \<Longrightarrow> fresh_channel c' ch" for ch
    using fresh_channel_update [where c = c and ch = ch and k = i and j' = "jobs c ! i" and c' = c' and fs = fs
        and s = "sess c" and no = "Some replySpawnWrite"] c' fs box_writes(2)
    by (simp add: replied_def)
  then have "sess_ok c'" using ok c' unfolding sess_ok_def holds_def by simp
  moreover have "jobs_ok c'" using ok c' by (auto intro: jobs_ok_same)
  ultimately show ?thesis using rs_Write_sent [OF _ _ box_writes(2,3) c' fs] ok by (simp add: conn_ok_def)
next
  case conn_breaks
  then show ?thesis
    using assms(2) by (simp add: conn_ok_def jobs_ok_def sess_ok_def sent_ok_def holds_def fresh_channel_def
        count_replies_def replies_def)
qed

lemma reachable_ok: "reachable boxes r c \<Longrightarrow> conn_ok c"
  by (induction rule: reachable.induct) (auto intro: init_ok conn_step_ok)

section \<open>How jobs end\<close>

text \<open>Every step of a job lowers the sum of the ranks, so the jobs alone cannot run forever.\<close>

definition total_rank :: "conn \<Rightarrow> nat" where
  "total_rank c = sum_list (map job_rank (jobs c))"

lemma sum_list_less_update:
  fixes f :: "'a \<Rightarrow> nat"
  shows "k < length xs \<Longrightarrow> f x < f (xs ! k) \<Longrightarrow> sum_list (map f (xs[k := x])) < sum_list (map f xs)"
  by (induction xs arbitrary: k) (auto simp: nth_Cons split: nat.splits)

lemma job_step_rank:
  assumes "job_step i c c'" "conn_ok c"
  shows "total_rank c' < total_rank c"
proof -
  have i: "i < length (jobs c)" using job_step_bound [OF assms(1)] .
  then have "job_effect i c c'"
    using job_step_effect [OF assms(1)] jobs_okD(2) assms(2) unfolding conn_ok_def by blast
  then obtain no j' where "jobs c' = (jobs c)[i := j']" "job_trans (pc c = Returned) (jobs c ! i) no j'"
    by (auto simp: job_effect_def)
  then show ?thesis
    using sum_list_less_update [OF i, of job_rank j'] job_trans_rank by (simp add: total_rank_def)
qed

definition stuck :: "nat \<Rightarrow> conn \<Rightarrow> bool" where
  "stuck i c \<longleftrightarrow> (\<forall>c'. \<not> job_step i c c')"

text \<open>
  Where a job can stop: ended, or a spawned process that waits for a kill nobody asked for.
\<close>

lemma stuck_cases:
  assumes "stuck i c" "i < length (jobs c)"
  shows "jpc (jobs c ! i) = Closed \<and> kpc (jobs c ! i) \<in> {NoKill, KillDone} \<or>
    jpc (jobs c ! i) = Offering \<and> kpc (jobs c ! i) \<in> {NoKill, KillDone} \<and> \<not> cancelled (jobs c ! i)"
proof -
  note no = assms(1) [unfolded stuck_def, rule_format]
  note r = job_step.intros [OF assms(2)]
  have j: "jpc (jobs c ! i) \<in> {Offering, Closed}"
    using no r(1-3,6,7) by (cases "jpc (jobs c ! i)"; cases "jkind (jobs c ! i)") auto
  have k: "kpc (jobs c ! i) \<in> {NoKill, KillDone}"
    using j no r(4,8,11,12) by (cases "kpc (jobs c ! i)") auto
  show ?thesis using j k no r(5) by auto
qed

lemma stuck_ended:
  assumes "conn_ok c" "stuck i c" "i < length (jobs c)" "jkind (jobs c ! i) = SpawnJob"
  shows "jpc (jobs c ! i) = Closed \<and> kills (jobs c ! i) = (if spawned (jobs c ! i) then 1 else 0) \<or>
    jpc (jobs c ! i) = Offering \<and> kpc (jobs c ! i) = NoKill \<and> \<not> cancelled (jobs c ! i)"
proof -
  have "job_ok (jobs c ! i)" using assms(1,3) jobs_okD(1) by (auto simp: conn_ok_def)
  then show ?thesis
    using stuck_cases [OF assms(2,3)] by (auto simp: job_ok_def finished_def handed_over_def)
qed

text \<open>An iteration of the loop that nothing interrupts is a sequence of steps.\<close>

lemma reachable_iter:
  assumes "reachable boxes r c" "pc c = Reading"
  shows "reachable boxes r (conn_iter boxes c)"
proof -
  have r: "reachable boxes r (conn_read c)" using reach_step [OF assms(1) loop_reads [OF assms(2)]] .
  show ?thesis
    using r reach_step [OF r loop_handles] by (auto simp: conn_iter_def Let_def split: loop_pc.split)
qed

text \<open>The jobs can always run to their end.\<close>

lemma jobs_run:
  assumes "conn_ok c"
  shows "\<exists>c'. (\<lambda>a b. \<exists>i. job_step i a b)\<^sup>*\<^sup>* c c' \<and> conn_ok c' \<and> pc c' = pc c \<and> (\<forall>i. stuck i c')"
  using assms
proof (induction "total_rank c" arbitrary: c rule: less_induct)
  case less
  show ?case
  proof (cases "\<forall>i. stuck i c")
    case True
    then show ?thesis using less.prems by blast
  next
    case False
    then obtain i c1 where s: "job_step i c c1" by (auto simp: stuck_def)
    have e: "job_effect i c c1"
      using job_step_effect [OF s] jobs_okD(2) job_step_bound [OF s] less.prems unfolding conn_ok_def by blast
    then have "pc c1 = pc c" by (auto simp: job_effect_def)
    moreover obtain c' where "(\<lambda>a b. \<exists>i. job_step i a b)\<^sup>*\<^sup>* c1 c'" "conn_ok c'" "pc c' = pc c1" "\<forall>i. stuck i c'"
      using less.hyps [OF job_step_rank [OF s less.prems] job_step_ok [OF s less.prems]] by blast
    ultimately show ?thesis
      using s converse_rtranclp_into_rtranclp [of "\<lambda>a b. \<exists>i. job_step i a b" c c1 c'] by auto
  qed
qed

lemma stuck_returned:
  assumes "conn_ok c" "stuck i c" "i < length (jobs c)" "jkind (jobs c ! i) = SpawnJob" "pc c = Returned"
  shows "jpc (jobs c ! i) = Closed" "kills (jobs c ! i) = (if spawned (jobs c ! i) then 1 else 0)"
  using stuck_ended [OF assms(1-4)] jobs_okD(4) [OF _ assms(3,5)] assms(1) by (auto simp: conn_ok_def)

end
