(* ===== verification/Msgp_Write.thy ===== *)
theory Msgp_Write
  imports Msgp_Objects "HOL-Library.Sublist"
begin

text \<open>
  The buffered writer (\<^verbatim>\<open>src/vendor/github.com/tinylib/msgp/msgp/write.go\<close>) the \<^verbatim>\<open>EncodeMsg\<close>
  methods write to.  The underlying \<^verbatim>\<open>io.Writer\<close> accepts a number of bytes and fails from then
  on.  The lemmas show that what a writer has passed on, followed by what it holds, is always
  the concatenation of the encodings of what was written to it.
\<close>

section \<open>The writer\<close>

text \<open>
  \<open>sink\<close> is what the underlying writer has received, \<open>room\<close> how much more it accepts, \<open>wbuf\<close> the
  used part \<^verbatim>\<open>buf[:wloc]\<close> of the buffer and \<open>bufsize\<close> its length.
\<close>

record writer =
  sink :: bytes
  room :: nat
  wbuf :: bytes
  bufsize :: nat

definition avail :: "writer \<Rightarrow> nat" where
  "avail w = bufsize w - length (wbuf w)"

text \<open>A write to the underlying writer, with the number of bytes it took.\<close>

definition sink_write :: "bytes \<Rightarrow> writer \<Rightarrow> (rerr option \<times> nat) \<times> writer" where
  "sink_write p w =
     (let n = min (length p) (room w) in
      ((if n < length p then Some (IoError ''write'') else None, n),
       w\<lparr>sink := sink w @ take n p, room := room w - n\<rparr>))"

definition wr_flush :: "(rerr, writer, unit) rd" where
  "wr_flush w =
     (if length (wbuf w) = 0 then (Inr (), w)
      else case sink_write (wbuf w) w of
        ((Some e, n), w') \<Rightarrow> (Inl e, if 0 < n then w'\<lparr>wbuf := drop n (wbuf w)\<rparr> else w')
      | ((None, n), w') \<Rightarrow> (Inr (), w'\<lparr>wbuf := []\<rparr>))"

text \<open>\<^verbatim>\<open>mw.wloc += copy(mw.buf[mw.wloc:], b)\<close>\<close>

definition wr_copy :: "bytes \<Rightarrow> (rerr, writer, unit) rd" where
  "wr_copy b w = (Inr (), w\<lparr>wbuf := wbuf w @ take (avail w) b\<rparr>)"

definition wr_Append :: "bytes \<Rightarrow> (rerr, writer, unit) rd" where
  "wr_Append b w = (if avail w < length b then rd_bind wr_flush (\<lambda>_. wr_copy b) w else wr_copy b w)"

text \<open>
  \<^verbatim>\<open>push\<close> and the \<^verbatim>\<open>prefix\<close> methods store a fixed number of bytes after making room for them.
  \<^verbatim>\<open>NewWriterSize\<close> and the pool make buffers of at least 18 bytes, so the store is in range.
\<close>

definition wr_push :: "byte \<Rightarrow> (rerr, writer, unit) rd" where
  "wr_push b w = (if length (wbuf w) = bufsize w then rd_bind wr_flush (\<lambda>_. wr_copy [b]) w else wr_copy [b] w)"

definition wr_prefix8 :: "byte \<Rightarrow> byte \<Rightarrow> (rerr, writer, unit) rd" where
  "wr_prefix8 b u w =
     (if bufsize w - length (wbuf w) < 2 then rd_bind wr_flush (\<lambda>_. wr_copy [b, u]) w else wr_copy [b, u] w)"

definition wr_prefix16 :: "byte \<Rightarrow> u16 \<Rightarrow> (rerr, writer, unit) rd" where
  "wr_prefix16 b u w =
     (if bufsize w - length (wbuf w) < 3 then rd_bind wr_flush (\<lambda>_. wr_copy (b # be16 u)) w
      else wr_copy (b # be16 u) w)"

definition wr_prefix32 :: "byte \<Rightarrow> u32 \<Rightarrow> (rerr, writer, unit) rd" where
  "wr_prefix32 b u w =
     (if bufsize w - length (wbuf w) < 5 then rd_bind wr_flush (\<lambda>_. wr_copy (b # be32 u)) w
      else wr_copy (b # be32 u) w)"

definition wr_prefix64 :: "byte \<Rightarrow> u64 \<Rightarrow> (rerr, writer, unit) rd" where
  "wr_prefix64 b u w =
     (if bufsize w - length (wbuf w) < 9 then rd_bind wr_flush (\<lambda>_. wr_copy (b # be64 u)) w
      else wr_copy (b # be64 u) w)"

text \<open>\<^verbatim>\<open>writeString\<close>: a string that is longer than the whole buffer goes straight through.\<close>

definition wr_writeString :: "string \<Rightarrow> (rerr, writer, unit) rd" where
  "wr_writeString s w =
     (if avail w < length s then
        rd_bind wr_flush (\<lambda>_ w.
          if bufsize w < length s then
            (case sink_write (str_bytes s) w of
               ((Some e, n), w') \<Rightarrow> (Inl e, w')
             | ((None, n), w') \<Rightarrow> (Inr (), w'))
          else wr_copy (str_bytes s) w) w
      else wr_copy (str_bytes s) w)"

definition WriteMapHeader :: "u32 \<Rightarrow> (rerr, writer, unit) rd" where
  "WriteMapHeader sz =
     (if sz \<le> 15 then wr_push (wfixmap (ucast sz))
      else if sz \<le> 0xffff then wr_prefix16 mmap16 (ucast sz)
      else wr_prefix32 mmap32 sz)"

definition WriteArrayHeader :: "u32 \<Rightarrow> (rerr, writer, unit) rd" where
  "WriteArrayHeader sz =
     (if sz \<le> 15 then wr_push (wfixarray (ucast sz))
      else if sz \<le> 0xffff then wr_prefix16 marray16 (ucast sz)
      else wr_prefix32 marray32 sz)"

definition WriteFloat64 :: "u64 \<Rightarrow> (rerr, writer, unit) rd" where
  "WriteFloat64 f = wr_prefix64 mfloat64 f"

definition WriteFloat32 :: "u32 \<Rightarrow> (rerr, writer, unit) rd" where
  "WriteFloat32 f = wr_prefix32 mfloat32 f"

definition WriteInt64 :: "u64 \<Rightarrow> (rerr, writer, unit) rd" where
  "WriteInt64 i =
     (if 0 \<le> sint i then
        if sint i \<le> 127 then wr_push (wfixint (ucast i))
        else if sint i \<le> 32767 then wr_prefix16 mint16 (ucast i)
        else if sint i \<le> 2147483647 then wr_prefix32 mint32 (ucast i)
        else wr_prefix64 mint64 i
      else if - 32 \<le> sint i then wr_push (wnfixint (ucast i))
      else if - 128 \<le> sint i then wr_prefix8 mint8 (ucast i)
      else if - 32768 \<le> sint i then wr_prefix16 mint16 (ucast i)
      else if - 2147483648 \<le> sint i then wr_prefix32 mint32 (ucast i)
      else wr_prefix64 mint64 i)"

definition WriteUint64 :: "u64 \<Rightarrow> (rerr, writer, unit) rd" where
  "WriteUint64 u =
     (if u \<le> 0x7f then wr_push (wfixint (ucast u))
      else if u \<le> 0xff then wr_prefix8 muint8 (ucast u)
      else if u \<le> 0xffff then wr_prefix16 muint16 (ucast u)
      else if u \<le> 0xffffffff then wr_prefix32 muint32 (ucast u)
      else wr_prefix64 muint64 u)"

definition WriteUint :: "u64 \<Rightarrow> (rerr, writer, unit) rd" where
  "WriteUint u = WriteUint64 u"

text \<open>The length is cut to 32 bits before the comparisons: \<^verbatim>\<open>sz := uint32(len(s))\<close>.\<close>

definition WriteString :: "string \<Rightarrow> (rerr, writer, unit) rd" where
  "WriteString s =
     (let sz = of_nat (length s) :: u32 in
      rd_bind
        (if sz \<le> 31 then wr_push (wfixstr (ucast sz))
         else if sz \<le> 0xff then wr_prefix8 mstr8 (ucast sz)
         else if sz \<le> 0xffff then wr_prefix16 mstr16 (ucast sz)
         else wr_prefix32 mstr32 sz)
        (\<lambda>_. wr_writeString s))"

fun write_pairs :: "(string \<times> string) list \<Rightarrow> (rerr, writer, unit) rd" where
  "write_pairs [] = rd_return ()"
| "write_pairs ((k, v) # ps) =
     rd_bind (WriteString k) (\<lambda>_. rd_bind (WriteString v) (\<lambda>_. write_pairs ps))"

fun write_strings :: "string list \<Rightarrow> (rerr, writer, unit) rd" where
  "write_strings [] = rd_return ()"
| "write_strings (s # ss) = rd_bind (WriteString s) (\<lambda>_. write_strings ss)"

definition Number_EncodeMsg :: "Number \<Rightarrow> (rerr, writer, unit) rd" where
  "Number_EncodeMsg n = (case ntyp n of
       IntType \<Rightarrow> WriteInt64 (bits n)
     | UintType \<Rightarrow> WriteUint64 (bits n)
     | Float64Type \<Rightarrow> WriteFloat64 (bits n)
     | Float32Type \<Rightarrow> WriteFloat32 (ucast (bits n))
     | _ \<Rightarrow> WriteInt64 0)"

text \<open>\<^verbatim>\<open>Encode\<close>: the encoder runs on a writer and what it buffered is flushed.\<close>

definition Encode :: "(rerr, writer, unit) rd \<Rightarrow> (rerr, writer, unit) rd" where
  "Encode e = rd_bind e (\<lambda>_. wr_flush)"

section \<open>What a writer emits\<close>

text \<open>
  The writers of the pool have buffers of 2048 bytes; 32 bytes are enough for every literal the
  generated encoders append in one call.
\<close>

definition wr_ok :: "writer \<Rightarrow> bool" where
  "wr_ok w \<longleftrightarrow> 32 \<le> bufsize w \<and> length (wbuf w) \<le> bufsize w"

definition out :: "writer \<Rightarrow> bytes" where
  "out w = sink w @ wbuf w"

text \<open>
  \<open>emits f e\<close>: the computation \<open>f\<close> appends a prefix of \<open>e\<close> to what the writer has been given, all
  of \<open>e\<close> when it succeeds, and it succeeds when the underlying writer has room for everything.
\<close>

definition emits :: "(rerr, writer, unit) rd \<Rightarrow> bytes \<Rightarrow> bool" where
  "emits f e \<longleftrightarrow> (\<forall>w. wr_ok w \<longrightarrow> (\<exists>res w' p. f w = (res, w') \<and> wr_ok w' \<and> bufsize w' = bufsize w \<and>
     room w' + length (sink w') = room w + length (sink w) \<and>
     prefix p e \<and> out w' = out w @ p \<and> (res = Inr () \<longrightarrow> p = e) \<and>
     (length (wbuf w) + length e \<le> room w \<longrightarrow> res = Inr ())))"

lemma emitsI:
  assumes "\<And>w. wr_ok w \<Longrightarrow> \<exists>res w' p. f w = (res, w') \<and> wr_ok w' \<and> bufsize w' = bufsize w \<and>
     room w' + length (sink w') = room w + length (sink w) \<and>
     prefix p e \<and> out w' = out w @ p \<and> (res = Inr () \<longrightarrow> p = e) \<and>
     (length (wbuf w) + length e \<le> room w \<longrightarrow> res = Inr ())"
  shows "emits f e"
  using assms by (simp add: emits_def)

lemma emitsE:
  assumes "emits f e" "wr_ok w"
  obtains res w' p where "f w = (res, w')" "wr_ok w'" "bufsize w' = bufsize w"
    "room w' + length (sink w') = room w + length (sink w)"
    "prefix p e" "out w' = out w @ p" "res = Inr () \<longrightarrow> p = e"
    "length (wbuf w) + length e \<le> room w \<longrightarrow> res = Inr ()"
proof -
  obtain res w' p where H: "f w = (res, w') \<and> wr_ok w' \<and> bufsize w' = bufsize w \<and>
     room w' + length (sink w') = room w + length (sink w) \<and>
     prefix p e \<and> out w' = out w @ p \<and> (res = Inr () \<longrightarrow> p = e) \<and>
     (length (wbuf w) + length e \<le> room w \<longrightarrow> res = Inr ())"
    using assms unfolding emits_def by blast
  show thesis by (rule that [of res w' p]) (use H in auto)
qed

lemma emits_return [intro]: "emits (rd_return ()) []"
  by (rule emitsI) (simp add: rd_return_def)

lemma emits_bind [intro]:
  assumes f: "emits f e" and g: "emits g e'"
  shows "emits (rd_bind f (\<lambda>_. g)) (e @ e')"
proof (rule emitsI)
  fix w assume "wr_ok w"
  with f obtain res w' p where w': "f w = (res, w')" "wr_ok w'" "bufsize w' = bufsize w"
      "room w' + length (sink w') = room w + length (sink w)" "prefix p e" "out w' = out w @ p"
      "res = Inr () \<longrightarrow> p = e" "length (wbuf w) + length e \<le> room w \<longrightarrow> res = Inr ()"
    by (rule emitsE)
  show "\<exists>res w' p. rd_bind f (\<lambda>_. g) w = (res, w') \<and> wr_ok w' \<and> bufsize w' = bufsize w \<and>
     room w' + length (sink w') = room w + length (sink w) \<and>
     prefix p (e @ e') \<and> out w' = out w @ p \<and> (res = Inr () \<longrightarrow> p = e @ e') \<and>
     (length (wbuf w) + length (e @ e') \<le> room w \<longrightarrow> res = Inr ())"
  proof (cases res)
    case (Inl x)
    then show ?thesis using w' by (auto simp: rd_bind_def intro: prefix_prefix)
  next
    case (Inr u)
    then have p: "p = e" using w' by simp
    from g \<open>wr_ok w'\<close> obtain res2 w2 p2 where w2: "g w' = (res2, w2)" "wr_ok w2" "bufsize w2 = bufsize w'"
        "room w2 + length (sink w2) = room w' + length (sink w')" "prefix p2 e'" "out w2 = out w' @ p2"
        "res2 = Inr () \<longrightarrow> p2 = e'" "length (wbuf w') + length e' \<le> room w' \<longrightarrow> res2 = Inr ()"
      by (rule emitsE)
    have "length (out w') = length (out w) + length e" using w' p by simp
    then have "length (wbuf w) + length (e @ e') \<le> room w \<Longrightarrow> length (wbuf w') + length e' \<le> room w'"
      using w'(4) by (simp add: out_def)
    then show ?thesis using w' w2 p Inr
      by (intro exI [of _ res2] exI [of _ w2] exI [of _ "e @ p2"]) (auto simp: rd_bind_def)
  qed
qed

lemma sink_write_simps:
  "length p \<le> room w \<Longrightarrow> sink_write p w = ((None, length p), w\<lparr>sink := sink w @ p, room := room w - length p\<rparr>)"
  "room w < length p \<Longrightarrow> sink_write p w =
     ((Some (IoError ''write''), room w), w\<lparr>sink := sink w @ take (room w) p, room := 0\<rparr>)"
  by (auto simp: sink_write_def Let_def)

lemma wr_flush_emits: "emits wr_flush []"
proof (rule emitsI)
  fix w assume ok: "wr_ok w"
  show "\<exists>res w' p. wr_flush w = (res, w') \<and> wr_ok w' \<and> bufsize w' = bufsize w \<and>
     room w' + length (sink w') = room w + length (sink w) \<and>
     prefix p [] \<and> out w' = out w @ p \<and> (res = Inr () \<longrightarrow> p = []) \<and>
     (length (wbuf w) + length [] \<le> room w \<longrightarrow> res = Inr ())"
    using ok by (cases "length (wbuf w) \<le> room w") (auto simp: wr_flush_def sink_write_simps wr_ok_def out_def)
qed

lemma wr_flush_empties: "wr_flush w = (Inr (), w') \<Longrightarrow> wbuf w' = []"
  by (auto simp: wr_flush_def split: prod.splits option.splits if_splits)

text \<open>Flushing before a copy that would not fit: the pattern of every storing method.\<close>

lemma store_emits:
  assumes "\<And>w. f w = (if avail w < length b then rd_bind wr_flush (\<lambda>_. wr_copy b) w else wr_copy b w)"
    and "length b \<le> 32"
  shows "emits f b"
proof (rule emitsI)
  fix w assume ok: "wr_ok w"
  have copy: "wr_copy b w = (Inr (), w\<lparr>wbuf := wbuf w @ b\<rparr>)" if "length b \<le> avail w" for w
    using that by (simp add: wr_copy_def)
  show "\<exists>res w' p. f w = (res, w') \<and> wr_ok w' \<and> bufsize w' = bufsize w \<and>
     room w' + length (sink w') = room w + length (sink w) \<and>
     prefix p b \<and> out w' = out w @ p \<and> (res = Inr () \<longrightarrow> p = b) \<and>
     (length (wbuf w) + length b \<le> room w \<longrightarrow> res = Inr ())"
  proof (cases "avail w < length b")
    case False
    then show ?thesis
      using ok assms(1) [of w] copy [of w] by (auto simp: wr_ok_def out_def avail_def)
  next
    case True
    obtain res w' p where w': "wr_flush w = (res, w')" "wr_ok w'" "bufsize w' = bufsize w"
      "room w' + length (sink w') = room w + length (sink w)" "prefix p []" "out w' = out w @ p"
      "res = Inr () \<longrightarrow> p = []" "length (wbuf w) + length ([] :: bytes) \<le> room w \<longrightarrow> res = Inr ()"
      using wr_flush_emits ok by (rule emitsE)
    show ?thesis
    proof (cases res)
      case (Inl x)
      then show ?thesis using True assms(1) [of w] w' by (auto simp: rd_bind_def)
    next
      case (Inr u)
      then have "wbuf w' = []" using w'(1) wr_flush_empties [of w w'] by simp
      then have "wr_copy b w' = (Inr (), w'\<lparr>wbuf := b\<rparr>)"
        using copy [of w'] w'(2) assms(2) by (simp add: avail_def wr_ok_def)
      then show ?thesis
        using True assms w' Inr \<open>wbuf w' = []\<close>
        by (intro exI [of _ "Inr ()"] exI [of _ "w'\<lparr>wbuf := b\<rparr>"] exI [of _ b])
          (auto simp: rd_bind_def wr_ok_def out_def)
    qed
  qed
qed

lemma emits_cong: "emits f e \<Longrightarrow> e = e' \<Longrightarrow> emits f e'"
  by simp

lemma Append_emits: "length b \<le> 32 \<Longrightarrow> emits (wr_Append b) b"
  by (rule store_emits) (simp_all add: wr_Append_def)

lemma push_emits: "emits (wr_push b) [b]"
proof -
  have "emits (wr_Append [b]) [b]" by (rule Append_emits) simp
  moreover have "wr_ok w \<Longrightarrow> wr_push b w = wr_Append [b] w" for w
    by (auto simp: wr_push_def wr_Append_def avail_def wr_ok_def)
  ultimately show ?thesis by (auto simp: emits_def)
qed

lemma prefix_emits:
  "emits (wr_prefix8 b x) [b, x]" "emits (wr_prefix16 b y) (b # be16 y)"
  "emits (wr_prefix32 b z) (b # be32 z)" "emits (wr_prefix64 b u) (b # be64 u)"
  by (rule store_emits; simp add: wr_prefix8_def wr_prefix16_def wr_prefix32_def wr_prefix64_def avail_def)+

lemma writeString_emits: "emits (wr_writeString s) (str_bytes s)"
proof (rule emitsI)
  fix w assume ok: "wr_ok w"
  show "\<exists>res w' p. wr_writeString s w = (res, w') \<and> wr_ok w' \<and> bufsize w' = bufsize w \<and>
     room w' + length (sink w') = room w + length (sink w) \<and>
     prefix p (str_bytes s) \<and> out w' = out w @ p \<and> (res = Inr () \<longrightarrow> p = str_bytes s) \<and>
     (length (wbuf w) + length (str_bytes s) \<le> room w \<longrightarrow> res = Inr ())"
  proof (cases "avail w < length s")
    case False
    then show ?thesis using ok by (auto simp: wr_writeString_def wr_copy_def wr_ok_def out_def avail_def)
  next
    case True
    obtain res w' p where w': "wr_flush w = (res, w')" "wr_ok w'" "bufsize w' = bufsize w"
      "room w' + length (sink w') = room w + length (sink w)" "prefix p []" "out w' = out w @ p"
      "res = Inr () \<longrightarrow> p = []" "length (wbuf w) + length ([] :: bytes) \<le> room w \<longrightarrow> res = Inr ()"
      using wr_flush_emits ok by (rule emitsE)
    show ?thesis
    proof (cases res)
      case (Inl x)
      then show ?thesis using True w' by (auto simp: rd_bind_def wr_writeString_def)
    next
      case (Inr u)
      then have empty: "wbuf w' = []" using w'(1) wr_flush_empties [of w w'] by simp
      have len: "length (out w') = length (out w)" using w' by simp
      show ?thesis
      proof (cases "bufsize w' < length s")
        case False
        then show ?thesis using True w' Inr empty len
          by (auto simp: wr_writeString_def rd_bind_def wr_copy_def avail_def wr_ok_def out_def)
      next
        case long: True
        then show ?thesis
        proof (cases "length s \<le> room w'")
          case True
          then show ?thesis using \<open>avail w < length s\<close> long w' Inr empty len
            by (auto simp: wr_writeString_def rd_bind_def sink_write_simps wr_ok_def out_def)
        next
          case False
          then show ?thesis using \<open>avail w < length s\<close> long w' Inr empty len
            by (auto simp: wr_writeString_def rd_bind_def sink_write_simps wr_ok_def out_def take_is_prefix)
        qed
      qed
    qed
  qed
qed

lemma header_emits:
  "emits (WriteMapHeader n) (AppendMapHeader [] n)" "emits (WriteArrayHeader n) (AppendArrayHeader [] n)"
  by (auto simp: WriteMapHeader_def WriteArrayHeader_def AppendMapHeader_def AppendArrayHeader_def
      intro: push_emits prefix_emits)

lemma number_emits:
  "emits (WriteUint64 u) (AppendUint64 [] u)" "emits (WriteUint u) (AppendUint [] u)"
  "emits (WriteInt64 i) (AppendInt64 [] i)" "emits (WriteFloat64 f) (AppendFloat64 [] f)"
  "emits (WriteFloat32 g) (AppendFloat32 [] g)"
  by (auto simp: WriteUint64_def WriteUint_def WriteInt64_def WriteFloat64_def WriteFloat32_def
      AppendUint64_def AppendUint_def AppendInt64_def AppendFloat64_def AppendFloat32_def
      intro: push_emits prefix_emits)

lemma Number_emits: "emits (Number_EncodeMsg n) (Number_MarshalMsg n [])"
  by (simp add: Number_EncodeMsg_def Number_MarshalMsg_def number_emits split: mtype.split)

lemma WriteString_emits:
  assumes "length s < 2 ^ 32"
  shows "emits (WriteString s) (AppendString [] s)"
proof -
  let ?sz = "of_nat (length s) :: u32"
  have sz: "unat ?sz = length s" using assms by simp
  have cast: "(ucast ?sz :: byte) = of_nat (length s)" "(ucast ?sz :: u16) = of_nat (length s)"
    by (rule bit_word_eqI; simp add: bit_simps)+
  have "emits (if ?sz \<le> 31 then wr_push (wfixstr (ucast ?sz))
         else if ?sz \<le> 0xff then wr_prefix8 mstr8 (ucast ?sz)
         else if ?sz \<le> 0xffff then wr_prefix16 mstr16 (ucast ?sz)
         else wr_prefix32 mstr32 ?sz)
      (if length s \<le> 31 then [wfixstr (of_nat (length s))]
         else if length s \<le> 255 then [mstr8, of_nat (length s)]
         else if length s \<le> 65535 then mstr16 # be16 (of_nat (length s))
         else mstr32 # be32 (of_nat (length s)))"
    using push_emits prefix_emits by (simp add: word_le_nat_alt sz cast)
  then have "emits (WriteString s) ((if length s \<le> 31 then [wfixstr (of_nat (length s))]
         else if length s \<le> 255 then [mstr8, of_nat (length s)]
         else if length s \<le> 65535 then mstr16 # be16 (of_nat (length s))
         else mstr32 # be32 (of_nat (length s))) @ str_bytes s)"
    unfolding WriteString_def Let_def by (rule emits_bind [OF _ writeString_emits])
  then show ?thesis by (rule emits_cong) (simp add: AppendString_def Let_def)
qed

lemma pairs_emits:
  "\<forall>(k, v) \<in> set ps. length k < 2 ^ 32 \<and> length v < 2 ^ 32 \<Longrightarrow> emits (write_pairs ps) (append_pairs [] ps)"
proof (induction ps)
  case (Cons p ps)
  obtain k v where p: "p = (k, v)" by (cases p)
  have "emits (write_pairs (p # ps)) (AppendString [] k @ AppendString [] v @ append_pairs [] ps)"
    using Cons by (simp only: p write_pairs.simps) (intro emits_bind WriteString_emits; auto)
  then show ?case
    using append_pairs_split [of "AppendString (AppendString [] k) v" ps]
      AppendString_split [of "AppendString [] k" v] by (simp add: p)
qed (simp add: emits_return)

lemma strings_emits:
  "\<forall>v \<in> set ss. length v < 2 ^ 32 \<Longrightarrow> emits (write_strings ss) (append_strings [] ss)"
proof (induction ss)
  case (Cons s ss)
  have "emits (write_strings (s # ss)) (AppendString [] s @ append_strings [] ss)"
    using Cons by (simp only: write_strings.simps) (intro emits_bind WriteString_emits; auto)
  then show ?case using append_strings_split [of "AppendString [] s" ss] by simp
qed (simp add: emits_return)

lemma Encode_emits:
  assumes "emits f e" "wr_ok w" "wbuf w = []" "length e \<le> room w"
  shows "\<exists>w'. Encode f w = (Inr (), w') \<and> sink w' = sink w @ e \<and> wbuf w' = []"
proof -
  have "emits (Encode f) (e @ [])"
    unfolding Encode_def using assms(1) wr_flush_emits by (rule emits_bind)
  then obtain res w' p where w': "Encode f w = (res, w')" "out w' = out w @ p" "res = Inr () \<longrightarrow> p = e"
      "length (wbuf w) + length e \<le> room w \<longrightarrow> res = Inr ()"
    using assms(2) by (auto elim!: emitsE)
  then have r: "res = Inr ()" using assms by simp
  then have "wbuf w' = []" using w'(1) by (auto simp: Encode_def rd_bind_eq_Inr dest: wr_flush_empties)
  then show ?thesis using w' r assms(3) by (auto simp: out_def)
qed

end
