(* ===== verification/Process_Codec.thy ===== *)
theory Process_Codec
  imports Msgp_Source Msgp_Write
begin

text \<open>
  The profile of the process isolation and its generated codec
  (\<^verbatim>\<open>src/isolate/process/profile.go\<close>, \<^verbatim>\<open>profile_encodable.go\<close>), and the bounds on the length of
  encodings that the \<^verbatim>\<open>Msgsize\<close> methods of all codecs rely on.
\<close>

section \<open>Lengths of encodings\<close>

lemma length_headers [enc_len]:
  "length (AppendMapHeader [] n) \<le> MapHeaderSize" "length (AppendArrayHeader [] n) \<le> ArrayHeaderSize"
  by (simp_all add: AppendMapHeader_def AppendArrayHeader_def)

lemma length_AppendString [enc_len]: "length (AppendString [] s) \<le> StringPrefixSize + length s"
  by (simp add: AppendString_def Let_def)

lemma length_numbers [enc_len]:
  "length (AppendUint [] u) \<le> UintSize" "length (Number_MarshalMsg x []) \<le> Number_Msgsize x"
proof -
  show "length (AppendUint [] u) \<le> UintSize" by (simp add: AppendUint_def AppendUint64_def)
  have "length (AppendInt64 [] 0) = 1" by (simp add: AppendInt64_def)
  then show "length (Number_MarshalMsg x []) \<le> Number_Msgsize x"
    by (auto simp: Number_MarshalMsg_def Number_Msgsize_def AppendUint64_def AppendInt64_def
        AppendFloat64_def AppendFloat32_def split: mtype.split)
qed

lemma length_append_strings [enc_len]:
  "length (append_strings [] ss) \<le> sum_list (map (\<lambda>s. StringPrefixSize + length s) ss)"
proof (induction ss)
  case (Cons s ss)
  then show ?case
    using append_strings_split [of "AppendString [] s" ss] length_AppendString [of s] by simp
qed simp

lemma length_append_pairs [enc_len]:
  "length (append_pairs [] ps) \<le>
     sum_list (map (\<lambda>(k, v). StringPrefixSize + length k + StringPrefixSize + length v) ps)"
proof (induction ps)
  case (Cons p ps)
  obtain k v where p: "p = (k, v)" by (cases p)
  have "append_pairs [] (p # ps) = AppendString [] k @ AppendString [] v @ append_pairs [] ps"
    using append_pairs_split [of "AppendString (AppendString [] k) v" ps]
      AppendString_split [of "AppendString [] k" v] by (simp add: p)
  then show ?case using Cons length_AppendString [of k] length_AppendString [of v] by (simp add: p)
qed simp

lemma lit_len:
  "length s \<le> 31 \<Longrightarrow> length (AppendString [] s) = Suc (length s)"
  "n \<le> 15 \<Longrightarrow> length (AppendMapHeader [] n) = 1"
  by (simp_all add: AppendString_def AppendMapHeader_def)

text \<open>Literal keys: evaluating the encoding of a constant string.\<close>

lemmas key_lit = AppendString_def AppendMapHeader_def str_bytes_def wfixstr_def wfixmap_def Let_def

section \<open>The profile\<close>

record ProcessProfile =
  Spool :: string

definition ProcessProfile_fields :: "'s src \<Rightarrow> string \<Rightarrow> ProcessProfile \<Rightarrow> (rerr, 's, ProcessProfile) rd" where
  "ProcessProfile_fields S field z =
     (if field = ''spool'' then rd_bind (rString S) (\<lambda>v. rd_return (z\<lparr>Spool := v\<rparr>))
      else skip_field S z)"

definition ProcessProfile_DecodeMsg :: "ProcessProfile \<Rightarrow> (rerr, reader, ProcessProfile) rd" where
  "ProcessProfile_DecodeMsg z = decode_fields reader_src (ProcessProfile_fields reader_src) z"

definition ProcessProfile_EncodeMsg :: "ProcessProfile \<Rightarrow> (rerr, writer, unit) rd" where
  "ProcessProfile_EncodeMsg z =
     rd_bind (wr_Append [0x81, 0xa5, 0x73, 0x70, 0x6f, 0x6f, 0x6c]) (\<lambda>_. WriteString (Spool z))"

definition ProcessProfile_MarshalMsg :: "ProcessProfile \<Rightarrow> bytes \<Rightarrow> bytes" where
  "ProcessProfile_MarshalMsg z b =
     (let o1 = b @ [0x81, 0xa5, 0x73, 0x70, 0x6f, 0x6f, 0x6c] in AppendString o1 (Spool z))"

definition ProcessProfile_UnmarshalMsg :: "ProcessProfile \<Rightarrow> (rerr, bytes, ProcessProfile) rd" where
  "ProcessProfile_UnmarshalMsg z = decode_fields bytes_src (ProcessProfile_fields bytes_src) z"

definition ProcessProfile_Msgsize :: "ProcessProfile \<Rightarrow> nat" where
  "ProcessProfile_Msgsize z = 1 + 6 + StringPrefixSize + length (Spool z)"

section \<open>Round trip, size and equivalence of the encoders\<close>

lemma process_lit:
  "[0x81, 0xa5, 0x73, 0x70, 0x6f, 0x6f, 0x6c] = AppendMapHeader [] 1 @ AppendString [] ''spool''"
  by (simp add: key_lit)

lemma ProcessProfile_MarshalMsg_eq:
  "ProcessProfile_MarshalMsg z [] =
     AppendMapHeader [] 1 @ AppendString [] ''spool'' @ AppendString [] (Spool z)"
  unfolding ProcessProfile_MarshalMsg_def Let_def
  using AppendString_split [of "[0x81, 0xa5, 0x73, 0x70, 0x6f, 0x6f, 0x6c]" "Spool z"]
  by (simp add: process_lit)

context msgp_source
begin

lemma process_profile_back:
  assumes "length (Spool z) < 2 ^ 32"
  shows "decode_fields S (ProcessProfile_fields S) z0 (put (ProcessProfile_MarshalMsg z [] @ bs) s) =
    (Inr z, put bs s)"
  using assms by (simp add: ProcessProfile_MarshalMsg_eq decode_fields_def ProcessProfile_fields_def
      rd_simps map_header key str)

end

lemma ProcessProfile_emits:
  assumes "length (Spool z) < 2 ^ 32"
  shows "emits (ProcessProfile_EncodeMsg z) (ProcessProfile_MarshalMsg z [])"
proof (rule emits_cong)
  show "emits (ProcessProfile_EncodeMsg z)
    ((AppendMapHeader [] 1 @ AppendString [] ''spool'') @ AppendString [] (Spool z))"
    unfolding ProcessProfile_EncodeMsg_def process_lit using assms
    by (intro emits_bind Append_emits WriteString_emits) (simp_all add: lit_len)
qed (simp add: ProcessProfile_MarshalMsg_eq)

lemma ProcessProfile_Msgsize_bound:
  "length (ProcessProfile_MarshalMsg z []) \<le> ProcessProfile_Msgsize z"
  using length_AppendString [of "Spool z"]
  by (simp add: ProcessProfile_MarshalMsg_eq ProcessProfile_Msgsize_def lit_len)

end
