(* ===== verification/Porto_Codec.thy ===== *)
theory Porto_Codec
  imports Process_Codec
begin

text \<open>
  The porto profile (\<^verbatim>\<open>src/isolate/porto/profile.go\<close>) and its generated codec
  (\<^verbatim>\<open>profile_decodable.go\<close>).  This code comes from a newer generator: every error is wrapped
  with the path of the field it occurred in, so the loops below carry that path.
\<close>

section \<open>Loops with error paths\<close>

abbreviation in_ctx :: "string list \<Rightarrow> (rerr, 's, 'a) rd \<Rightarrow> (rerr, 's, 'a) rd" where
  "in_ctx ctx \<equiv> rd_wrap (WrapError ctx)"

definition decode_fields_ctx ::
  "'s src \<Rightarrow> string list \<Rightarrow> (string \<Rightarrow> 'z \<Rightarrow> (rerr, 's, 'z) rd) \<Rightarrow> 'z \<Rightarrow> (rerr, 's, 'z) rd" where
  "decode_fields_ctx S ctx fld z =
     rd_bind (in_ctx ctx (rMapHeader S)) (\<lambda>n.
       rd_times (unat n) (\<lambda>z. rd_bind (in_ctx ctx (rKey S)) (\<lambda>k. fld (bytes_str k) z)) z)"

definition map_entry_ctx :: "'s src \<Rightarrow> string list \<Rightarrow> strmap \<Rightarrow> (rerr, 's, strmap) rd" where
  "map_entry_ctx S ctx m =
     rd_bind (in_ctx ctx (rString S)) (\<lambda>k.
     rd_bind (in_ctx (ctx @ [k]) (rString S)) (\<lambda>v. rd_return (m(k \<mapsto> v))))"

definition decode_map_ctx :: "'s src \<Rightarrow> string list \<Rightarrow> (rerr, 's, strmap) rd" where
  "decode_map_ctx S ctx =
     rd_bind (in_ctx ctx (rMapHeader S)) (\<lambda>n. rd_times (unat n) (map_entry_ctx S ctx) Map.empty)"

text \<open>Reading a slice: an element is decoded into the old element at its place.\<close>

definition decode_slice_ctx ::
  "'s src \<Rightarrow> string list \<Rightarrow> 'a \<Rightarrow> ('a \<Rightarrow> (rerr, 's, 'a) rd) \<Rightarrow> 'a slice \<Rightarrow> (rerr, 's, 'a slice) rd" where
  "decode_slice_ctx S ctx zero f old =
     rd_bind (in_ctx ctx (rArrayHeader S)) (\<lambda>n.
       slice_fill (\<lambda>x i. in_ctx (ctx @ [show_nat i]) (f x)) 0 (unat n) (resize zero (unat n) old))"

definition skip_field_ctx :: "'s src \<Rightarrow> string list \<Rightarrow> 'z \<Rightarrow> (rerr, 's, 'z) rd" where
  "skip_field_ctx S ctx z = rd_bind (in_ctx ctx (rSkip S)) (\<lambda>_. rd_return z)"

fun write_pairs_ctx :: "string list \<Rightarrow> (string \<times> string) list \<Rightarrow> (rerr, writer, unit) rd" where
  "write_pairs_ctx ctx [] = rd_return ()"
| "write_pairs_ctx ctx ((k, v) # ps) =
     rd_bind (in_ctx ctx (WriteString k)) (\<lambda>_.
     rd_bind (in_ctx (ctx @ [k]) (WriteString v)) (\<lambda>_. write_pairs_ctx ctx ps))"

fun write_slice_ctx ::
  "string list \<Rightarrow> ('a \<Rightarrow> (rerr, writer, unit) rd) \<Rightarrow> nat \<Rightarrow> 'a list \<Rightarrow> (rerr, writer, unit) rd" where
  "write_slice_ctx ctx f i [] = rd_return ()"
| "write_slice_ctx ctx f i (x # xs) =
     rd_bind (in_ctx (ctx @ [show_nat i]) (f x)) (\<lambda>_. write_slice_ctx ctx f (Suc i) xs)"

section \<open>Layer\<close>

record Layer =
  Digest :: string
  DigestType :: string
  Size :: u64
  TorrentId :: string

definition zero_Layer :: Layer where
  "zero_Layer = \<lparr>Digest = '''', DigestType = '''', Size = 0, TorrentId = ''''\<rparr>"

definition Layer_fields :: "'s src \<Rightarrow> string \<Rightarrow> Layer \<Rightarrow> (rerr, 's, Layer) rd" where
  "Layer_fields S field z =
     (if field = ''digest'' then
        rd_bind (in_ctx [''Digest''] (rString S)) (\<lambda>v. rd_return (z\<lparr>Digest := v\<rparr>))
      else if field = ''digest_type'' then
        rd_bind (in_ctx [''DigestType''] (rString S)) (\<lambda>v. rd_return (z\<lparr>DigestType := v\<rparr>))
      else if field = ''size'' then
        rd_bind (in_ctx [''Size''] (rUint S)) (\<lambda>v. rd_return (z\<lparr>Size := v\<rparr>))
      else if field = ''torrent_id'' then
        rd_bind (in_ctx [''TorrentId''] (rString S)) (\<lambda>v. rd_return (z\<lparr>TorrentId := v\<rparr>))
      else skip_field_ctx S [] z)"

definition Layer_DecodeMsg :: "Layer \<Rightarrow> (rerr, reader, Layer) rd" where
  "Layer_DecodeMsg z = decode_fields_ctx reader_src [] (Layer_fields reader_src) z"

definition Layer_EncodeMsg :: "Layer \<Rightarrow> (rerr, writer, unit) rd" where
  "Layer_EncodeMsg z =
     rd_bind (wr_Append [0x84, 0xa6, 0x64, 0x69, 0x67, 0x65, 0x73, 0x74]) (\<lambda>_.
     rd_bind (in_ctx [''Digest''] (WriteString (Digest z))) (\<lambda>_.
     rd_bind (wr_Append [0xab, 0x64, 0x69, 0x67, 0x65, 0x73, 0x74, 0x5f, 0x74, 0x79, 0x70, 0x65]) (\<lambda>_.
     rd_bind (in_ctx [''DigestType''] (WriteString (DigestType z))) (\<lambda>_.
     rd_bind (wr_Append [0xa4, 0x73, 0x69, 0x7a, 0x65]) (\<lambda>_.
     rd_bind (in_ctx [''Size''] (WriteUint (Size z))) (\<lambda>_.
     rd_bind (wr_Append [0xaa, 0x74, 0x6f, 0x72, 0x72, 0x65, 0x6e, 0x74, 0x5f, 0x69, 0x64]) (\<lambda>_.
     in_ctx [''TorrentId''] (WriteString (TorrentId z)))))))))"

definition Layer_MarshalMsg :: "Layer \<Rightarrow> bytes \<Rightarrow> bytes" where
  "Layer_MarshalMsg z b =
     (let o1 = b @ [0x84, 0xa6, 0x64, 0x69, 0x67, 0x65, 0x73, 0x74];
          o1 = AppendString o1 (Digest z);
          o1 = o1 @ [0xab, 0x64, 0x69, 0x67, 0x65, 0x73, 0x74, 0x5f, 0x74, 0x79, 0x70, 0x65];
          o1 = AppendString o1 (DigestType z);
          o1 = o1 @ [0xa4, 0x73, 0x69, 0x7a, 0x65];
          o1 = AppendUint o1 (Size z);
          o1 = o1 @ [0xaa, 0x74, 0x6f, 0x72, 0x72, 0x65, 0x6e, 0x74, 0x5f, 0x69, 0x64]
      in AppendString o1 (TorrentId z))"

definition Layer_UnmarshalMsg :: "Layer \<Rightarrow> (rerr, bytes, Layer) rd" where
  "Layer_UnmarshalMsg z = decode_fields_ctx bytes_src [] (Layer_fields bytes_src) z"

definition Layer_Msgsize :: "Layer \<Rightarrow> nat" where
  "Layer_Msgsize z = 1 + 7 + StringPrefixSize + length (Digest z) + 12 + StringPrefixSize +
     length (DigestType z) + 5 + UintSize + 11 + StringPrefixSize + length (TorrentId z)"

section \<open>ExtendedInfo\<close>

record ExtendedInfo =
  Layers :: "Layer slice"

definition ExtendedInfo_fields ::
  "'s src \<Rightarrow> string list \<Rightarrow> string \<Rightarrow> ExtendedInfo \<Rightarrow> (rerr, 's, ExtendedInfo) rd" where
  "ExtendedInfo_fields S ctx field z =
     (if field = ''layers'' then
        rd_bind (decode_slice_ctx S (ctx @ [''Layers'']) zero_Layer
            (decode_fields_ctx S [] (Layer_fields S)) (Layers z)) (\<lambda>v. rd_return (z\<lparr>Layers := v\<rparr>))
      else skip_field_ctx S ctx z)"

definition ExtendedInfo_DecodeMsg :: "ExtendedInfo \<Rightarrow> (rerr, reader, ExtendedInfo) rd" where
  "ExtendedInfo_DecodeMsg z = decode_fields_ctx reader_src [] (ExtendedInfo_fields reader_src []) z"

definition ExtendedInfo_EncodeMsg :: "ExtendedInfo \<Rightarrow> (rerr, writer, unit) rd" where
  "ExtendedInfo_EncodeMsg z =
     rd_bind (wr_Append [0x81, 0xa6, 0x6c, 0x61, 0x79, 0x65, 0x72, 0x73]) (\<lambda>_.
     rd_bind (in_ctx [''Layers''] (WriteArrayHeader (of_nat (length (elems (Layers z)))))) (\<lambda>_.
     write_slice_ctx [''Layers''] Layer_EncodeMsg 0 (elems (Layers z))))"

definition ExtendedInfo_MarshalMsg :: "ExtendedInfo \<Rightarrow> bytes \<Rightarrow> bytes" where
  "ExtendedInfo_MarshalMsg z b =
     (let o1 = b @ [0x81, 0xa6, 0x6c, 0x61, 0x79, 0x65, 0x72, 0x73];
          o1 = AppendArrayHeader o1 (of_nat (length (elems (Layers z))))
      in foldl (\<lambda>o1 l. Layer_MarshalMsg l o1) o1 (elems (Layers z)))"

definition ExtendedInfo_UnmarshalMsg :: "ExtendedInfo \<Rightarrow> (rerr, bytes, ExtendedInfo) rd" where
  "ExtendedInfo_UnmarshalMsg z = decode_fields_ctx bytes_src [] (ExtendedInfo_fields bytes_src []) z"

definition ExtendedInfo_Msgsize :: "ExtendedInfo \<Rightarrow> nat" where
  "ExtendedInfo_Msgsize z = 1 + 7 + ArrayHeaderSize + sum_list (map Layer_Msgsize (elems (Layers z)))"

section \<open>VolumeProfile\<close>

record VolumeProfile =
  Target :: string
  Properties :: strmap

definition zero_VolumeProfile :: VolumeProfile where
  "zero_VolumeProfile = \<lparr>Target = '''', Properties = Map.empty\<rparr>"

definition VolumeProfile_fields :: "'s src \<Rightarrow> string \<Rightarrow> VolumeProfile \<Rightarrow> (rerr, 's, VolumeProfile) rd" where
  "VolumeProfile_fields S field z =
     (if field = ''target'' then
        rd_bind (in_ctx [''Target''] (rString S)) (\<lambda>v. rd_return (z\<lparr>Target := v\<rparr>))
      else if field = ''properties'' then
        rd_bind (decode_map_ctx S [''Properties'']) (\<lambda>v. rd_return (z\<lparr>Properties := v\<rparr>))
      else skip_field_ctx S [] z)"

definition VolumeProfile_DecodeMsg :: "VolumeProfile \<Rightarrow> (rerr, reader, VolumeProfile) rd" where
  "VolumeProfile_DecodeMsg z = decode_fields_ctx reader_src [] (VolumeProfile_fields reader_src) z"

definition VolumeProfile_EncodeMsg :: "range_order \<Rightarrow> VolumeProfile \<Rightarrow> (rerr, writer, unit) rd" where
  "VolumeProfile_EncodeMsg ord z =
     rd_bind (wr_Append [0x82, 0xa6, 0x74, 0x61, 0x72, 0x67, 0x65, 0x74]) (\<lambda>_.
     rd_bind (in_ctx [''Target''] (WriteString (Target z))) (\<lambda>_.
     rd_bind (wr_Append [0xaa, 0x70, 0x72, 0x6f, 0x70, 0x65, 0x72, 0x74, 0x69, 0x65, 0x73]) (\<lambda>_.
     rd_bind (in_ctx [''Properties''] (WriteMapHeader (of_nat (length (ord (Properties z)))))) (\<lambda>_.
     write_pairs_ctx [''Properties''] (pairs ord (Properties z))))))"

definition VolumeProfile_MarshalMsg :: "range_order \<Rightarrow> VolumeProfile \<Rightarrow> bytes \<Rightarrow> bytes" where
  "VolumeProfile_MarshalMsg ord z b =
     (let o1 = b @ [0x82, 0xa6, 0x74, 0x61, 0x72, 0x67, 0x65, 0x74];
          o1 = AppendString o1 (Target z);
          o1 = o1 @ [0xaa, 0x70, 0x72, 0x6f, 0x70, 0x65, 0x72, 0x74, 0x69, 0x65, 0x73];
          o1 = AppendMapHeader o1 (of_nat (length (ord (Properties z))))
      in append_pairs o1 (pairs ord (Properties z)))"

definition VolumeProfile_UnmarshalMsg :: "VolumeProfile \<Rightarrow> (rerr, bytes, VolumeProfile) rd" where
  "VolumeProfile_UnmarshalMsg z = decode_fields_ctx bytes_src [] (VolumeProfile_fields bytes_src) z"

text \<open>The bound a \<^verbatim>\<open>Msgsize\<close> method adds for the entries of a map.\<close>

definition pairs_size :: "range_order \<Rightarrow> strmap \<Rightarrow> nat" where
  "pairs_size ord m =
     sum_list (map (\<lambda>(k, v). StringPrefixSize + length k + StringPrefixSize + length v) (pairs ord m))"

definition VolumeProfile_Msgsize :: "range_order \<Rightarrow> VolumeProfile \<Rightarrow> nat" where
  "VolumeProfile_Msgsize ord z =
     1 + 7 + StringPrefixSize + length (Target z) + 11 + MapHeaderSize + pairs_size ord (Properties z)"

section \<open>Profile\<close>

record PortoProfile =
  Registry :: string
  Repository :: string
  NetworkMode :: string
  Network :: strmap
  ExtInfo :: ExtendedInfo
  Cwd :: string
  Binds :: "string slice"
  Container :: strmap
  Volume :: strmap
  ExtraVolumes :: "VolumeProfile slice"

definition PortoProfile_fields ::
  "'s src \<Rightarrow> string \<Rightarrow> PortoProfile \<Rightarrow> (rerr, 's, PortoProfile) rd" where
  "PortoProfile_fields S field z =
     (if field = ''registry'' then
        rd_bind (in_ctx [''Registry''] (rString S)) (\<lambda>v. rd_return (z\<lparr>Registry := v\<rparr>))
      else if field = ''repository'' then
        rd_bind (in_ctx [''Repository''] (rString S)) (\<lambda>v. rd_return (z\<lparr>Repository := v\<rparr>))
      else if field = ''network_mode'' then
        rd_bind (in_ctx [''NetworkMode''] (rString S)) (\<lambda>v. rd_return (z\<lparr>NetworkMode := v\<rparr>))
      else if field = ''network'' then
        rd_bind (decode_map_ctx S [''Network'']) (\<lambda>v. rd_return (z\<lparr>Network := v\<rparr>))
      else if field = ''extended_info'' then
        rd_bind (decode_fields_ctx S [''ExtendedInfo''] (ExtendedInfo_fields S [''ExtendedInfo'']) (ExtInfo z))
          (\<lambda>v. rd_return (z\<lparr>ExtInfo := v\<rparr>))
      else if field = ''cwd'' then
        rd_bind (in_ctx [''Cwd''] (rString S)) (\<lambda>v. rd_return (z\<lparr>Cwd := v\<rparr>))
      else if field = ''binds'' then
        rd_bind (decode_slice_ctx S [''Binds''] '''' (\<lambda>_. rString S) (Binds z))
          (\<lambda>v. rd_return (z\<lparr>Binds := v\<rparr>))
      else if field = ''container'' then
        rd_bind (decode_map_ctx S [''Container'']) (\<lambda>v. rd_return (z\<lparr>Container := v\<rparr>))
      else if field = ''volume'' then
        rd_bind (decode_map_ctx S [''Volume'']) (\<lambda>v. rd_return (z\<lparr>Volume := v\<rparr>))
      else if field = ''extravolumes'' then
        rd_bind (decode_slice_ctx S [''ExtraVolumes''] zero_VolumeProfile
            (decode_fields_ctx S [] (VolumeProfile_fields S)) (ExtraVolumes z))
          (\<lambda>v. rd_return (z\<lparr>ExtraVolumes := v\<rparr>))
      else skip_field_ctx S [] z)"

definition PortoProfile_DecodeMsg :: "PortoProfile \<Rightarrow> (rerr, reader, PortoProfile) rd" where
  "PortoProfile_DecodeMsg z = decode_fields_ctx reader_src [] (PortoProfile_fields reader_src) z"

definition PortoProfile_EncodeMsg :: "range_order \<Rightarrow> PortoProfile \<Rightarrow> (rerr, writer, unit) rd" where
  "PortoProfile_EncodeMsg ord z =
     rd_bind (wr_Append [0x8a, 0xa8, 0x72, 0x65, 0x67, 0x69, 0x73, 0x74, 0x72, 0x79]) (\<lambda>_.
     rd_bind (in_ctx [''Registry''] (WriteString (Registry z))) (\<lambda>_.
     rd_bind (wr_Append [0xaa, 0x72, 0x65, 0x70, 0x6f, 0x73, 0x69, 0x74, 0x6f, 0x72, 0x79]) (\<lambda>_.
     rd_bind (in_ctx [''Repository''] (WriteString (Repository z))) (\<lambda>_.
     rd_bind (wr_Append [0xac, 0x6e, 0x65, 0x74, 0x77, 0x6f, 0x72, 0x6b, 0x5f, 0x6d, 0x6f, 0x64, 0x65]) (\<lambda>_.
     rd_bind (in_ctx [''NetworkMode''] (WriteString (NetworkMode z))) (\<lambda>_.
     rd_bind (wr_Append [0xa7, 0x6e, 0x65, 0x74, 0x77, 0x6f, 0x72, 0x6b]) (\<lambda>_.
     rd_bind (in_ctx [''Network''] (WriteMapHeader (of_nat (length (ord (Network z)))))) (\<lambda>_.
     rd_bind (write_pairs_ctx [''Network''] (pairs ord (Network z))) (\<lambda>_.
     rd_bind (wr_Append [0xad, 0x65, 0x78, 0x74, 0x65, 0x6e, 0x64, 0x65, 0x64, 0x5f, 0x69, 0x6e, 0x66, 0x6f,
       0x81, 0xa6, 0x6c, 0x61, 0x79, 0x65, 0x72, 0x73]) (\<lambda>_.
     rd_bind (in_ctx [''ExtendedInfo'', ''Layers'']
       (WriteArrayHeader (of_nat (length (elems (Layers (ExtInfo z))))))) (\<lambda>_.
     rd_bind (write_slice_ctx [''ExtendedInfo'', ''Layers''] Layer_EncodeMsg 0 (elems (Layers (ExtInfo z)))) (\<lambda>_.
     rd_bind (wr_Append [0xa3, 0x63, 0x77, 0x64]) (\<lambda>_.
     rd_bind (in_ctx [''Cwd''] (WriteString (Cwd z))) (\<lambda>_.
     rd_bind (wr_Append [0xa5, 0x62, 0x69, 0x6e, 0x64, 0x73]) (\<lambda>_.
     rd_bind (in_ctx [''Binds''] (WriteArrayHeader (of_nat (length (elems (Binds z)))))) (\<lambda>_.
     rd_bind (write_slice_ctx [''Binds''] WriteString 0 (elems (Binds z))) (\<lambda>_.
     rd_bind (wr_Append [0xa9, 0x63, 0x6f, 0x6e, 0x74, 0x61, 0x69, 0x6e, 0x65, 0x72]) (\<lambda>_.
     rd_bind (in_ctx [''Container''] (WriteMapHeader (of_nat (length (ord (Container z)))))) (\<lambda>_.
     rd_bind (write_pairs_ctx [''Container''] (pairs ord (Container z))) (\<lambda>_.
     rd_bind (wr_Append [0xa6, 0x76, 0x6f, 0x6c, 0x75, 0x6d, 0x65]) (\<lambda>_.
     rd_bind (in_ctx [''Volume''] (WriteMapHeader (of_nat (length (ord (Volume z)))))) (\<lambda>_.
     rd_bind (write_pairs_ctx [''Volume''] (pairs ord (Volume z))) (\<lambda>_.
     rd_bind (wr_Append [0xac, 0x65, 0x78, 0x74, 0x72, 0x61, 0x76, 0x6f, 0x6c, 0x75, 0x6d, 0x65, 0x73]) (\<lambda>_.
     rd_bind (in_ctx [''ExtraVolumes''] (WriteArrayHeader (of_nat (length (elems (ExtraVolumes z)))))) (\<lambda>_.
     write_slice_ctx [''ExtraVolumes''] (VolumeProfile_EncodeMsg ord) 0
       (elems (ExtraVolumes z)))))))))))))))))))))))))))"

definition PortoProfile_MarshalMsg :: "range_order \<Rightarrow> PortoProfile \<Rightarrow> bytes \<Rightarrow> bytes" where
  "PortoProfile_MarshalMsg ord z b =
     (let o1 = b @ [0x8a, 0xa8, 0x72, 0x65, 0x67, 0x69, 0x73, 0x74, 0x72, 0x79];
          o1 = AppendString o1 (Registry z);
          o1 = o1 @ [0xaa, 0x72, 0x65, 0x70, 0x6f, 0x73, 0x69, 0x74, 0x6f, 0x72, 0x79];
          o1 = AppendString o1 (Repository z);
          o1 = o1 @ [0xac, 0x6e, 0x65, 0x74, 0x77, 0x6f, 0x72, 0x6b, 0x5f, 0x6d, 0x6f, 0x64, 0x65];
          o1 = AppendString o1 (NetworkMode z);
          o1 = o1 @ [0xa7, 0x6e, 0x65, 0x74, 0x77, 0x6f, 0x72, 0x6b];
          o1 = AppendMapHeader o1 (of_nat (length (ord (Network z))));
          o1 = append_pairs o1 (pairs ord (Network z));
          o1 = o1 @ [0xad, 0x65, 0x78, 0x74, 0x65, 0x6e, 0x64, 0x65, 0x64, 0x5f, 0x69, 0x6e, 0x66, 0x6f,
                 0x81, 0xa6, 0x6c, 0x61, 0x79, 0x65, 0x72, 0x73];
          o1 = AppendArrayHeader o1 (of_nat (length (elems (Layers (ExtInfo z)))));
          o1 = foldl (\<lambda>o1 l. Layer_MarshalMsg l o1) o1 (elems (Layers (ExtInfo z)));
          o1 = o1 @ [0xa3, 0x63, 0x77, 0x64];
          o1 = AppendString o1 (Cwd z);
          o1 = o1 @ [0xa5, 0x62, 0x69, 0x6e, 0x64, 0x73];
          o1 = AppendArrayHeader o1 (of_nat (length (elems (Binds z))));
          o1 = append_strings o1 (elems (Binds z));
          o1 = o1 @ [0xa9, 0x63, 0x6f, 0x6e, 0x74, 0x61, 0x69, 0x6e, 0x65, 0x72];
          o1 = AppendMapHeader o1 (of_nat (length (ord (Container z))));
          o1 = append_pairs o1 (pairs ord (Container z));
          o1 = o1 @ [0xa6, 0x76, 0x6f, 0x6c, 0x75, 0x6d, 0x65];
          o1 = AppendMapHeader o1 (of_nat (length (ord (Volume z))));
          o1 = append_pairs o1 (pairs ord (Volume z));
          o1 = o1 @ [0xac, 0x65, 0x78, 0x74, 0x72, 0x61, 0x76, 0x6f, 0x6c, 0x75, 0x6d, 0x65, 0x73];
          o1 = AppendArrayHeader o1 (of_nat (length (elems (ExtraVolumes z))))
      in foldl (\<lambda>o1 v. VolumeProfile_MarshalMsg ord v o1) o1 (elems (ExtraVolumes z)))"

definition PortoProfile_UnmarshalMsg :: "PortoProfile \<Rightarrow> (rerr, bytes, PortoProfile) rd" where
  "PortoProfile_UnmarshalMsg z = decode_fields_ctx bytes_src [] (PortoProfile_fields bytes_src) z"

definition PortoProfile_Msgsize :: "range_order \<Rightarrow> PortoProfile \<Rightarrow> nat" where
  "PortoProfile_Msgsize ord z =
     1 + 9 + StringPrefixSize + length (Registry z) + 11 + StringPrefixSize + length (Repository z) +
     13 + StringPrefixSize + length (NetworkMode z) + 8 + MapHeaderSize + pairs_size ord (Network z) +
     14 + 1 + 7 + ArrayHeaderSize + sum_list (map Layer_Msgsize (elems (Layers (ExtInfo z)))) +
     4 + StringPrefixSize + length (Cwd z) + 6 + ArrayHeaderSize +
     sum_list (map (\<lambda>s. StringPrefixSize + length s) (elems (Binds z))) +
     10 + MapHeaderSize + pairs_size ord (Container z) + 7 + MapHeaderSize + pairs_size ord (Volume z) +
     13 + ArrayHeaderSize + sum_list (map (VolumeProfile_Msgsize ord) (elems (ExtraVolumes z)))"

section \<open>Well-formed profiles\<close>

definition Layer_wf :: "Layer \<Rightarrow> bool" where
  "Layer_wf z \<longleftrightarrow> length (Digest z) < 2 ^ 32 \<and> length (DigestType z) < 2 ^ 32 \<and> length (TorrentId z) < 2 ^ 32"

definition VolumeProfile_wf :: "range_order \<Rightarrow> VolumeProfile \<Rightarrow> bool" where
  "VolumeProfile_wf ord z \<longleftrightarrow> length (Target z) < 2 ^ 32 \<and> map_wf ord (Properties z)"

definition PortoProfile_wf :: "range_order \<Rightarrow> PortoProfile \<Rightarrow> bool" where
  "PortoProfile_wf ord z \<longleftrightarrow> length (Registry z) < 2 ^ 32 \<and> length (Repository z) < 2 ^ 32 \<and>
     length (NetworkMode z) < 2 ^ 32 \<and> map_wf ord (Network z) \<and>
     length (elems (Layers (ExtInfo z))) < 2 ^ 32 \<and> (\<forall>l \<in> set (elems (Layers (ExtInfo z))). Layer_wf l) \<and>
     length (Cwd z) < 2 ^ 32 \<and> strings_wf (elems (Binds z)) \<and> map_wf ord (Container z) \<and>
     map_wf ord (Volume z) \<and> length (elems (ExtraVolumes z)) < 2 ^ 32 \<and>
     (\<forall>v \<in> set (elems (ExtraVolumes z)). VolumeProfile_wf ord v)"

text \<open>Profiles that differ at most in the storage behind their slices.\<close>

definition PortoProfile_agree :: "PortoProfile \<Rightarrow> PortoProfile \<Rightarrow> bool" where
  "PortoProfile_agree z' z \<longleftrightarrow>
     z' = z\<lparr>ExtInfo := ExtInfo z', Binds := Binds z', ExtraVolumes := ExtraVolumes z'\<rparr> \<and>
     elems (Layers (ExtInfo z')) = elems (Layers (ExtInfo z)) \<and> elems (Binds z') = elems (Binds z) \<and>
     elems (ExtraVolumes z') = elems (ExtraVolumes z)"

section \<open>Encodings as sequences of objects\<close>

lemma layer_lit:
  "[0x84, 0xa6, 0x64, 0x69, 0x67, 0x65, 0x73, 0x74] = AppendMapHeader [] 4 @ AppendString [] ''digest''"
  "[0xab, 0x64, 0x69, 0x67, 0x65, 0x73, 0x74, 0x5f, 0x74, 0x79, 0x70, 0x65] = AppendString [] ''digest_type''"
  "[0xa4, 0x73, 0x69, 0x7a, 0x65] = AppendString [] ''size''"
  "[0xaa, 0x74, 0x6f, 0x72, 0x72, 0x65, 0x6e, 0x74, 0x5f, 0x69, 0x64] = AppendString [] ''torrent_id''"
  by (simp_all add: key_lit)

lemma volume_lit:
  "[0x82, 0xa6, 0x74, 0x61, 0x72, 0x67, 0x65, 0x74] = AppendMapHeader [] 2 @ AppendString [] ''target''"
  "[0xaa, 0x70, 0x72, 0x6f, 0x70, 0x65, 0x72, 0x74, 0x69, 0x65, 0x73] = AppendString [] ''properties''"
  by (simp_all add: key_lit)

lemma porto_lit:
  "[0x8a, 0xa8, 0x72, 0x65, 0x67, 0x69, 0x73, 0x74, 0x72, 0x79] =
     AppendMapHeader [] 10 @ AppendString [] ''registry''"
  "[0xaa, 0x72, 0x65, 0x70, 0x6f, 0x73, 0x69, 0x74, 0x6f, 0x72, 0x79] = AppendString [] ''repository''"
  "[0xac, 0x6e, 0x65, 0x74, 0x77, 0x6f, 0x72, 0x6b, 0x5f, 0x6d, 0x6f, 0x64, 0x65] =
     AppendString [] ''network_mode''"
  "[0xa7, 0x6e, 0x65, 0x74, 0x77, 0x6f, 0x72, 0x6b] = AppendString [] ''network''"
  "[0xad, 0x65, 0x78, 0x74, 0x65, 0x6e, 0x64, 0x65, 0x64, 0x5f, 0x69, 0x6e, 0x66, 0x6f,
     0x81, 0xa6, 0x6c, 0x61, 0x79, 0x65, 0x72, 0x73] =
     AppendString [] ''extended_info'' @ AppendMapHeader [] 1 @ AppendString [] ''layers''"
  "[0xa3, 0x63, 0x77, 0x64] = AppendString [] ''cwd''"
  "[0xa5, 0x62, 0x69, 0x6e, 0x64, 0x73] = AppendString [] ''binds''"
  "[0xa9, 0x63, 0x6f, 0x6e, 0x74, 0x61, 0x69, 0x6e, 0x65, 0x72] = AppendString [] ''container''"
  "[0xa6, 0x76, 0x6f, 0x6c, 0x75, 0x6d, 0x65] = AppendString [] ''volume''"
  "[0xac, 0x65, 0x78, 0x74, 0x72, 0x61, 0x76, 0x6f, 0x6c, 0x75, 0x6d, 0x65, 0x73] =
     AppendString [] ''extravolumes''"
  by (simp_all add: key_lit)

lemma info_lit:
  "[0x81, 0xa6, 0x6c, 0x61, 0x79, 0x65, 0x72, 0x73] = AppendMapHeader [] 1 @ AppendString [] ''layers''"
  by (simp add: key_lit)

lemma Layer_MarshalMsg_eq:
  "Layer_MarshalMsg z b = b @
     AppendMapHeader [] 4 @ AppendString [] ''digest'' @ AppendString [] (Digest z) @
     AppendString [] ''digest_type'' @ AppendString [] (DigestType z) @
     AppendString [] ''size'' @ AppendUint [] (Size z) @
     AppendString [] ''torrent_id'' @ AppendString [] (TorrentId z)"
  unfolding Layer_MarshalMsg_def Let_def by (simp add: append_simps layer_lit)

lemma VolumeProfile_MarshalMsg_eq:
  "VolumeProfile_MarshalMsg ord z b = b @
     AppendMapHeader [] 2 @ AppendString [] ''target'' @ AppendString [] (Target z) @
     AppendString [] ''properties'' @ AppendMapStrStr ord [] (Properties z)"
  unfolding VolumeProfile_MarshalMsg_def Let_def AppendMapStrStr_def by (simp add: append_simps volume_lit)

lemma foldl_marshal:
  assumes "\<And>x b. f x b = b @ f x []"
  shows "foldl (\<lambda>o1 x. f x o1) b xs = b @ concat (map (\<lambda>x. f x []) xs)"
proof (induction xs arbitrary: b)
  case (Cons x xs)
  then show ?case using assms [of x b] by simp
qed simp

lemma foldl_Layer:
  "foldl (\<lambda>o1 l. Layer_MarshalMsg l o1) b ls = b @ concat (map (\<lambda>l. Layer_MarshalMsg l []) ls)"
  by (rule foldl_marshal) (simp add: Layer_MarshalMsg_eq)

lemma foldl_VolumeProfile:
  "foldl (\<lambda>o1 v. VolumeProfile_MarshalMsg ord v o1) b vs =
     b @ concat (map (\<lambda>v. VolumeProfile_MarshalMsg ord v []) vs)"
  by (rule foldl_marshal) (simp add: VolumeProfile_MarshalMsg_eq)

lemma ExtendedInfo_MarshalMsg_eq:
  "ExtendedInfo_MarshalMsg z b = b @ AppendMapHeader [] 1 @ AppendString [] ''layers'' @
     AppendArrayHeader [] (of_nat (length (elems (Layers z)))) @
     concat (map (\<lambda>l. Layer_MarshalMsg l []) (elems (Layers z)))"
  unfolding ExtendedInfo_MarshalMsg_def Let_def foldl_Layer by (simp add: append_simps info_lit)

lemma PortoProfile_MarshalMsg_eq:
  "PortoProfile_MarshalMsg ord z b = b @
     AppendMapHeader [] 10 @ AppendString [] ''registry'' @ AppendString [] (Registry z) @
     AppendString [] ''repository'' @ AppendString [] (Repository z) @
     AppendString [] ''network_mode'' @ AppendString [] (NetworkMode z) @
     AppendString [] ''network'' @ AppendMapStrStr ord [] (Network z) @
     AppendString [] ''extended_info'' @ ExtendedInfo_MarshalMsg (ExtInfo z) [] @
     AppendString [] ''cwd'' @ AppendString [] (Cwd z) @
     AppendString [] ''binds'' @ AppendArrayHeader [] (of_nat (length (elems (Binds z)))) @
     concat (map (AppendString []) (elems (Binds z))) @
     AppendString [] ''container'' @ AppendMapStrStr ord [] (Container z) @
     AppendString [] ''volume'' @ AppendMapStrStr ord [] (Volume z) @
     AppendString [] ''extravolumes'' @ AppendArrayHeader [] (of_nat (length (elems (ExtraVolumes z)))) @
     concat (map (\<lambda>v. VolumeProfile_MarshalMsg ord v []) (elems (ExtraVolumes z)))"
  unfolding PortoProfile_MarshalMsg_def Let_def AppendMapStrStr_def foldl_Layer foldl_VolumeProfile
  by (simp add: append_simps porto_lit append_strings_concat ExtendedInfo_MarshalMsg_eq)

section \<open>Reading profiles back\<close>

lemma map_entry_ctx_eq:
  "map_entry S m s = (Inr m', s') \<Longrightarrow> map_entry_ctx S ctx m s = (Inr m', s')"
  by (auto simp: map_entry_def map_entry_ctx_def rd_bind_eq_Inr rd_wrap_eq_Inr)

lemma decode_map_ctx_eq:
  "decode_map S s = (Inr m, s') \<Longrightarrow> decode_map_ctx S ctx s = (Inr m, s')"
  by (auto simp: decode_map_def decode_map_ctx_def rd_bind_eq_Inr rd_wrap_eq_Inr
      intro!: rd_times_mono [OF map_entry_ctx_eq])

context msgp_source
begin

lemma layer_back:
  assumes "Layer_wf z"
  shows "decode_fields_ctx S ctx (Layer_fields S) z0 (put (Layer_MarshalMsg z [] @ bs) s) = (Inr z, put bs s)"
  using assms by (simp add: Layer_MarshalMsg_eq decode_fields_ctx_def Layer_fields_def Layer_wf_def
      rd_simps map_header key str uint)

lemma read_map_ctx:
  "map_wf ord m \<Longrightarrow> decode_map_ctx S ctx (put (AppendMapStrStr ord [] m @ bs) s) = (Inr m, put bs s)"
  by (rule decode_map_ctx_eq) (rule read_map_wf)

lemma volume_back:
  assumes "VolumeProfile_wf ord z"
  shows "decode_fields_ctx S ctx (VolumeProfile_fields S) z0
    (put (VolumeProfile_MarshalMsg ord z [] @ bs) s) = (Inr z, put bs s)"
  using assms by (simp add: VolumeProfile_MarshalMsg_eq decode_fields_ctx_def VolumeProfile_fields_def
      VolumeProfile_wf_def rd_simps map_header key str read_map_ctx)

lemma read_slice_ctx:
  assumes "\<forall>y \<in> set ys. \<forall>old bs. f old (put (enc y @ bs) s) = (Inr y, put bs s)" "length ys < 2 ^ 32"
  shows "\<exists>sl. decode_slice_ctx S ctx zero f old
      (put (AppendArrayHeader [] (of_nat (length ys)) @ concat (map enc ys) @ bs) s) = (Inr sl, put bs s) \<and>
    elems sl = ys"
proof -
  let ?sl = "resize zero (length ys) old" and ?f = "\<lambda>x i. in_ctx (ctx @ [show_nat i]) (f x)"
  have "slice_fill ?f 0 (length ys) ?sl (put (concat (map enc ys) @ bs) s) =
      (Inr (Slice (take 0 (arr ?sl) @ ys @ drop (0 + length ys) (arr ?sl)) (len ?sl)), put bs s)"
    by (rule read_elems) (use assms(1) length_arr_resize in \<open>simp_all add: rd_wrap_Inr\<close>)
  then show ?thesis
    using assms(2) by (simp add: decode_slice_ctx_def rd_simps array_header elems_def)
qed

lemma extended_info_back:
  assumes "length (elems (Layers z)) < 2 ^ 32" "\<forall>l \<in> set (elems (Layers z)). Layer_wf l"
  shows "\<exists>z'. decode_fields_ctx S ctx (ExtendedInfo_fields S ctx) z0
    (put (ExtendedInfo_MarshalMsg z [] @ bs) s) = (Inr z', put bs s) \<and> elems (Layers z') = elems (Layers z)"
proof -
  obtain sl where "decode_slice_ctx S (ctx @ [''Layers'']) zero_Layer
      (decode_fields_ctx S [] (Layer_fields S)) (Layers z0)
      (put (AppendArrayHeader [] (of_nat (length (elems (Layers z)))) @
        concat (map (\<lambda>l. Layer_MarshalMsg l []) (elems (Layers z))) @ bs) s) = (Inr sl, put bs s)"
    "elems sl = elems (Layers z)"
    using read_slice_ctx [of "elems (Layers z)" "decode_fields_ctx S [] (Layer_fields S)"
        "\<lambda>l. Layer_MarshalMsg l []"] assms layer_back by blast
  then show ?thesis
    by (simp add: ExtendedInfo_MarshalMsg_eq decode_fields_ctx_def [of S ctx] ExtendedInfo_fields_def
        rd_simps map_header key)
qed

lemma porto_profile_back:
  assumes "PortoProfile_wf ord z"
  shows "\<exists>z'. decode_fields_ctx S ctx (PortoProfile_fields S) z0 (put (PortoProfile_MarshalMsg ord z [] @ bs) s) =
    (Inr z', put bs s) \<and> PortoProfile_agree z' z"
proof -
  note wf = assms [unfolded PortoProfile_wf_def strings_wf_def]
  have "\<exists>x. decode_fields_ctx S [''ExtendedInfo''] (ExtendedInfo_fields S [''ExtendedInfo'']) (ExtInfo z0)
      (put (ExtendedInfo_MarshalMsg (ExtInfo z) [] @ rs) s) = (Inr x, put rs s) \<and>
      elems (Layers x) = elems (Layers (ExtInfo z))" for rs
    using wf by (intro extended_info_back) auto
  then obtain xi where xi: "\<And>rs. decode_fields_ctx S [''ExtendedInfo'']
      (ExtendedInfo_fields S [''ExtendedInfo'']) (ExtInfo z0)
      (put (ExtendedInfo_MarshalMsg (ExtInfo z) [] @ rs) s) = (Inr (xi rs), put rs s)"
      "\<And>rs. elems (Layers (xi rs)) = elems (Layers (ExtInfo z))" by metis
  have "\<exists>sl. decode_slice_ctx S [''Binds''] '''' (\<lambda>_. rString S) (Binds z0)
      (put (AppendArrayHeader [] (of_nat (length (elems (Binds z)))) @
        concat (map (AppendString []) (elems (Binds z))) @ rs) s) = (Inr sl, put rs s) \<and>
      elems sl = elems (Binds z)" for rs
    using wf by (intro read_slice_ctx) (auto simp: str)
  then obtain xb where xb: "\<And>rs. decode_slice_ctx S [''Binds''] '''' (\<lambda>_. rString S) (Binds z0)
      (put (AppendArrayHeader [] (of_nat (length (elems (Binds z)))) @
        concat (map (AppendString []) (elems (Binds z))) @ rs) s) = (Inr (xb rs), put rs s)"
      "\<And>rs. elems (xb rs) = elems (Binds z)" by metis
  have "\<exists>sl. decode_slice_ctx S [''ExtraVolumes''] zero_VolumeProfile
      (decode_fields_ctx S [] (VolumeProfile_fields S)) (ExtraVolumes z0)
      (put (AppendArrayHeader [] (of_nat (length (elems (ExtraVolumes z)))) @
        concat (map (\<lambda>v. VolumeProfile_MarshalMsg ord v []) (elems (ExtraVolumes z))) @ rs) s) =
      (Inr sl, put rs s) \<and> elems sl = elems (ExtraVolumes z)" for rs
    using wf by (intro read_slice_ctx) (auto simp: volume_back)
  then obtain xv where xv: "\<And>rs. decode_slice_ctx S [''ExtraVolumes''] zero_VolumeProfile
      (decode_fields_ctx S [] (VolumeProfile_fields S)) (ExtraVolumes z0)
      (put (AppendArrayHeader [] (of_nat (length (elems (ExtraVolumes z)))) @
        concat (map (\<lambda>v. VolumeProfile_MarshalMsg ord v []) (elems (ExtraVolumes z))) @ rs) s) =
      (Inr (xv rs), put rs s)" "\<And>rs. elems (xv rs) = elems (ExtraVolumes z)" by metis
  show ?thesis
    using wf by (simp add: PortoProfile_MarshalMsg_eq decode_fields_ctx_def [of S ctx] PortoProfile_fields_def
        PortoProfile_agree_def rd_simps map_header key str read_map_ctx xi xb xv)
qed

end

section \<open>Encoders and size bounds\<close>

lemma emits_wrap:
  assumes "emits f e"
  shows "emits (rd_wrap w f) e"
proof (rule emitsI)
  fix s assume "wr_ok s"
  with assms obtain res s' p where s': "f s = (res, s')" "wr_ok s'" "bufsize s' = bufsize s"
      "room s' + length (sink s') = room s + length (sink s)" "prefix p e" "out s' = out s @ p"
      "res = Inr () \<longrightarrow> p = e" "length (wbuf s) + length e \<le> room s \<longrightarrow> res = Inr ()"
    by (rule emitsE)
  show "\<exists>res s' p. rd_wrap w f s = (res, s') \<and> wr_ok s' \<and> bufsize s' = bufsize s \<and>
     room s' + length (sink s') = room s + length (sink s) \<and>
     prefix p e \<and> out s' = out s @ p \<and> (res = Inr () \<longrightarrow> p = e) \<and>
     (length (wbuf s) + length e \<le> room s \<longrightarrow> res = Inr ())"
    using s' by (cases res) (auto simp: rd_wrap_def)
qed

lemma pairs_ctx_emits:
  "\<forall>(k, v) \<in> set ps. length k < 2 ^ 32 \<and> length v < 2 ^ 32 \<Longrightarrow>
     emits (write_pairs_ctx ctx ps) (append_pairs [] ps)"
proof (induction ps)
  case (Cons p ps)
  obtain k v where p: "p = (k, v)" by (cases p)
  have "emits (write_pairs_ctx ctx (p # ps)) (AppendString [] k @ AppendString [] v @ append_pairs [] ps)"
    using Cons by (simp only: p write_pairs_ctx.simps) (intro emits_bind emits_wrap WriteString_emits; auto)
  then show ?case
    using append_pairs_split [of "AppendString (AppendString [] k) v" ps]
      AppendString_split [of "AppendString [] k" v] by (simp add: p)
qed (simp add: emits_return)

lemma slice_ctx_emits:
  "\<forall>x \<in> set xs. emits (f x) (enc x) \<Longrightarrow> emits (write_slice_ctx ctx f i xs) (concat (map enc xs))"
proof (induction xs arbitrary: i)
  case (Cons x xs)
  have "emits (write_slice_ctx ctx f i (x # xs)) (enc x @ concat (map enc xs))"
    unfolding write_slice_ctx.simps by (intro emits_bind emits_wrap) (use Cons in auto)
  then show ?case by simp
qed (simp add: emits_return)

lemma Layer_emits:
  assumes "Layer_wf z"
  shows "emits (Layer_EncodeMsg z) (Layer_MarshalMsg z [])"
proof (rule emits_cong)
  show "emits (Layer_EncodeMsg z)
    ((AppendMapHeader [] 4 @ AppendString [] ''digest'') @ AppendString [] (Digest z) @
     AppendString [] ''digest_type'' @ AppendString [] (DigestType z) @
     AppendString [] ''size'' @ AppendUint [] (Size z) @
     AppendString [] ''torrent_id'' @ AppendString [] (TorrentId z))"
    unfolding Layer_EncodeMsg_def layer_lit using assms
    by (intro emits_bind emits_wrap Append_emits WriteString_emits number_emits)
      (simp_all add: Layer_wf_def lit_len)
qed (simp add: Layer_MarshalMsg_eq)

lemma VolumeProfile_emits:
  assumes "VolumeProfile_wf ord z"
  shows "emits (VolumeProfile_EncodeMsg ord z) (VolumeProfile_MarshalMsg ord z [])"
proof (rule emits_cong)
  show "emits (VolumeProfile_EncodeMsg ord z)
    ((AppendMapHeader [] 2 @ AppendString [] ''target'') @ AppendString [] (Target z) @
     AppendString [] ''properties'' @ AppendMapHeader [] (of_nat (length (ord (Properties z)))) @
     append_pairs [] (pairs ord (Properties z)))"
    unfolding VolumeProfile_EncodeMsg_def volume_lit using assms
    by (intro emits_bind emits_wrap Append_emits WriteString_emits header_emits pairs_ctx_emits map_wf_pairs)
      (simp_all add: VolumeProfile_wf_def lit_len)
qed (simp add: VolumeProfile_MarshalMsg_eq AppendMapStrStr_eq)

lemma ExtendedInfo_emits:
  assumes "\<forall>l \<in> set (elems (Layers z)). Layer_wf l"
  shows "emits (ExtendedInfo_EncodeMsg z) (ExtendedInfo_MarshalMsg z [])"
proof (rule emits_cong)
  show "emits (ExtendedInfo_EncodeMsg z)
    ((AppendMapHeader [] 1 @ AppendString [] ''layers'') @
     AppendArrayHeader [] (of_nat (length (elems (Layers z)))) @
     concat (map (\<lambda>l. Layer_MarshalMsg l []) (elems (Layers z))))"
    unfolding ExtendedInfo_EncodeMsg_def info_lit using assms
    by (intro emits_bind emits_wrap Append_emits header_emits slice_ctx_emits) (simp_all add: lit_len Layer_emits)
qed (simp add: ExtendedInfo_MarshalMsg_eq)

lemma PortoProfile_emits:
  assumes "PortoProfile_wf ord z"
  shows "emits (PortoProfile_EncodeMsg ord z) (PortoProfile_MarshalMsg ord z [])"
proof (rule emits_cong)
  show "emits (PortoProfile_EncodeMsg ord z)
    ((AppendMapHeader [] 10 @ AppendString [] ''registry'') @ AppendString [] (Registry z) @
     AppendString [] ''repository'' @ AppendString [] (Repository z) @
     AppendString [] ''network_mode'' @ AppendString [] (NetworkMode z) @
     AppendString [] ''network'' @ AppendMapHeader [] (of_nat (length (ord (Network z)))) @
     append_pairs [] (pairs ord (Network z)) @
     (AppendString [] ''extended_info'' @ AppendMapHeader [] 1 @ AppendString [] ''layers'') @
     AppendArrayHeader [] (of_nat (length (elems (Layers (ExtInfo z))))) @
     concat (map (\<lambda>l. Layer_MarshalMsg l []) (elems (Layers (ExtInfo z)))) @
     AppendString [] ''cwd'' @ AppendString [] (Cwd z) @
     AppendString [] ''binds'' @ AppendArrayHeader [] (of_nat (length (elems (Binds z)))) @
     concat (map (AppendString []) (elems (Binds z))) @
     AppendString [] ''container'' @ AppendMapHeader [] (of_nat (length (ord (Container z)))) @
     append_pairs [] (pairs ord (Container z)) @
     AppendString [] ''volume'' @ AppendMapHeader [] (of_nat (length (ord (Volume z)))) @
     append_pairs [] (pairs ord (Volume z)) @
     AppendString [] ''extravolumes'' @ AppendArrayHeader [] (of_nat (length (elems (ExtraVolumes z)))) @
     concat (map (\<lambda>v. VolumeProfile_MarshalMsg ord v []) (elems (ExtraVolumes z))))"
    unfolding PortoProfile_EncodeMsg_def porto_lit using assms
    by (intro emits_bind emits_wrap Append_emits WriteString_emits header_emits pairs_ctx_emits
        slice_ctx_emits map_wf_pairs)
      (simp_all add: PortoProfile_wf_def strings_wf_def lit_len Layer_emits VolumeProfile_emits WriteString_emits)
qed (simp add: PortoProfile_MarshalMsg_eq AppendMapStrStr_eq ExtendedInfo_MarshalMsg_eq)

lemma length_concat_bound:
  "(\<And>x. length (enc x) \<le> g x) \<Longrightarrow> length (concat (map enc xs)) \<le> sum_list (map g xs)"
  by (induction xs) (simp_all add: add_mono)

lemma length_AppendMapStrStr:
  "length (AppendMapStrStr ord [] m) \<le> MapHeaderSize + pairs_size ord m"
  using length_headers(1) [of "of_nat (length (ord m))"] length_append_pairs [of "pairs ord m"]
  by (simp add: AppendMapStrStr_eq pairs_size_def)

lemma Layer_Msgsize_bound: "length (Layer_MarshalMsg z []) \<le> Layer_Msgsize z"
  using length_AppendString [of "Digest z"] length_AppendString [of "DigestType z"]
    length_AppendString [of "TorrentId z"] length_numbers(1) [of "Size z"]
  by (simp add: Layer_MarshalMsg_eq Layer_Msgsize_def lit_len)

lemma VolumeProfile_Msgsize_bound: "length (VolumeProfile_MarshalMsg ord z []) \<le> VolumeProfile_Msgsize ord z"
  using length_AppendString [of "Target z"] length_AppendMapStrStr [of ord "Properties z"]
  by (simp add: VolumeProfile_MarshalMsg_eq VolumeProfile_Msgsize_def lit_len)

lemma ExtendedInfo_Msgsize_bound: "length (ExtendedInfo_MarshalMsg z []) \<le> ExtendedInfo_Msgsize z"
  using length_headers(2) [of "of_nat (length (elems (Layers z)))"]
    length_concat_bound [of "\<lambda>l. Layer_MarshalMsg l []" Layer_Msgsize "elems (Layers z)", OF Layer_Msgsize_bound]
  by (simp add: ExtendedInfo_MarshalMsg_eq ExtendedInfo_Msgsize_def lit_len)

lemma PortoProfile_Msgsize_bound:
  "length (PortoProfile_MarshalMsg ord z []) \<le> PortoProfile_Msgsize ord z"
  using length_AppendString [of "Registry z"] length_AppendString [of "Repository z"]
    length_AppendString [of "NetworkMode z"] length_AppendString [of "Cwd z"]
    length_AppendMapStrStr [of ord "Network z"] length_AppendMapStrStr [of ord "Container z"]
    length_AppendMapStrStr [of ord "Volume z"]
    length_headers(2) [of "of_nat (length (elems (Binds z)))"]
    length_headers(2) [of "of_nat (length (elems (ExtraVolumes z)))"]
    length_concat_bound [of "AppendString []" "\<lambda>s. StringPrefixSize + length s" "elems (Binds z)",
      OF length_AppendString]
    length_concat_bound [of "\<lambda>v. VolumeProfile_MarshalMsg ord v []" "VolumeProfile_Msgsize ord"
      "elems (ExtraVolumes z)", OF VolumeProfile_Msgsize_bound]
    ExtendedInfo_Msgsize_bound [of "ExtInfo z"]
  by (simp add: PortoProfile_MarshalMsg_eq PortoProfile_Msgsize_def ExtendedInfo_Msgsize_def lit_len)

end
