(* ===== verification/Docker_Codec.thy ===== *)
theory Docker_Codec
  imports Process_Codec
begin

text \<open>
  The docker profile (\<^verbatim>\<open>src/isolate/docker/profile.go\<close>) and its generated codec
  (\<^verbatim>\<open>profile_decodable.go\<close>): \<^verbatim>\<open>Resources\<close> and \<^verbatim>\<open>Profile\<close>.  The order in which Go ranges over
  the tmpfs map is the parameter \<open>ord\<close> of the encoders.
\<close>

section \<open>Resources\<close>

record Resources =
  Memory :: Number
  CPUShares :: Number
  CPUPeriod :: Number
  CPUQuota :: Number
  CpusetCpus :: string
  CpusetMems :: string

definition Resources_fields :: "'s src \<Rightarrow> string \<Rightarrow> Resources \<Rightarrow> (rerr, 's, Resources) rd" where
  "Resources_fields S field z =
     (if field = ''memory'' then rd_bind (rNumber S) (\<lambda>v. rd_return (z\<lparr>Memory := v\<rparr>))
      else if field = ''CpuShares'' then rd_bind (rNumber S) (\<lambda>v. rd_return (z\<lparr>CPUShares := v\<rparr>))
      else if field = ''CpuPeriod'' then rd_bind (rNumber S) (\<lambda>v. rd_return (z\<lparr>CPUPeriod := v\<rparr>))
      else if field = ''CpuQuota'' then rd_bind (rNumber S) (\<lambda>v. rd_return (z\<lparr>CPUQuota := v\<rparr>))
      else if field = ''CpusetCpus'' then rd_bind (rString S) (\<lambda>v. rd_return (z\<lparr>CpusetCpus := v\<rparr>))
      else if field = ''CpusetMems'' then rd_bind (rString S) (\<lambda>v. rd_return (z\<lparr>CpusetMems := v\<rparr>))
      else skip_field S z)"

definition Resources_DecodeMsg :: "Resources \<Rightarrow> (rerr, reader, Resources) rd" where
  "Resources_DecodeMsg z = decode_fields reader_src (Resources_fields reader_src) z"

definition Resources_EncodeMsg :: "Resources \<Rightarrow> (rerr, writer, unit) rd" where
  "Resources_EncodeMsg z =
     rd_bind (wr_Append [0x86, 0xa6, 0x6d, 0x65, 0x6d, 0x6f, 0x72, 0x79]) (\<lambda>_.
     rd_bind (Number_EncodeMsg (Memory z)) (\<lambda>_.
     rd_bind (wr_Append [0xa9, 0x43, 0x70, 0x75, 0x53, 0x68, 0x61, 0x72, 0x65, 0x73]) (\<lambda>_.
     rd_bind (Number_EncodeMsg (CPUShares z)) (\<lambda>_.
     rd_bind (wr_Append [0xa9, 0x43, 0x70, 0x75, 0x50, 0x65, 0x72, 0x69, 0x6f, 0x64]) (\<lambda>_.
     rd_bind (Number_EncodeMsg (CPUPeriod z)) (\<lambda>_.
     rd_bind (wr_Append [0xa8, 0x43, 0x70, 0x75, 0x51, 0x75, 0x6f, 0x74, 0x61]) (\<lambda>_.
     rd_bind (Number_EncodeMsg (CPUQuota z)) (\<lambda>_.
     rd_bind (wr_Append [0xaa, 0x43, 0x70, 0x75, 0x73, 0x65, 0x74, 0x43, 0x70, 0x75, 0x73]) (\<lambda>_.
     rd_bind (WriteString (CpusetCpus z)) (\<lambda>_.
     rd_bind (wr_Append [0xaa, 0x43, 0x70, 0x75, 0x73, 0x65, 0x74, 0x4d, 0x65, 0x6d, 0x73]) (\<lambda>_.
     WriteString (CpusetMems z))))))))))))"

definition Resources_MarshalMsg :: "Resources \<Rightarrow> bytes \<Rightarrow> bytes" where
  "Resources_MarshalMsg z b =
     (let o1 = b @ [0x86, 0xa6, 0x6d, 0x65, 0x6d, 0x6f, 0x72, 0x79];
          o1 = Number_MarshalMsg (Memory z) o1;
          o1 = o1 @ [0xa9, 0x43, 0x70, 0x75, 0x53, 0x68, 0x61, 0x72, 0x65, 0x73];
          o1 = Number_MarshalMsg (CPUShares z) o1;
          o1 = o1 @ [0xa9, 0x43, 0x70, 0x75, 0x50, 0x65, 0x72, 0x69, 0x6f, 0x64];
          o1 = Number_MarshalMsg (CPUPeriod z) o1;
          o1 = o1 @ [0xa8, 0x43, 0x70, 0x75, 0x51, 0x75, 0x6f, 0x74, 0x61];
          o1 = Number_MarshalMsg (CPUQuota z) o1;
          o1 = o1 @ [0xaa, 0x43, 0x70, 0x75, 0x73, 0x65, 0x74, 0x43, 0x70, 0x75, 0x73];
          o1 = AppendString o1 (CpusetCpus z);
          o1 = o1 @ [0xaa, 0x43, 0x70, 0x75, 0x73, 0x65, 0x74, 0x4d, 0x65, 0x6d, 0x73]
      in AppendString o1 (CpusetMems z))"

definition Resources_UnmarshalMsg :: "Resources \<Rightarrow> (rerr, bytes, Resources) rd" where
  "Resources_UnmarshalMsg z = decode_fields bytes_src (Resources_fields bytes_src) z"

definition Resources_Msgsize :: "Resources \<Rightarrow> nat" where
  "Resources_Msgsize z = 1 + 7 + Number_Msgsize (Memory z) + 10 + Number_Msgsize (CPUShares z) +
     10 + Number_Msgsize (CPUPeriod z) + 9 + Number_Msgsize (CPUQuota z) +
     11 + StringPrefixSize + length (CpusetCpus z) + 11 + StringPrefixSize + length (CpusetMems z)"

text \<open>Resources the encoder and decoder agree on, and what the decoder makes of them.\<close>

definition Resources_wf :: "Resources \<Rightarrow> bool" where
  "Resources_wf z \<longleftrightarrow> Number_wf (Memory z) \<and> Number_wf (CPUShares z) \<and> Number_wf (CPUPeriod z) \<and>
     Number_wf (CPUQuota z) \<and> length (CpusetCpus z) < 2 ^ 32 \<and> length (CpusetMems z) < 2 ^ 32"

definition Resources_norm :: "Resources \<Rightarrow> Resources" where
  "Resources_norm z = z\<lparr>Memory := Number_norm (Memory z), CPUShares := Number_norm (CPUShares z),
     CPUPeriod := Number_norm (CPUPeriod z), CPUQuota := Number_norm (CPUQuota z)\<rparr>"

lemma resources_lit:
  "[0x86, 0xa6, 0x6d, 0x65, 0x6d, 0x6f, 0x72, 0x79] = AppendMapHeader [] 6 @ AppendString [] ''memory''"
  "[0xa9, 0x43, 0x70, 0x75, 0x53, 0x68, 0x61, 0x72, 0x65, 0x73] = AppendString [] ''CpuShares''"
  "[0xa9, 0x43, 0x70, 0x75, 0x50, 0x65, 0x72, 0x69, 0x6f, 0x64] = AppendString [] ''CpuPeriod''"
  "[0xa8, 0x43, 0x70, 0x75, 0x51, 0x75, 0x6f, 0x74, 0x61] = AppendString [] ''CpuQuota''"
  "[0xaa, 0x43, 0x70, 0x75, 0x73, 0x65, 0x74, 0x43, 0x70, 0x75, 0x73] = AppendString [] ''CpusetCpus''"
  "[0xaa, 0x43, 0x70, 0x75, 0x73, 0x65, 0x74, 0x4d, 0x65, 0x6d, 0x73] = AppendString [] ''CpusetMems''"
  by (simp_all add: key_lit)

lemma Resources_MarshalMsg_eq:
  "Resources_MarshalMsg z b = b @
     AppendMapHeader [] 6 @ AppendString [] ''memory'' @ Number_MarshalMsg (Memory z) [] @
     AppendString [] ''CpuShares'' @ Number_MarshalMsg (CPUShares z) [] @
     AppendString [] ''CpuPeriod'' @ Number_MarshalMsg (CPUPeriod z) [] @
     AppendString [] ''CpuQuota'' @ Number_MarshalMsg (CPUQuota z) [] @
     AppendString [] ''CpusetCpus'' @ AppendString [] (CpusetCpus z) @
     AppendString [] ''CpusetMems'' @ AppendString [] (CpusetMems z)"
  unfolding Resources_MarshalMsg_def Let_def
  by (simp add: append_simps resources_lit)

context msgp_source
begin

lemma resources_back:
  assumes "Resources_wf z"
  shows "decode_fields S (Resources_fields S) z0 (put (Resources_MarshalMsg z [] @ bs) s) =
    (Inr (Resources_norm z), put bs s)"
  using assms by (simp add: Resources_MarshalMsg_eq decode_fields_def Resources_fields_def Resources_wf_def
      Resources_norm_def rd_simps map_header key str number)

end

section \<open>Profile\<close>

record DockerProfile =
  Registry :: string
  Repository :: string
  Endpoint :: string
  NetworkMode :: string
  RuntimePath :: string
  Cwd :: string
  PResources :: Resources
  Tmpfs :: strmap
  Binds :: "string slice"

definition DockerProfile_fields ::
  "'s src \<Rightarrow> string \<Rightarrow> DockerProfile \<Rightarrow> (rerr, 's, DockerProfile) rd" where
  "DockerProfile_fields S field z =
     (if field = ''registry'' then rd_bind (rString S) (\<lambda>v. rd_return (z\<lparr>Registry := v\<rparr>))
      else if field = ''repository'' then rd_bind (rString S) (\<lambda>v. rd_return (z\<lparr>Repository := v\<rparr>))
      else if field = ''endpoint'' then rd_bind (rString S) (\<lambda>v. rd_return (z\<lparr>Endpoint := v\<rparr>))
      else if field = ''network_mode'' then rd_bind (rString S) (\<lambda>v. rd_return (z\<lparr>NetworkMode := v\<rparr>))
      else if field = ''runtime-path'' then rd_bind (rString S) (\<lambda>v. rd_return (z\<lparr>RuntimePath := v\<rparr>))
      else if field = ''cwd'' then rd_bind (rString S) (\<lambda>v. rd_return (z\<lparr>Cwd := v\<rparr>))
      else if field = ''resources'' then
        rd_bind (decode_fields S (Resources_fields S) (PResources z)) (\<lambda>v. rd_return (z\<lparr>PResources := v\<rparr>))
      else if field = ''tmpfs'' then rd_bind (decode_map S) (\<lambda>v. rd_return (z\<lparr>Tmpfs := v\<rparr>))
      else if field = ''binds'' then
        rd_bind (decode_strings S (Binds z)) (\<lambda>v. rd_return (z\<lparr>Binds := v\<rparr>))
      else skip_field S z)"

definition DockerProfile_DecodeMsg :: "DockerProfile \<Rightarrow> (rerr, reader, DockerProfile) rd" where
  "DockerProfile_DecodeMsg z = decode_fields reader_src (DockerProfile_fields reader_src) z"

definition DockerProfile_EncodeMsg :: "range_order \<Rightarrow> DockerProfile \<Rightarrow> (rerr, writer, unit) rd" where
  "DockerProfile_EncodeMsg ord z =
     rd_bind (wr_Append [0x89, 0xa8, 0x72, 0x65, 0x67, 0x69, 0x73, 0x74, 0x72, 0x79]) (\<lambda>_.
     rd_bind (WriteString (Registry z)) (\<lambda>_.
     rd_bind (wr_Append [0xaa, 0x72, 0x65, 0x70, 0x6f, 0x73, 0x69, 0x74, 0x6f, 0x72, 0x79]) (\<lambda>_.
     rd_bind (WriteString (Repository z)) (\<lambda>_.
     rd_bind (wr_Append [0xa8, 0x65, 0x6e, 0x64, 0x70, 0x6f, 0x69, 0x6e, 0x74]) (\<lambda>_.
     rd_bind (WriteString (Endpoint z)) (\<lambda>_.
     rd_bind (wr_Append [0xac, 0x6e, 0x65, 0x74, 0x77, 0x6f, 0x72, 0x6b, 0x5f, 0x6d, 0x6f, 0x64, 0x65]) (\<lambda>_.
     rd_bind (WriteString (NetworkMode z)) (\<lambda>_.
     rd_bind (wr_Append [0xac, 0x72, 0x75, 0x6e, 0x74, 0x69, 0x6d, 0x65, 0x2d, 0x70, 0x61, 0x74, 0x68]) (\<lambda>_.
     rd_bind (WriteString (RuntimePath z)) (\<lambda>_.
     rd_bind (wr_Append [0xa3, 0x63, 0x77, 0x64]) (\<lambda>_.
     rd_bind (WriteString (Cwd z)) (\<lambda>_.
     rd_bind (wr_Append [0xa9, 0x72, 0x65, 0x73, 0x6f, 0x75, 0x72, 0x63, 0x65, 0x73]) (\<lambda>_.
     rd_bind (Resources_EncodeMsg (PResources z)) (\<lambda>_.
     rd_bind (wr_Append [0xa5, 0x74, 0x6d, 0x70, 0x66, 0x73]) (\<lambda>_.
     rd_bind (WriteMapHeader (of_nat (length (ord (Tmpfs z))))) (\<lambda>_.
     rd_bind (write_pairs (pairs ord (Tmpfs z))) (\<lambda>_.
     rd_bind (wr_Append [0xa5, 0x62, 0x69, 0x6e, 0x64, 0x73]) (\<lambda>_.
     rd_bind (WriteArrayHeader (of_nat (length (elems (Binds z))))) (\<lambda>_.
     write_strings (elems (Binds z)))))))))))))))))))))"

definition DockerProfile_MarshalMsg :: "range_order \<Rightarrow> DockerProfile \<Rightarrow> bytes \<Rightarrow> bytes" where
  "DockerProfile_MarshalMsg ord z b =
     (let o1 = b @ [0x89, 0xa8, 0x72, 0x65, 0x67, 0x69, 0x73, 0x74, 0x72, 0x79];
          o1 = AppendString o1 (Registry z);
          o1 = o1 @ [0xaa, 0x72, 0x65, 0x70, 0x6f, 0x73, 0x69, 0x74, 0x6f, 0x72, 0x79];
          o1 = AppendString o1 (Repository z);
          o1 = o1 @ [0xa8, 0x65, 0x6e, 0x64, 0x70, 0x6f, 0x69, 0x6e, 0x74];
          o1 = AppendString o1 (Endpoint z);
          o1 = o1 @ [0xac, 0x6e, 0x65, 0x74, 0x77, 0x6f, 0x72, 0x6b, 0x5f, 0x6d, 0x6f, 0x64, 0x65];
          o1 = AppendString o1 (NetworkMode z);
          o1 = o1 @ [0xac, 0x72, 0x75, 0x6e, 0x74, 0x69, 0x6d, 0x65, 0x2d, 0x70, 0x61, 0x74, 0x68];
          o1 = AppendString o1 (RuntimePath z);
          o1 = o1 @ [0xa3, 0x63, 0x77, 0x64];
          o1 = AppendString o1 (Cwd z);
          o1 = o1 @ [0xa9, 0x72, 0x65, 0x73, 0x6f, 0x75, 0x72, 0x63, 0x65, 0x73];
          o1 = Resources_MarshalMsg (PResources z) o1;
          o1 = o1 @ [0xa5, 0x74, 0x6d, 0x70, 0x66, 0x73];
          o1 = AppendMapHeader o1 (of_nat (length (ord (Tmpfs z))));
          o1 = append_pairs o1 (pairs ord (Tmpfs z));
          o1 = o1 @ [0xa5, 0x62, 0x69, 0x6e, 0x64, 0x73];
          o1 = AppendArrayHeader o1 (of_nat (length (elems (Binds z))))
      in append_strings o1 (elems (Binds z)))"

definition DockerProfile_UnmarshalMsg :: "DockerProfile \<Rightarrow> (rerr, bytes, DockerProfile) rd" where
  "DockerProfile_UnmarshalMsg z = decode_fields bytes_src (DockerProfile_fields bytes_src) z"

definition DockerProfile_Msgsize :: "range_order \<Rightarrow> DockerProfile \<Rightarrow> nat" where
  "DockerProfile_Msgsize ord z =
     1 + 9 + StringPrefixSize + length (Registry z) + 11 + StringPrefixSize + length (Repository z) +
     9 + StringPrefixSize + length (Endpoint z) + 13 + StringPrefixSize + length (NetworkMode z) +
     13 + StringPrefixSize + length (RuntimePath z) + 4 + StringPrefixSize + length (Cwd z) +
     10 + Resources_Msgsize (PResources z) + 6 + MapHeaderSize +
     sum_list (map (\<lambda>(k, v). StringPrefixSize + length k + StringPrefixSize + length v) (pairs ord (Tmpfs z))) +
     6 + ArrayHeaderSize +
     sum_list (map (\<lambda>s. StringPrefixSize + length s) (elems (Binds z)))"

text \<open>
  A profile the format can express.  Two profiles agree when they differ at most in the storage
  behind the binds and in the signedness of small numbers.
\<close>

definition DockerProfile_wf :: "range_order \<Rightarrow> DockerProfile \<Rightarrow> bool" where
  "DockerProfile_wf ord z \<longleftrightarrow> length (Registry z) < 2 ^ 32 \<and> length (Repository z) < 2 ^ 32 \<and>
     length (Endpoint z) < 2 ^ 32 \<and> length (NetworkMode z) < 2 ^ 32 \<and> length (RuntimePath z) < 2 ^ 32 \<and>
     length (Cwd z) < 2 ^ 32 \<and> Resources_wf (PResources z) \<and> map_wf ord (Tmpfs z) \<and>
     strings_wf (elems (Binds z))"

definition DockerProfile_agree :: "DockerProfile \<Rightarrow> DockerProfile \<Rightarrow> bool" where
  "DockerProfile_agree z' z \<longleftrightarrow>
     z' = z\<lparr>PResources := Resources_norm (PResources z), Binds := Binds z'\<rparr> \<and>
     elems (Binds z') = elems (Binds z)"

lemma docker_lit:
  "[0x89, 0xa8, 0x72, 0x65, 0x67, 0x69, 0x73, 0x74, 0x72, 0x79] =
     AppendMapHeader [] 9 @ AppendString [] ''registry''"
  "[0xaa, 0x72, 0x65, 0x70, 0x6f, 0x73, 0x69, 0x74, 0x6f, 0x72, 0x79] = AppendString [] ''repository''"
  "[0xa8, 0x65, 0x6e, 0x64, 0x70, 0x6f, 0x69, 0x6e, 0x74] = AppendString [] ''endpoint''"
  "[0xac, 0x6e, 0x65, 0x74, 0x77, 0x6f, 0x72, 0x6b, 0x5f, 0x6d, 0x6f, 0x64, 0x65] =
     AppendString [] ''network_mode''"
  "[0xac, 0x72, 0x75, 0x6e, 0x74, 0x69, 0x6d, 0x65, 0x2d, 0x70, 0x61, 0x74, 0x68] =
     AppendString [] ''runtime-path''"
  "[0xa3, 0x63, 0x77, 0x64] = AppendString [] ''cwd''"
  "[0xa9, 0x72, 0x65, 0x73, 0x6f, 0x75, 0x72, 0x63, 0x65, 0x73] = AppendString [] ''resources''"
  "[0xa5, 0x74, 0x6d, 0x70, 0x66, 0x73] = AppendString [] ''tmpfs''"
  "[0xa5, 0x62, 0x69, 0x6e, 0x64, 0x73] = AppendString [] ''binds''"
  by (simp_all add: key_lit)

lemma Resources_MarshalMsg_append [append_simps]:
  "NO_MATCH [] b \<Longrightarrow> Resources_MarshalMsg z b = b @ Resources_MarshalMsg z []"
  by (simp add: Resources_MarshalMsg_eq)

lemma DockerProfile_MarshalMsg_eq:
  "DockerProfile_MarshalMsg ord z b = b @
     AppendMapHeader [] 9 @ AppendString [] ''registry'' @ AppendString [] (Registry z) @
     AppendString [] ''repository'' @ AppendString [] (Repository z) @
     AppendString [] ''endpoint'' @ AppendString [] (Endpoint z) @
     AppendString [] ''network_mode'' @ AppendString [] (NetworkMode z) @
     AppendString [] ''runtime-path'' @ AppendString [] (RuntimePath z) @
     AppendString [] ''cwd'' @ AppendString [] (Cwd z) @
     AppendString [] ''resources'' @ Resources_MarshalMsg (PResources z) [] @
     AppendString [] ''tmpfs'' @ AppendMapStrStr ord [] (Tmpfs z) @
     AppendString [] ''binds'' @
     append_strings (AppendArrayHeader [] (of_nat (length (elems (Binds z))))) (elems (Binds z))"
  unfolding DockerProfile_MarshalMsg_def Let_def AppendMapStrStr_def
  by (simp add: append_simps docker_lit)

context msgp_source
begin

lemma docker_profile_back:
  assumes "DockerProfile_wf ord z"
  shows "\<exists>z'. decode_fields S (DockerProfile_fields S) z0 (put (DockerProfile_MarshalMsg ord z [] @ bs) s) =
    (Inr z', put bs s) \<and> DockerProfile_agree z' z"
proof -
  obtain sl where sl: "decode_strings S (Binds z0)
      (put (append_strings (AppendArrayHeader [] (of_nat (length (elems (Binds z))))) (elems (Binds z)) @ bs) s) =
      (Inr sl, put bs s)" "elems sl = elems (Binds z)"
    using assms read_strings [of "elems (Binds z)" "Binds z0" bs s]
    by (auto simp: DockerProfile_wf_def strings_wf_def)
  show ?thesis
    using assms sl by (simp add: DockerProfile_MarshalMsg_eq decode_fields_def DockerProfile_fields_def
        DockerProfile_wf_def rd_simps map_header key str read_map_wf DockerProfile_agree_def
        resources_back [unfolded decode_fields_def])
qed

end

section \<open>Encoders and size bounds\<close>

lemma Resources_emits:
  assumes "Resources_wf z"
  shows "emits (Resources_EncodeMsg z) (Resources_MarshalMsg z [])"
proof (rule emits_cong)
  show "emits (Resources_EncodeMsg z)
    ((AppendMapHeader [] 6 @ AppendString [] ''memory'') @ Number_MarshalMsg (Memory z) [] @
     AppendString [] ''CpuShares'' @ Number_MarshalMsg (CPUShares z) [] @
     AppendString [] ''CpuPeriod'' @ Number_MarshalMsg (CPUPeriod z) [] @
     AppendString [] ''CpuQuota'' @ Number_MarshalMsg (CPUQuota z) [] @
     AppendString [] ''CpusetCpus'' @ AppendString [] (CpusetCpus z) @
     AppendString [] ''CpusetMems'' @ AppendString [] (CpusetMems z))"
    unfolding Resources_EncodeMsg_def resources_lit using assms
    by (intro emits_bind Append_emits Number_emits WriteString_emits) (simp_all add: Resources_wf_def lit_len)
qed (simp add: Resources_MarshalMsg_eq)

lemma Resources_Msgsize_bound: "length (Resources_MarshalMsg z []) \<le> Resources_Msgsize z"
  using length_numbers(2) [of "Memory z"] length_numbers(2) [of "CPUShares z"]
    length_numbers(2) [of "CPUPeriod z"] length_numbers(2) [of "CPUQuota z"]
    length_AppendString [of "CpusetCpus z"] length_AppendString [of "CpusetMems z"]
  by (simp add: Resources_MarshalMsg_eq Resources_Msgsize_def lit_len)

lemma DockerProfile_emits:
  assumes "DockerProfile_wf ord z"
  shows "emits (DockerProfile_EncodeMsg ord z) (DockerProfile_MarshalMsg ord z [])"
proof (rule emits_cong)
  show "emits (DockerProfile_EncodeMsg ord z)
    ((AppendMapHeader [] 9 @ AppendString [] ''registry'') @ AppendString [] (Registry z) @
     AppendString [] ''repository'' @ AppendString [] (Repository z) @
     AppendString [] ''endpoint'' @ AppendString [] (Endpoint z) @
     AppendString [] ''network_mode'' @ AppendString [] (NetworkMode z) @
     AppendString [] ''runtime-path'' @ AppendString [] (RuntimePath z) @
     AppendString [] ''cwd'' @ AppendString [] (Cwd z) @
     AppendString [] ''resources'' @ Resources_MarshalMsg (PResources z) [] @
     AppendString [] ''tmpfs'' @ AppendMapHeader [] (of_nat (length (ord (Tmpfs z)))) @
     append_pairs [] (pairs ord (Tmpfs z)) @ AppendString [] ''binds'' @
     AppendArrayHeader [] (of_nat (length (elems (Binds z)))) @ append_strings [] (elems (Binds z)))"
    unfolding DockerProfile_EncodeMsg_def docker_lit using assms
    by (intro emits_bind Append_emits WriteString_emits Resources_emits header_emits pairs_emits
        strings_emits map_wf_pairs)
      (simp_all add: DockerProfile_wf_def strings_wf_def lit_len)
qed (simp add: DockerProfile_MarshalMsg_eq AppendMapStrStr_eq append_strings_split [of "AppendArrayHeader _ _"])

lemma DockerProfile_Msgsize_bound:
  "length (DockerProfile_MarshalMsg ord z []) \<le> DockerProfile_Msgsize ord z"
  using length_AppendString [of "Registry z"] length_AppendString [of "Repository z"]
    length_AppendString [of "Endpoint z"] length_AppendString [of "NetworkMode z"]
    length_AppendString [of "RuntimePath z"] length_AppendString [of "Cwd z"]
    Resources_Msgsize_bound [of "PResources z"] length_append_pairs [of "pairs ord (Tmpfs z)"]
    length_append_strings [of "elems (Binds z)"]
    length_headers(1) [of "of_nat (length (ord (Tmpfs z)))"]
    length_headers(2) [of "of_nat (length (elems (Binds z)))"]
  by (simp add: DockerProfile_MarshalMsg_eq DockerProfile_Msgsize_def lit_len AppendMapStrStr_eq
      append_strings_split [of "AppendArrayHeader _ _"])

end
