(* ===== verification/Codec_Props.thy ===== *)
theory Codec_Props
  imports Porto_Codec Docker_Codec
begin

text \<open>
  The properties of the profile codecs: decoding gives back what was encoded, on a connection and
  in memory; the two encoders agree; the size estimate is never too small; reading one object
  consumes exactly that object.
\<close>

section \<open>Concrete inputs\<close>

definition empty_reader :: reader where
  "empty_reader = \<lparr>rest = [], ending = EOF, seeker = False, chunk = (\<lambda>n. n), bufcap = (\<lambda>_. 4096)\<rparr>"

definition empty_writer :: writer where
  "empty_writer = \<lparr>sink = [], room = 4096, wbuf = [], bufsize = 2048\<rparr>"

definition zero_number :: Number where
  "zero_number = \<lparr>bits = 0, ntyp = InvalidType\<rparr>"

definition sample_docker :: DockerProfile where
  "sample_docker = \<lparr>Registry = ''reg'', Repository = ''repo'', Endpoint = '''', NetworkMode = ''bridge'',
     RuntimePath = ''/run'', Cwd = ''/'',
     PResources = \<lparr>Memory = AsUint 4096, CPUShares = zero_number, CPUPeriod = zero_number,
       CPUQuota = AsInt 7, CpusetCpus = ''0'', CpusetMems = ''''\<rparr>,
     Tmpfs = [''/tmp'' \<mapsto> ''size=1''], Binds = slice_of [''/a:/b'', ''/c:/d'']\<rparr>"

definition sample_porto :: PortoProfile where
  "sample_porto = \<lparr>PortoProfile.Registry = ''reg'', Repository = ''repo'', NetworkMode = ''mtn'',
     Network = [''netid'' \<mapsto> ''5''],
     ExtInfo = \<lparr>Layers = slice_of [\<lparr>Digest = ''d'', DigestType = ''sha256'', Size = 10, TorrentId = ''t''\<rparr>]\<rparr>,
     Cwd = ''/'', Binds = slice_of [''/a /b''], Container = Map.empty, Volume = Map.empty,
     ExtraVolumes = slice_of [\<lparr>Target = ''/v'', Properties = Map.empty\<rparr>]\<rparr>"

text \<open>An order that lists the keys the samples use.\<close>

definition sample_order :: range_order where
  "sample_order m = filter (\<lambda>k. m k \<noteq> None) [''/tmp'', ''netid'']"

lemma sample_docker_wf: "DockerProfile_wf sample_order sample_docker"
  by (simp add: sample_docker_def DockerProfile_wf_def Resources_wf_def map_wf_def ranges_def
      strings_wf_def sample_order_def zero_number_def Number_wf_def [of "\<lparr>bits = 0, ntyp = InvalidType\<rparr>"])

lemma sample_porto_wf: "PortoProfile_wf sample_order sample_porto"
  by (simp add: sample_porto_def PortoProfile_wf_def VolumeProfile_wf_def Layer_wf_def map_wf_def ranges_def
      strings_wf_def sample_order_def)

section \<open>Properties\<close>

text \<open>
  C15. Decoding the marshalled form of a docker profile from a connection, into any old profile
  and whatever follows on the connection, gives the profile back (up to the storage behind the
  binds and the signedness of small numbers) and leaves exactly what follows.
\<close>

theorem docker_decode_roundtrip:
  assumes "DockerProfile_wf ord z"
  shows "\<exists>z'. DockerProfile_DecodeMsg z0 (r\<lparr>rest := DockerProfile_MarshalMsg ord z [] @ bs\<rparr>) =
    (Inr z', r\<lparr>rest := bs\<rparr>) \<and> DockerProfile_agree z' z"
  unfolding DockerProfile_DecodeMsg_def by (rule reader.docker_profile_back [OF assms])

theorem docker_decode_roundtrip_witness:
  "\<exists>z'. DockerProfile_DecodeMsg sample_docker
      (empty_reader\<lparr>rest := DockerProfile_MarshalMsg sample_order sample_docker [] @ [0xc0]\<rparr>) =
    (Inr z', empty_reader\<lparr>rest := [0xc0]\<rparr>) \<and> DockerProfile_agree z' sample_docker"
  by (rule docker_decode_roundtrip [OF sample_docker_wf])

text \<open>
  C7. Decoding the marshalled form of a porto profile from a connection, nested layers and extra
  volumes included, gives the profile back (up to the storage behind its slices) and leaves
  exactly what follows.
\<close>

theorem porto_decode_roundtrip:
  assumes "PortoProfile_wf ord z"
  shows "\<exists>z'. PortoProfile_DecodeMsg z0 (r\<lparr>rest := PortoProfile_MarshalMsg ord z [] @ bs\<rparr>) =
    (Inr z', r\<lparr>rest := bs\<rparr>) \<and> PortoProfile_agree z' z"
  unfolding PortoProfile_DecodeMsg_def by (rule reader.porto_profile_back [OF assms])

theorem porto_decode_roundtrip_witness:
  "\<exists>z'. PortoProfile_DecodeMsg sample_porto
      (empty_reader\<lparr>rest := PortoProfile_MarshalMsg sample_order sample_porto [] @ [0xc0]\<rparr>) =
    (Inr z', empty_reader\<lparr>rest := [0xc0]\<rparr>) \<and> PortoProfile_agree z' sample_porto"
  by (rule porto_decode_roundtrip [OF sample_porto_wf])

text \<open>
  Unmarshalling a docker profile from a byte slice inverts marshalling it after any bytes: the
  profile comes back and the bytes after it are left over.
\<close>

theorem docker_unmarshal_roundtrip:
  assumes "DockerProfile_wf ord z"
  shows "\<exists>z'. DockerProfile_UnmarshalMsg z0 (drop (length pre) (DockerProfile_MarshalMsg ord z pre) @ bs) =
    (Inr z', bs) \<and> DockerProfile_agree z' z"
  using bytes.docker_profile_back [OF assms, of z0 bs]
  by (simp add: DockerProfile_UnmarshalMsg_def DockerProfile_MarshalMsg_eq [of _ _ pre] DockerProfile_MarshalMsg_eq [of _ _ "[]"])

theorem docker_unmarshal_roundtrip_witness:
  "\<exists>z'. DockerProfile_UnmarshalMsg sample_docker
      (drop (length [1, 2 :: byte]) (DockerProfile_MarshalMsg sample_order sample_docker [1, 2]) @ [0xc0]) =
    (Inr z', [0xc0]) \<and> DockerProfile_agree z' sample_docker"
  by (rule docker_unmarshal_roundtrip [OF sample_docker_wf])

text \<open>
  Unmarshalling a porto profile from a byte slice inverts marshalling it, and the bytes after it
  are left over.
\<close>

theorem porto_unmarshal_roundtrip:
  assumes "PortoProfile_wf ord z"
  shows "\<exists>z'. PortoProfile_UnmarshalMsg z0 (PortoProfile_MarshalMsg ord z [] @ bs) = (Inr z', bs) \<and>
    PortoProfile_agree z' z"
  unfolding PortoProfile_UnmarshalMsg_def by (rule bytes.porto_profile_back [OF assms])

theorem porto_unmarshal_roundtrip_witness:
  "\<exists>z'. PortoProfile_UnmarshalMsg sample_porto (PortoProfile_MarshalMsg sample_order sample_porto [] @ [0xc0]) =
     (Inr z', [0xc0]) \<and> PortoProfile_agree z' sample_porto"
  by (rule porto_unmarshal_roundtrip [OF sample_porto_wf])

text \<open>
  C32. Encoding a docker profile through a buffered writer and flushing it puts on the wire exactly
  the bytes marshalling gives, whatever the size of the buffer.
\<close>

theorem docker_encode_marshal:
  assumes "DockerProfile_wf ord z" "wr_ok w" "wbuf w = []" "length (DockerProfile_MarshalMsg ord z []) \<le> room w"
  shows "\<exists>w'. Encode (DockerProfile_EncodeMsg ord z) w = (Inr (), w') \<and>
    sink w' = sink w @ DockerProfile_MarshalMsg ord z [] \<and> wbuf w' = []"
  by (rule Encode_emits [OF DockerProfile_emits [OF assms(1)] assms(2-4)])

lemma sample_docker_length: "length (DockerProfile_MarshalMsg sample_order sample_docker []) \<le> 4096"
  by (rule order_trans [OF DockerProfile_Msgsize_bound])
    (simp add: DockerProfile_Msgsize_def sample_docker_def Resources_Msgsize_def pairs_def sample_order_def
      Number_Msgsize_def zero_number_def AsUint_def AsInt_def)

theorem docker_encode_marshal_witness:
  "\<exists>w'. Encode (DockerProfile_EncodeMsg sample_order sample_docker) empty_writer = (Inr (), w') \<and>
    sink w' = sink empty_writer @ DockerProfile_MarshalMsg sample_order sample_docker [] \<and> wbuf w' = []"
  by (rule docker_encode_marshal [OF sample_docker_wf])
    (simp_all add: wr_ok_def empty_writer_def sample_docker_length)

text \<open>
  C33. When the underlying writer fails part of the way, what encoding a porto profile has handed to
  the writer is a prefix of its marshalled form; when encoding succeeds it is all of it.
\<close>

theorem porto_encode_prefix:
  assumes "PortoProfile_wf ord z" "wr_ok w" "PortoProfile_EncodeMsg ord z w = (res, w')"
  shows "\<exists>p. prefix p (PortoProfile_MarshalMsg ord z []) \<and> out w' = out w @ p \<and>
    (res = Inr () \<longrightarrow> p = PortoProfile_MarshalMsg ord z [])"
proof -
  obtain res' w'' p where "PortoProfile_EncodeMsg ord z w = (res', w'')" "prefix p (PortoProfile_MarshalMsg ord z [])"
    "out w'' = out w @ p" "res' = Inr () \<longrightarrow> p = PortoProfile_MarshalMsg ord z []"
    using PortoProfile_emits [OF assms(1)] assms(2) unfolding emits_def by blast
  then show ?thesis using assms(3) by auto
qed

theorem porto_encode_prefix_witness:
  "\<exists>p. prefix p (PortoProfile_MarshalMsg sample_order sample_porto []) \<and>
    out (snd (PortoProfile_EncodeMsg sample_order sample_porto empty_writer)) = out empty_writer @ p \<and>
    (fst (PortoProfile_EncodeMsg sample_order sample_porto empty_writer) = Inr () \<longrightarrow>
     p = PortoProfile_MarshalMsg sample_order sample_porto [])"
  by (rule porto_encode_prefix [OF sample_porto_wf]) (simp_all add: wr_ok_def empty_writer_def)

text \<open>
  The size estimates \<^verbatim>\<open>Msgsize\<close> of the three profiles are never less than the length of the
  encoding, so a buffer made with them never has to grow.
\<close>

theorem msgsize_bounds:
  "length (DockerProfile_MarshalMsg ord z []) \<le> DockerProfile_Msgsize ord z \<and>
   length (PortoProfile_MarshalMsg ord y []) \<le> PortoProfile_Msgsize ord y \<and>
   length (ProcessProfile_MarshalMsg x []) \<le> ProcessProfile_Msgsize x"
  using DockerProfile_Msgsize_bound PortoProfile_Msgsize_bound ProcessProfile_Msgsize_bound by blast

text \<open>
  C34. \<^verbatim>\<open>CopyNext\<close> writes exactly the bytes it takes from the connection, on success and on failure,
  and reports their number on success.
\<close>

theorem copy_next_exact:
  assumes "CopyNext (r, w) = (res, r', w')"
  shows "\<exists>c. w' = w @ c \<and> rest r = c @ rest r' \<and> (\<forall>n. res = Inr n \<longrightarrow> n = length c)"
  using CopyNext_exact(1) [OF assms] by simp

definition copied :: "reader \<times> bytes" where
  "copied = snd (CopyNext (empty_reader\<lparr>rest := [0x92, 0x01, 0xc0, 0x07]\<rparr>, [0xff]))"

theorem copy_next_exact_witness:
  "\<exists>c. snd copied = [0xff] @ c \<and> rest (empty_reader\<lparr>rest := [0x92, 0x01, 0xc0, 0x07]\<rparr>) = c @ rest (fst copied) \<and>
    (\<forall>n. fst (CopyNext (empty_reader\<lparr>rest := [0x92, 0x01, 0xc0, 0x07]\<rparr>, [0xff])) = Inr n \<longrightarrow> n = length c)"
  by (rule copy_next_exact) (simp add: copied_def del: CopyNext.simps)

text \<open>
  An extension object with a 32-bit length: six bytes of head, of which \<^verbatim>\<open>Reader.Skip\<close> looks at
  five when that many are buffered.
\<close>

definition ext32_object :: "byte \<Rightarrow> bytes \<Rightarrow> bytes" where
  "ext32_object t d = mext32 # be32 (of_nat (length d)) @ t # d"

lemma getSize_ext32:
  "length d < 2 ^ 32 \<Longrightarrow> getSize (ext32_object t d @ bs) = Inr (length (ext32_object t d), 0)"
  by (simp add: getSize_def ext32_object_def sizes_def mode_size_def)

lemma Skip_ext32: "length d < 2 ^ 32 \<Longrightarrow> Skip (ext32_object t d @ bs) = (Inr (), bs)"
  using getSize_ext32 [of d t bs] by (simp add: skip_head_bytes_def)

lemma CopyNext_ext32:
  "length d < 2 ^ 32 \<Longrightarrow> CopyNext (r\<lparr>rest := ext32_object t d @ bs\<rparr>, w) =
     (Inr (length (ext32_object t d)), r\<lparr>rest := bs\<rparr>, w @ ext32_object t d)"
  using copy_head_put [OF getSize_ext32 [of d t bs], of r w] by simp

lemma Reader_Skip_ext32:
  "5 \<le> fwd_Buffered (r\<lparr>rest := ext32_object t d @ bs\<rparr>) \<Longrightarrow>
     Reader_Skip (r\<lparr>rest := ext32_object t d @ bs\<rparr>) =
       (Inl ErrShortBytes, r\<lparr>rest := ext32_object t d @ bs\<rparr>)"
  by (simp add: skip_head_def rd_simps ext32_object_def getSize_def sizes_def fwd_Peek_def)

text \<open>
  C35. The three walkers agree on every object \<^verbatim>\<open>AppendIntf\<close> writes (nil, booleans, numbers, strings,
  bytes, slices and maps, nested at will; extensions are not among them): skipping it on a
  connection, skipping it in a byte slice and copying it all stop exactly behind it.  They do not
  agree on every MessagePack object: on an extension with a 32-bit length the byte-slice skip and
  the copy stop behind it, while \<^verbatim>\<open>Reader.Skip\<close> fails with \<^verbatim>\<open>ErrShortBytes\<close> and consumes nothing as
  soon as five bytes are buffered.
\<close>

theorem walk_one_object:
  assumes "intf_ok i" "length d < 2 ^ 32"
  shows "Reader_Skip (r\<lparr>rest := AppendIntf [] i @ bs\<rparr>) = (Inr (), r\<lparr>rest := bs\<rparr>) \<and>
    Skip (AppendIntf [] i @ bs) = (Inr (), bs) \<and>
    CopyNext (r\<lparr>rest := AppendIntf [] i @ bs\<rparr>, w) =
      (Inr (length (AppendIntf [] i)), r\<lparr>rest := bs\<rparr>, w @ AppendIntf [] i) \<and>
    Skip (ext32_object t d @ bs) = (Inr (), bs) \<and>
    CopyNext (r\<lparr>rest := ext32_object t d @ bs\<rparr>, w) =
      (Inr (length (ext32_object t d)), r\<lparr>rest := bs\<rparr>, w @ ext32_object t d) \<and>
    (5 \<le> fwd_Buffered (r\<lparr>rest := ext32_object t d @ bs\<rparr>) \<longrightarrow>
      Reader_Skip (r\<lparr>rest := ext32_object t d @ bs\<rparr>) =
        (Inl ErrShortBytes, r\<lparr>rest := ext32_object t d @ bs\<rparr>))"
proof (intro conjI impI)
  show "Reader_Skip (r\<lparr>rest := AppendIntf [] i @ bs\<rparr>) = (Inr (), r\<lparr>rest := bs\<rparr>)"
    by (rule reader_skip.walk_AppendIntf(1) [OF assms(1)])
  show "Skip (AppendIntf [] i @ bs) = (Inr (), bs)"
    by (rule bytes_skip.walk_AppendIntf(1) [OF assms(1)])
  obtain res r' w' where c: "CopyNext (r\<lparr>rest := AppendIntf [] i @ bs\<rparr>, w) = (res, r', w')"
    by (metis prod.exhaust)
  have "forget (CopyNext (r\<lparr>rest := AppendIntf [] i @ bs\<rparr>, w)) = (Inr (), r\<lparr>rest := bs\<rparr>, w @ AppendIntf [] i)"
    using copy.walk_AppendIntf(1) [OF assms(1), where r = r and w = w and c = "[]" and bs = bs]
    by (simp del: CopyNext.simps AppendIntf.simps)
  then have "\<exists>n. res = Inr n" "r' = r\<lparr>rest := bs\<rparr>" "w' = w @ AppendIntf [] i"
    using c by (auto simp: forget_def split: sum.splits)
  with CopyNext_exact(1) [OF c] show "CopyNext (r\<lparr>rest := AppendIntf [] i @ bs\<rparr>, w) =
      (Inr (length (AppendIntf [] i)), r\<lparr>rest := bs\<rparr>, w @ AppendIntf [] i)"
    using c by auto
qed (rule Skip_ext32 [OF assms(2)] CopyNext_ext32 [OF assms(2)] Reader_Skip_ext32; assumption?)+

theorem walk_one_object_witness:
  "Reader_Skip (empty_reader\<lparr>rest := AppendIntf [] (ISlice [IUint 1, IMapIntf [(''a'', IString ''b'')]]) @ [7]\<rparr>) =
     (Inr (), empty_reader\<lparr>rest := [7]\<rparr>) \<and>
   Skip (ext32_object 5 [9] @ [7]) = (Inr (), [7])"
  using walk_one_object [where i = "ISlice [IUint 1, IMapIntf [(''a'', IString ''b'')]]" and r = empty_reader
      and bs = "[7]" and d = "[9]" and t = 5]
  by (simp del: Reader_Skip.simps Skip.simps CopyNext.simps AppendIntf.simps)

text \<open>
  A number survives encoding and decoding with its value: only the kind of a small unsigned
  number changes, to a signed one.
\<close>

theorem number_roundtrip:
  assumes "Number_wf n"
  shows "Number_DecodeMsg (r\<lparr>rest := Number_MarshalMsg n [] @ bs\<rparr>) = (Inr (Number_norm n), r\<lparr>rest := bs\<rparr>) \<and>
    Number_UnmarshalMsg (Number_MarshalMsg n [] @ bs) = (Inr (Number_norm n), bs) \<and>
    bits (Number_norm n) = bits n"
  using assms by (simp add: Number_norm_def AsInt_def)

theorem number_roundtrip_witness:
  "Number_DecodeMsg (empty_reader\<lparr>rest := Number_MarshalMsg (AsUint 5) [] @ [7]\<rparr>) =
     (Inr (Number_norm (AsUint 5)), empty_reader\<lparr>rest := [7]\<rparr>)"
  using number_roundtrip [where n = "AsUint 5" and r = empty_reader and bs = "[7]"] by simp

text \<open>
  A process profile survives both ways of encoding and decoding, and the two encoders agree.
\<close>

theorem process_roundtrip:
  assumes "length (Spool z) < 2 ^ 32"
  shows "ProcessProfile_DecodeMsg z0 (r\<lparr>rest := ProcessProfile_MarshalMsg z [] @ bs\<rparr>) = (Inr z, r\<lparr>rest := bs\<rparr>) \<and>
    ProcessProfile_UnmarshalMsg z0 (ProcessProfile_MarshalMsg z [] @ bs) = (Inr z, bs) \<and>
    emits (ProcessProfile_EncodeMsg z) (ProcessProfile_MarshalMsg z [])"
  using reader.process_profile_back [OF assms, where ?z0.0 = z0 and bs = bs and s = r]
    bytes.process_profile_back [OF assms, where ?z0.0 = z0 and bs = bs]
    ProcessProfile_emits [OF assms]
  by (simp add: ProcessProfile_DecodeMsg_def ProcessProfile_UnmarshalMsg_def)

theorem process_roundtrip_witness:
  "ProcessProfile_UnmarshalMsg \<lparr>Spool = ''old''\<rparr> (ProcessProfile_MarshalMsg \<lparr>Spool = ''/spool''\<rparr> [] @ [7]) =
     (Inr \<lparr>Spool = ''/spool''\<rparr>, [7])"
  using process_roundtrip [where z = "\<lparr>Spool = ''/spool''\<rparr>" and ?z0.0 = "\<lparr>Spool = ''old''\<rparr>" and bs = "[7]"]
  by simp

end
