(* ===== verification/Conn_Props.thy ===== *)
theory Conn_Props
  imports Connection_Inv Codec_Props
begin

text \<open>
  The properties of a connection: what every interleaving of its goroutines keeps, how its jobs
  end, and what one message does.
\<close>

section \<open>Concrete runs\<close>

definition all_boxes :: "string \<Rightarrow> bool" where
  "all_boxes t = (t = ''docker'')"

definition spawn_args :: "intf list" where
  "spawn_args = [IMapIntf [(''type'', IString ''docker'')], IString ''app'', IString ''/bin/app'',
     IMapStr [], IMapStr [(''A'', ''b'')]]"

definition spool_args :: "intf list" where
  "spool_args = [IMapIntf [(''type'', IString ''docker'')], IString ''app'']"

definition spawn_input :: reader where
  "spawn_input = empty_reader\<lparr>rest := message 1 spawn spawn_args None @ message 1 spawnKill [] None @ [7]\<rparr>"

definition spawn_job :: job where
  "spawn_job = (new_job (newResponseStream 1) SpawnJob ''docker''
       (AppendIntf [] (IMapIntf [(''type'', IString ''docker'')])) ''app'')
     \<lparr>jexecutable := ''/bin/app'', jargs := Map.empty, jenv := [''A'' \<mapsto> ''b'']\<rparr>"

text \<open>The connection after the message, and after the box has spawned the process.\<close>

definition spawn_started :: conn where
  "spawn_started = (newConnectionHandler spawn_input)\<lparr>inp := empty_reader\<lparr>rest := message 1 spawnKill [] None @ [7]\<rparr>, highestChannel := 1,
     jobs := [spawn_job], pc := Attaching 1 (SpawnDispatch (newResponseStream 1) 0)\<rparr>"

definition spawn_running :: conn where
  "spawn_running = spawn_return 0 SpawnOk spawn_started"

lemma reachable_spawn_started: "reachable all_boxes spawn_input spawn_started"
proof -
  have "reachable all_boxes spawn_input (conn_iter all_boxes (newConnectionHandler spawn_input))"
    by (rule reachable_iter [OF reach_init]) (simp add: newConnectionHandler_def)
  also have "conn_iter all_boxes (newConnectionHandler spawn_input) = spawn_started"
    using conn_iter_spawn [where c = "newConnectionHandler spawn_input" and ch = 1 and m = "[(''type'', IString ''docker'')]"
        and t = "''docker''" and boxes = all_boxes and name = "''app''" and exe = "''/bin/app''" and args = "[]"
        and env = "[(''A'', ''b'')]" and hdr = None and r = empty_reader and bs = "message 1 spawnKill [] None @ [7]"]
    by (simp add: spawn_input_def spawn_args_def spawn_started_def spawn_job_def newConnectionHandler_def newSessions_def
        all_boxes_def del: AppendIntf.simps)
  finally show ?thesis .
qed

lemma reachable_spawn_running: "reachable all_boxes spawn_input spawn_running"
  unfolding spawn_running_def
  by (rule reach_step [OF reachable_spawn_started job_moves [OF spawn_returns]])
    (simp_all add: spawn_started_def spawn_job_def new_job_def)

lemma spawn_running_job:
  "length (jobs spawn_running) = 1" "jkind (jobs spawn_running ! 0) = SpawnJob"
  "spawned (jobs spawn_running ! 0)" "rchannel (jstream (jobs spawn_running ! 0)) = 1"
  by (simp_all add: spawn_running_def spawn_return_def upd_job_def spawn_started_def spawn_job_def new_job_def
      newResponseStream_def)

text \<open>The kill message read while the box is still spawning, and the run to the end.\<close>

definition kill_read :: conn where
  "kill_read = spawn_started\<lparr>inp := empty_reader\<lparr>rest := [7]\<rparr>, sess := Map.empty, pc := Reading,
     jobs := [spawn_job\<lparr>kpc := KillSelect\<rparr>]\<rparr>"

lemma reachable_kill_read: "reachable all_boxes spawn_input kill_read"
proof -
  let ?d = "SpawnDispatch (newResponseStream 1) 0"
  let ?c = "conn_attach 1 ?d spawn_started"
  have "reachable all_boxes spawn_input ?c"
    by (rule reach_step [OF reachable_spawn_started loop_attaches]) (simp add: spawn_started_def)
  then have "reachable all_boxes spawn_input (conn_iter all_boxes ?c)"
    by (rule reachable_iter) (simp add: conn_attach_def)
  moreover have "?c = ?c\<lparr>inp := empty_reader\<lparr>rest := message 1 spawnKill [] None @ [7]\<rparr>\<rparr>"
    by (simp add: conn_attach_def spawn_started_def)
  then have "conn_iter all_boxes ?c = kill_read"
    using conn_iter_kill [where c = ?c and ch = 1 and rs = "newResponseStream 1" and j = 0 and boxes = all_boxes
        and r = empty_reader and args = "[]" and bs = "[7]"]
    by (simp add: conn_attach_def Attach_def kill_read_def spawn_started_def newConnectionHandler_def newSessions_def
        del: AppendIntf.simps)
  ultimately show ?thesis by simp
qed

definition spawn_returned :: conn where
  "spawn_returned = conn_read (spawn_return 0 SpawnOk kill_read)"

lemma reachable_spawn_returned: "reachable all_boxes spawn_input spawn_returned" "pc spawn_returned = Returned"
proof -
  let ?c = "spawn_return 0 SpawnOk kill_read"
  have "reachable all_boxes spawn_input ?c"
    by (rule reach_step [OF reachable_kill_read job_moves [OF spawn_returns]])
      (simp_all add: kill_read_def spawn_job_def new_job_def)
  then show "reachable all_boxes spawn_input spawn_returned"
    unfolding spawn_returned_def
    by (rule reach_step [OF _ loop_reads]) (simp add: spawn_return_def upd_job_def kill_read_def)
  have "inp ?c = empty_reader\<lparr>rest := [7]\<rparr>" by (simp add: spawn_return_def upd_job_def kill_read_def)
  moreover have "case conn_next (empty_reader\<lparr>rest := [7]\<rparr>) of (Inl e, i) \<Rightarrow> True | _ \<Rightarrow> False"
    by code_simp
  ultimately show "pc spawn_returned = Returned"
    by (auto simp: spawn_returned_def conn_read_def conn_return_def split: prod.splits sum.splits)
qed

definition kill_end :: conn where
  "kill_end = upd_job 0 (\<lambda>j. j\<lparr>jpc := Closed\<rparr>) (spawn_kill 0 None (upd_job 0 spawn_cas (upd_job 0 (\<lambda>j. j\<lparr>jpc := Offering\<rparr>)
     (spawn_return 0 SpawnOk (upd_job 0 (\<lambda>j. j\<lparr>cancelled := True, kpc := KillDone\<rparr>) kill_read)))))"

lemmas run_simps = kill_read_def spawn_started_def newConnectionHandler_def spawn_job_def new_job_def upd_job_def
  spawn_return_def spawn_cas_def spawn_kill_def kill_reply_def rs_Close_def conn_write_def rs_close_def
  newResponseStream_def

lemma reachable_kill_end: "reachable all_boxes spawn_input kill_end"
  unfolding kill_end_def
  by (rule reach_step [OF _ job_moves [OF closes_channel]],
      rule reach_step [OF _ job_moves [OF spawn_kills]],
      rule reach_step [OF _ job_moves [OF context_done]],
      rule reach_step [OF _ job_moves [OF offers]],
      rule reach_step [OF _ job_moves [OF spawn_returns]],
      rule reach_step [OF reachable_kill_read job_moves [OF kill_default]]) (simp_all add: run_simps)

lemma kill_end_job:
  "jobs kill_end = [spawn_job\<lparr>cancelled := True, jpc := Closed, kpc := KillDone, flagKilled := True, spawned := True, kills := 1\<rparr>]"
  "sent kill_end = [frame_close 1 replyKillOk]"
  by (simp_all add: kill_end_def run_simps)

lemma kill_end_stuck: "\<not> job_step 0 kill_end c"
  by (auto simp: kill_end_job elim!: job_step.cases)

section \<open>Runs of the goroutines\<close>

lemma job_steps_ok:
  assumes "(\<lambda>a b. \<exists>i. job_step i a b)\<^sup>*\<^sup>* c c'" "conn_ok c"
  shows "conn_ok c' \<and> pc c' = pc c"
  using assms(1)
proof (induction rule: rtranclp_induct)
  case (step d d')
  then obtain i where s: "job_step i d d'" by blast
  then have "job_effect i d d'"
    using job_step_effect [OF s] jobs_okD(2) job_step_bound [OF s] step.IH unfolding conn_ok_def by blast
  then show ?case using job_step_ok [OF s] step.IH by (auto simp: job_effect_def)
qed (simp add: assms(2))

lemma no_endless_run:
  assumes "conn_ok c" "f 0 = c" "\<And>n. \<exists>i. job_step i (f n) (f (Suc n))"
  shows False
proof -
  have ok: "conn_ok (f n)" for n
    by (induction n) (use assms job_step_ok in blast)+
  have "total_rank (f (Suc n)) < total_rank (f n)" for n
    using assms(3) [of n] job_step_rank [OF _ ok] by blast
  then have "\<exists>g :: nat \<Rightarrow> nat. \<forall>n. g (Suc n) < g n" by (intro exI [of _ "\<lambda>n. total_rank (f n)"]) blast
  then show False using wf_less wf_iff_no_infinite_down_chain [of "less_than :: (nat \<times> nat) set"] by (metis less_than_iff wf_less_than)
qed

lemma stuck_closed:
  assumes "conn_ok c" "stuck i c" "i < length (jobs c)" "pc c = Returned"
  shows "jpc (jobs c ! i) = Closed"
  using stuck_cases [OF assms(2,3)] jobs_okD(4) [OF _ assms(3,4)] assms(1) by (auto simp: conn_ok_def)

section \<open>The channels the runtime asked on\<close>

text \<open>
  A reachable state with the channels of the messages that were read for a dispatcher on the way to it.
\<close>

definition asked_on :: "loop_pc \<Rightarrow> u64 set" where
  "asked_on p = (case p of Handling hasHeaders ch num d \<Rightarrow> {ch} | _ \<Rightarrow> {})"

inductive served :: "(string \<Rightarrow> bool) \<Rightarrow> reader \<Rightarrow> conn \<Rightarrow> u64 set \<Rightarrow> bool" for boxes r where
  served_init: "served boxes r (newConnectionHandler r) {}"
| served_step: "served boxes r c S \<Longrightarrow> conn_step boxes c c' \<Longrightarrow> served boxes r c' (S \<union> asked_on (pc c'))"

lemma served_reachable: "served boxes r c S \<Longrightarrow> reachable boxes r c"
  by (induction rule: served.induct) (auto intro: reachable.intros)

definition channels_in :: "u64 set \<Rightarrow> conn \<Rightarrow> bool" where
  "channels_in S c \<longleftrightarrow> (\<forall>x \<in> set (replies c). \<exists>ch n. x = Some (ch, n) \<and> ch \<in> S) \<and>
     (\<forall>j \<in> set (jobs c). rchannel (jstream j) \<in> S) \<and> asked_on (pc c) \<subseteq> S"

lemma channels_in_step:
  assumes "channels_in S c" "sent c' = sent c @ fs" "\<And>x. x \<in> set (map frame_id fs) \<Longrightarrow> \<exists>ch n. x = Some (ch, n) \<and> ch \<in> S"
    "\<And>j. j \<in> set (jobs c') \<Longrightarrow> rchannel (jstream j) \<in> S"
  shows "channels_in (S \<union> asked_on (pc c')) c'"
  using assms unfolding channels_in_def replies_def by fastforce

lemma channels_in_reply:
  assumes "reply br ch n fs" "ch \<in> S" "channels_in S c" "sent c' = sent c @ fs"
    "\<And>j. j \<in> set (jobs c') \<Longrightarrow> rchannel (jstream j) \<in> S"
  shows "channels_in (S \<union> asked_on (pc c')) c'"
proof (rule channels_in_step [OF assms(3,4) _ assms(5)])
  fix x assume "x \<in> set (map frame_id fs)"
  then have "x = Some (ch, n)" using assms(1) by (auto simp: reply_def split: if_splits)
  then show "\<exists>ch n. x = Some (ch, n) \<and> ch \<in> S" using assms(2) by blast
qed

lemma loop_trans_channels:
  assumes "loop_trans c c'" "channels_in S c" "sess_ok c"
  shows "channels_in (S \<union> asked_on (pc c')) c'"
proof -
  have js: "j \<in> set (jobs c) \<Longrightarrow> rchannel (jstream j) \<in> S" for j using assms(2) by (auto simp: channels_in_def)
  have up: "rchannel (jstream j) \<in> S" if "j \<in> set ((jobs c)[k := x])" "jstream x = jstream (jobs c ! k)" for j k x
    using that js set_update_subset_insert [of "jobs c" k x] by (cases "k < length (jobs c)") (auto simp: list_update_beyond)
  have hc: "ch \<in> S" if "pc c = Handling h ch n d" for h ch n d using assms(2) that by (auto simp: channels_in_def asked_on_def)
  show ?thesis using assms(1)
  proof (cases rule: loop_trans.cases)
    case refuses
    show ?thesis by (rule channels_in_reply [OF refuses(3) hc [OF refuses(2)] assms(2)]) (simp_all add: refuses(1) js)
  next
    case starts
    note d = sess_okD(2) [OF assms(3) holds_intros(3) [OF starts(2)]] hc [OF starts(2)]
    show ?thesis
      by (rule channels_in_step [OF assms(2), of _ "[]"])
         (use starts(1,3) js d in \<open>auto simp: fresh_job_def disp_ok_def newResponseStream_def\<close>)
  next
    case cancels
    show ?thesis
      by (rule channels_in_reply [OF cancels(3) hc [OF cancels(2)] assms(2)]) (use cancels(1) in \<open>auto dest: up\<close>)
  next
    case kills
    show ?thesis by (rule channels_in_step [OF assms(2), of _ "[]"]) (use kills(1) in \<open>auto dest: up\<close>)
  qed (rule channels_in_step [OF assms(2), of _ "[]"]; use js in \<open>force simp: conn_return_def\<close>)+
qed

lemma job_effect_channels:
  assumes "job_effect i c c'" "channels_in S c" "i < length (jobs c)"
  shows "channels_in (S \<union> asked_on (pc c')) c'"
proof -
  from assms(1) obtain fs s no j' where c': "c' = c\<lparr>sent := sent c @ fs, sess := s, jobs := (jobs c)[i := j']\<rparr>"
    "replied (broken c) (rchannel (jstream (jobs c ! i))) no fs" "job_trans (pc c = Returned) (jobs c ! i) no j'"
    unfolding job_effect_def by blast
  have js: "j \<in> set (jobs c) \<Longrightarrow> rchannel (jstream j) \<in> S" for j using assms(2) by (auto simp: channels_in_def)
  have "jstream j' = jstream (jobs c ! i)" using job_trans_frame [OF c'(3)] by simp
  then have "rchannel (jstream j) \<in> S" if "j \<in> set (jobs c')" for j
    using that c'(1) js assms(3) set_update_subset_insert [of "jobs c" i j'] by auto
  moreover have "\<exists>ch n. x = Some (ch, n) \<and> ch \<in> S" if "x \<in> set (map frame_id fs)" for x
    using replied_channels [OF c'(2) that] js [OF nth_mem [OF assms(3)]] by blast
  ultimately show ?thesis by (intro channels_in_step [OF assms(2), of _ fs]) (simp_all add: c'(1))
qed

lemma conn_step_channels:
  assumes "conn_step boxes c c'" "channels_in S c" "conn_ok c"
  shows "channels_in (S \<union> asked_on (pc c')) c'"
  using assms(1)
proof (cases rule: conn_step.cases)
  case loop_reads
  then show ?thesis using loop_trans_channels [OF conn_read_trans assms(2)] assms(3) by (simp add: conn_ok_def)
next
  case loop_handles
  then show ?thesis using loop_trans_channels [OF conn_handle_ok [OF assms(3)] assms(2)] assms(3) by (simp add: conn_ok_def)
next
  case (loop_attaches ch d)
  then show ?thesis using loop_trans_channels [OF loop_trans.attaches [OF _ loop_attaches(2)] assms(2)] assms(3)
    by (simp add: conn_ok_def conn_attach_def Attach_def)
next
  case (job_moves i)
  have "job_effect i c c'"
    using job_step_effect [OF job_moves] jobs_okD(2) job_step_bound [OF job_moves] assms(3) unfolding conn_ok_def by blast
  then show ?thesis by (rule job_effect_channels [OF _ assms(2) job_step_bound [OF job_moves]])
next
  case (box_writes i p)
  obtain fs where c': "c' = c\<lparr>sent := sent c @ fs\<rparr>" "reply (broken c) (rchannel (jstream (jobs c ! i))) replySpawnWrite fs"
    using rs_Write_effect jobs_okD(2) assms(3) box_writes by (metis conn_ok_def)
  show ?thesis
    by (rule channels_in_reply [OF c'(2) _ assms(2)])
       (use assms(2) box_writes(2) in \<open>auto simp: channels_in_def c'(1)\<close>)
next
  case conn_breaks
  then show ?thesis using assms(2) by (auto simp: channels_in_def replies_def)
qed

lemma served_channels: "served boxes r c S \<Longrightarrow> channels_in S c"
proof (induction rule: served.induct)
  case served_init
  then show ?case by (simp add: channels_in_def newConnectionHandler_def replies_def asked_on_def)
next
  case (served_step c S c')
  then show ?case using conn_step_channels reachable_ok [OF served_reachable] by blast
qed

lemma reachable_served: "reachable boxes r c \<Longrightarrow> \<exists>S. served boxes r c S"
  by (induction rule: reachable.induct) (auto intro: served.intros)

section \<open>Every interleaving\<close>

text \<open>
  C1. In every state a connection can reach, whatever the order of its goroutines, the process of a
  spawn has been killed at most once, and only if the box returned one: the goroutine of the
  spawn and \<^verbatim>\<open>asyncKill\<close> never both kill it.
\<close>

theorem killed_at_most_once:
  assumes "reachable boxes r c" "i < length (jobs c)"
  shows "kills (jobs c ! i) \<le> 1 \<and> (kills (jobs c ! i) = 1 \<longrightarrow> spawned (jobs c ! i))"
  using reachable_ok [OF assms(1)] jobs_okD(1) [OF _ assms(2)]
  by (auto simp: conn_ok_def job_ok_def split: if_splits)

theorem killed_at_most_once_witness: "kills (jobs spawn_running ! 0) \<le> 1"
  using killed_at_most_once [OF reachable_spawn_running, of 0] spawn_running_job by simp

text \<open>
  C2. In every reachable state at most one reply that ends a spawn (an error, or the answer to a
  kill) has been sent on the channel of that spawn.
\<close>

theorem spawn_one_terminal_reply:
  assumes "reachable boxes r c" "i < length (jobs c)" "jkind (jobs c ! i) = SpawnJob"
  shows "count_replies (terminal (rchannel (jstream (jobs c ! i)))) c \<le> 1"
proof -
  have "count_replies (terminal (rchannel (jstream (jobs c ! i)))) c \<le> spawn_replies (jobs c ! i)"
    using reachable_ok [OF assms(1)] sent_okD(2) [OF _ assms(2,3)] by (simp add: conn_ok_def)
  then show ?thesis by (simp add: spawn_replies_def split: if_splits)
qed

theorem spawn_one_terminal_reply_witness: "count_replies (terminal 1) spawn_running \<le> 1"
  using spawn_one_terminal_reply [OF reachable_spawn_running, of 0] spawn_running_job by simp



text \<open>
  C31. Shutting down ends, whatever the order of the goroutines: after \<^verbatim>\<open>HandleConn\<close> has returned no run of
  the background goroutines goes on forever, and wherever a run can go no further every job has ended and
  every process a box returned has been killed exactly once.
\<close>

theorem every_shutdown_ends:
  assumes "reachable boxes r c" "pc c = Returned"
  shows "\<not> (\<exists>f. f 0 = c \<and> (\<forall>n. \<exists>i. job_step i (f n) (f (Suc n)))) \<and>
    (\<forall>c'. (\<lambda>a b. \<exists>i. job_step i a b)\<^sup>*\<^sup>* c c' \<and> (\<forall>i d. \<not> job_step i c' d) \<longrightarrow>
      (\<forall>i<length (jobs c'). jpc (jobs c' ! i) = Closed \<and>
        (jkind (jobs c' ! i) = SpawnJob \<longrightarrow> kills (jobs c' ! i) = (if spawned (jobs c' ! i) then 1 else 0))))"
proof (intro conjI allI impI)
  have ok: "conn_ok c" by (rule reachable_ok [OF assms(1)])
  show "\<not> (\<exists>f. f 0 = c \<and> (\<forall>n. \<exists>i. job_step i (f n) (f (Suc n))))"
    using no_endless_run [OF ok] by blast
  fix c' i
  assume run: "(\<lambda>a b. \<exists>i. job_step i a b)\<^sup>*\<^sup>* c c' \<and> (\<forall>i d. \<not> job_step i c' d)" and i: "i < length (jobs c')"
  then have c': "conn_ok c'" "pc c' = Returned" "stuck i c'" using job_steps_ok [OF _ ok] assms(2) by (auto simp: stuck_def)
  show "jpc (jobs c' ! i) = Closed" by (rule stuck_closed [OF c'(1,3) i c'(2)])
  show "kills (jobs c' ! i) = (if spawned (jobs c' ! i) then 1 else 0)" if "jkind (jobs c' ! i) = SpawnJob"
    by (rule stuck_returned(2) [OF c'(1,3) i that c'(2)])
qed

theorem every_shutdown_ends_witness:
  "\<not> (\<exists>f. f 0 = spawn_returned \<and> (\<forall>n. \<exists>i. job_step i (f n) (f (Suc n))))"
  using every_shutdown_ends [OF reachable_spawn_returned] by blast

text \<open>
  C12. A kill that was asked for is carried out: when the goroutines of a spawn can do nothing more,
  the spawn has ended and the process, if the box returned one, has been killed exactly once,
  wherever the kill request met the spawn.
\<close>

theorem kill_is_honoured:
  assumes "reachable boxes r c" "i < length (jobs c)" "jkind (jobs c ! i) = SpawnJob" "kpc (jobs c ! i) \<noteq> NoKill"
    "\<forall>c'. \<not> job_step i c c'"
  shows "jpc (jobs c ! i) = Closed \<and> kills (jobs c ! i) = (if spawned (jobs c ! i) then 1 else 0)"
  using stuck_ended [OF reachable_ok [OF assms(1)] _ assms(2,3)] assms(4,5) by (auto simp: stuck_def)

theorem kill_is_honoured_witness: "jpc (jobs kill_end ! 0) = Closed \<and> kills (jobs kill_end ! 0) = 1"
  using kill_is_honoured [OF reachable_kill_end, of 0] kill_end_stuck
  by (simp add: kill_end_job spawn_job_def new_job_def)

text \<open>
  C36. The daemon speaks only when spoken to: every frame ever sent is a message without headers that the
  runtime reads back as a reply number and a channel on which it sent a message to a dispatcher before, whatever
  the interleaving.
\<close>

theorem replies_on_asked_channels:
  assumes "served boxes r c S" "f \<in> set (sent c)"
  shows "\<exists>ch n s. conn_next (bytes_reader (\<lambda>n. n) (\<lambda>_. 4096) f) = (Inr (False, ch, n), s) \<and> ch \<in> S"
proof -
  have "frame_id f \<in> set (replies c)" using assms(2) by (simp add: replies_def)
  then obtain ch n where "frame_id f = Some (ch, n)" "ch \<in> S"
    using served_channels [OF assms(1)] unfolding channels_in_def by blast
  then show ?thesis by (auto simp: frame_id_def split: prod.splits sum.splits bool.splits)
qed

theorem replies_on_asked_channels_witness:
  "\<exists>S. served all_boxes spawn_input kill_end S \<and>
    (\<exists>ch n s. conn_next (bytes_reader (\<lambda>n. n) (\<lambda>_. 4096) (frame_close 1 replyKillOk)) = (Inr (False, ch, n), s) \<and> ch \<in> S)"
proof -
  obtain S where S: "served all_boxes spawn_input kill_end S" using reachable_served [OF reachable_kill_end] by blast
  from replies_on_asked_channels [OF S, of "frame_close 1 replyKillOk"] S show ?thesis by (auto simp: kill_end_job)
qed

text \<open>
  C17. The state of a connection is consistent in every reachable state: each job is on a channel of
  its own, an attached dispatcher belongs to a job of its channel and of its kind, and after
  \<^verbatim>\<open>HandleConn\<close> returned the context of every job is cancelled.
\<close>

theorem connection_invariant:
  assumes "reachable boxes r c"
  shows "jobs_ok c \<and> sess_ok c"
  using reachable_ok [OF assms] by (simp add: conn_ok_def)

theorem connection_invariant_witness: "jobs_ok spawn_running \<and> sess_ok spawn_running"
  by (rule connection_invariant [OF reachable_spawn_running])

section \<open>One message\<close>

lemma conn_iter_unknown_headers:
  assumes "highestChannel c < ch" "sess c ch = None" "num \<noteq> spool" "num \<noteq> spawn" "intf_ok (ISlice args)"
  shows "conn_iter boxes (c\<lparr>inp := r\<lparr>rest := message ch num args (Some h) @ bs\<rparr>\<rparr>) =
    c\<lparr>inp := r\<lparr>rest := AppendIntf [] h @ bs\<rparr>, highestChannel := ch, pc := Reading\<rparr>"
  using assms
  by (simp add: conn_iter_def conn_read_def conn_next_message Get_def conn_handle_def Handle_def initial_Handle_def
      rd_simps skip_headers_def skip_ignore_value conn_update_swap Detach_def fun_upd_idem not_le [symmetric] del: AppendIntf.simps not_le)

text \<open>
  C16. A well-formed request to spawn on a new channel, with or without headers, is consumed to its
  last byte and starts one job with exactly the profile, name, executable, arguments and
  environment of the message; the dispatcher that can kill it is about to be attached.
\<close>

theorem spawn_request:
  assumes "highestChannel c < ch" "sess c ch = None"
    "intf_ok (IMapIntf m)" "map_of m ''type'' = Some (IString t)" "boxes t"
    "length name < 2 ^ 32" "length exe < 2 ^ 32" "intf_ok (IMapStr args)" "distinct (map fst args)"
    "intf_ok (IMapStr env)" "distinct (map fst env)" "\<forall>h. hdr = Some h \<longrightarrow> intf_ok h"
  shows "conn_iter boxes (c\<lparr>inp := r\<lparr>rest := message ch spawn
      [IMapIntf m, IString name, IString exe, IMapStr args, IMapStr env] hdr @ bs\<rparr>\<rparr>) =
    c\<lparr>inp := r\<lparr>rest := bs\<rparr>, highestChannel := ch,
      jobs := jobs c @ [(new_job (newResponseStream ch) SpawnJob t (AppendIntf [] (IMapIntf m)) name)
        \<lparr>jexecutable := exe, jargs := map_of args, jenv := map_of env\<rparr>],
      pc := Attaching ch (SpawnDispatch (newResponseStream ch) (length (jobs c)))\<rparr>"
  by (rule conn_iter_spawn [where boxes = boxes, OF assms])

theorem spawn_request_witness:
  "jobs (conn_iter all_boxes ((newConnectionHandler empty_reader)\<lparr>inp := empty_reader\<lparr>rest := message 1 spawn
      [IMapIntf [(''type'', IString ''docker'')], IString ''app'', IString ''/bin/app'', IMapStr [], IMapStr [(''A'', ''b'')]]
      (Some (ISlice [])) @ [7]\<rparr>\<rparr>)) = [spawn_job]"
  using spawn_request [where c = "newConnectionHandler empty_reader" and ch = 1 and m = "[(''type'', IString ''docker'')]"
      and t = "''docker''" and boxes = all_boxes and name = "''app''" and exe = "''/bin/app''" and args = "[]"
      and env = "[(''A'', ''b'')]" and hdr = "Some (ISlice [])" and r = empty_reader and bs = "[7]"]
  by (simp add: spawn_job_def newConnectionHandler_def newSessions_def all_boxes_def del: AppendIntf.simps)

text \<open>
  A well-formed request to spool on a new channel is consumed to its last byte and starts one
  job with the profile and the name of the message.
\<close>

theorem spool_request:
  assumes "highestChannel c < ch" "sess c ch = None"
    "intf_ok (IMapIntf m)" "map_of m ''type'' = Some (IString t)" "boxes t" "length name < 2 ^ 32"
    "\<forall>h. hdr = Some h \<longrightarrow> intf_ok h"
  shows "conn_iter boxes (c\<lparr>inp := r\<lparr>rest := message ch spool [IMapIntf m, IString name] hdr @ bs\<rparr>\<rparr>) =
    c\<lparr>inp := r\<lparr>rest := bs\<rparr>, highestChannel := ch,
      jobs := jobs c @ [new_job (newResponseStream ch) SpoolJob t (AppendIntf [] (IMapIntf m)) name],
      pc := Attaching ch (SpoolCancelationDispatch (newResponseStream ch) (length (jobs c)))\<rparr>"
  by (rule conn_iter_spool [where boxes = boxes, OF assms])

theorem spool_request_witness:
  "highestChannel (conn_iter all_boxes ((newConnectionHandler empty_reader)\<lparr>inp := empty_reader\<lparr>rest := message 1 spool
      [IMapIntf [(''type'', IString ''docker'')], IString ''app''] None @ [7]\<rparr>\<rparr>)) = 1"
  using spool_request [where c = "newConnectionHandler empty_reader" and ch = 1 and m = "[(''type'', IString ''docker'')]"
      and t = "''docker''" and boxes = all_boxes and name = "''app''" and hdr = None and r = empty_reader and bs = "[7]"]
  by (simp add: newConnectionHandler_def newSessions_def all_boxes_def del: AppendIntf.simps)

text \<open>
  A message on a channel that was closed is skipped, arguments and headers, and changes nothing
  else: the connection stays in step with the runtime.
\<close>

theorem late_message_skipped:
  assumes "pc c = Reading" "sess c ch = None" "ch \<le> highestChannel c"
    "intf_ok (ISlice args)" "\<forall>h. hdr = Some h \<longrightarrow> intf_ok h"
  shows "conn_iter boxes (c\<lparr>inp := r\<lparr>rest := message ch num args hdr @ bs\<rparr>\<rparr>) = c\<lparr>inp := r\<lparr>rest := bs\<rparr>\<rparr>"
  by (rule conn_iter_detached [OF assms])

theorem late_message_skipped_witness:
  "conn_iter all_boxes (kill_read\<lparr>inp := empty_reader\<lparr>rest := message 1 spawnKill [IUint 3] (Some (IString ''h'')) @ [7]\<rparr>\<rparr>) =
    kill_read\<lparr>inp := empty_reader\<lparr>rest := [7]\<rparr>\<rparr>"
  by (rule late_message_skipped) (simp_all add: kill_read_def spawn_started_def)

text \<open>
  A request with the wrong number of arguments ends the connection: \<^verbatim>\<open>HandleConn\<close> returns and
  the context of every job is cancelled.
\<close>

theorem wrong_arguments_end_connection:
  assumes "highestChannel c < ch" "sess c ch = None" "length args < 2 ^ 32"
    "num = spool \<and> length args \<noteq> 2 \<or> num = spawn \<and> length args \<noteq> 5"
  shows "pc (conn_iter boxes (c\<lparr>inp := r\<lparr>rest := message ch num args hdr @ bs\<rparr>\<rparr>)) = Returned"
  by (rule conn_iter_args [OF assms])

theorem wrong_arguments_end_connection_witness:
  "pc (conn_iter all_boxes (kill_read\<lparr>inp := empty_reader\<lparr>rest := message 2 spawn [IUint 1] None @ []\<rparr>\<rparr>)) = Returned"
  by (rule wrong_arguments_end_connection) (simp_all add: kill_read_def spawn_started_def)

text \<open>
  A request for an isolation type that is not configured is answered with one error frame on
  its channel, starts nothing, and leaves the connection in step for the next message.
\<close>

theorem unavailable_isolate_reply:
  assumes "highestChannel c < ch" "sess c ch = None" "\<not> broken c"
    "intf_ok (IMapIntf m)" "map_of m ''type'' = Some (IString t)" "\<not> boxes t" "length name < 2 ^ 32"
  shows "conn_iter boxes (c\<lparr>inp := r\<lparr>rest := message ch spool [IMapIntf m, IString name] None @ bs\<rparr>\<rparr>) =
    c\<lparr>inp := r\<lparr>rest := bs\<rparr>, highestChannel := ch, pc := Reading,
      sent := sent c @ [frame_error ch replySpoolError errUnknownIsolate (''isolate type '' @ t @ '' is not available'')]\<rparr>"
  by (rule conn_iter_unavailable [where boxes = boxes, OF assms])

theorem unavailable_isolate_reply_witness:
  "sent (conn_iter all_boxes (kill_read\<lparr>inp := empty_reader\<lparr>rest := message 2 spool
      [IMapIntf [(''type'', IString ''xen'')], IString ''app''] None @ []\<rparr>\<rparr>)) =
    [frame_error 2 replySpoolError errUnknownIsolate ''isolate type xen is not available'']"
  using unavailable_isolate_reply [where c = kill_read and ch = 2 and m = "[(''type'', IString ''xen'')]" and t = "''xen''"
      and boxes = all_boxes and name = "''app''" and r = empty_reader and bs = "[]"]
  by (simp add: kill_read_def spawn_started_def newConnectionHandler_def all_boxes_def del: AppendIntf.simps)

text \<open>
  C38. A first message with an unknown method number puts the connection out of step.  Without headers its
  arguments are left on the connection, with headers the arguments are skipped in their place and the headers are left; the
  next iteration reads what is left as if it were a message.
\<close>

theorem unknown_method_out_of_step:
  assumes "highestChannel c < ch" "sess c ch = None" "num \<noteq> spool" "num \<noteq> spawn" "hdr \<noteq> None \<longrightarrow> intf_ok (ISlice args)"
  shows "conn_iter boxes (c\<lparr>inp := r\<lparr>rest := message ch num args hdr @ bs\<rparr>\<rparr>) =
    c\<lparr>inp := r\<lparr>rest := (case hdr of None \<Rightarrow> AppendIntf [] (ISlice args) | Some h \<Rightarrow> AppendIntf [] h) @ bs\<rparr>,
      highestChannel := ch, pc := Reading\<rparr>"
proof (cases hdr)
  case None
  then show ?thesis using conn_iter_unknown [OF assms(1-4)] by simp
next
  case (Some h)
  then show ?thesis using conn_iter_unknown_headers [OF assms(1-4)] assms(5) by simp
qed

theorem unknown_method_out_of_step_witness:
  "rest (inp (conn_iter all_boxes (kill_read\<lparr>inp := empty_reader\<lparr>rest := message 2 9 [] None @ [7]\<rparr>\<rparr>))) = [0x90, 7] \<and>
   rest (inp (conn_iter all_boxes (kill_read\<lparr>inp := empty_reader\<lparr>rest := message 2 9 [] (Some (ISlice [])) @ [7]\<rparr>\<rparr>))) = [0x90, 7]"
  using unknown_method_out_of_step [where c = kill_read and ch = 2 and num = 9 and args = "[]" and bs = "[7]"
      and r = empty_reader and boxes = all_boxes and hdr = None]
    unknown_method_out_of_step [where c = kill_read and ch = 2 and num = 9 and args = "[]" and bs = "[7]"
      and r = empty_reader and boxes = all_boxes and hdr = "Some (ISlice [])"]
  by (simp add: kill_read_def spawn_started_def newConnectionHandler_def AppendArrayHeader_def wfixarray_def)

text \<open>
  C39. Cancelling a spool does not end the exchange on its channel: the cancellation answers with a
  closing frame, and when the box returns from \<^verbatim>\<open>Spool\<close> the goroutine answers again on the same
  channel, because \<^verbatim>\<open>closed\<close> is never set.
\<close>

theorem cancelled_spool_replies_twice:
  assumes "sess c ch = Some (SpoolCancelationDispatch rs j)" "j < length (jobs c)" "jstream (jobs c ! j) = rs"
    "\<not> rclosed rs" "rchannel rs = ch" "\<not> broken c" "intf_ok (ISlice args)"
  shows "sent (spool_return j err (conn_iter boxes (c\<lparr>inp := r\<lparr>rest := message ch spoolCancel args None @ bs\<rparr>\<rparr>))) =
    sent c @ [frame_close ch replySpoolOk,
      case err of None \<Rightarrow> frame_close ch replySpoolOk | Some msg \<Rightarrow> frame_error ch replySpoolError errSpoolingFailed msg]"
  using conn_iter_cancel [OF assms(1,4-7), where boxes = boxes and r = r and bs = bs] assms(2-6)
  by (cases err) (simp_all add: spool_return_def upd_job_def rs_Close_def rs_Error_def conn_write_def rs_close_def Let_def)

definition spooling :: conn where
  "spooling = (newConnectionHandler empty_reader)\<lparr>sess := [1 \<mapsto> SpoolCancelationDispatch (newResponseStream 1) 0],
     highestChannel := 1, jobs := [new_job (newResponseStream 1) SpoolJob ''docker'' [] ''app'']\<rparr>"

theorem cancelled_spool_replies_twice_witness:
  "sent (spool_return 0 None (conn_iter all_boxes (spooling\<lparr>inp := empty_reader\<lparr>rest := message 1 spoolCancel [] None @ []\<rparr>\<rparr>))) =
    [frame_close 1 replySpoolOk, frame_close 1 replySpoolOk]"
  using cancelled_spool_replies_twice [where c = spooling and ch = 1 and rs = "newResponseStream 1" and j = 0 and err = None
      and args = "[]" and bs = "[]" and boxes = all_boxes and r = empty_reader]
  by (simp add: spooling_def newConnectionHandler_def new_job_def newResponseStream_def del: AppendIntf.simps)

definition collect :: "responseStream \<Rightarrow> bytes list \<Rightarrow> bool \<times> conn \<Rightarrow> bool \<times> conn" where
  "collect rs = fold (\<lambda>p (notified, c). snd (collector_Write rs notified p c))"

lemma collect_notified:
  assumes "\<not> rclosed rs"
  shows "\<not> broken c \<Longrightarrow> collect rs ps (True, c) =
    (True, c\<lparr>sent := sent c @ map (frame_write (rchannel rs) replySpawnWrite) ps\<rparr>)"
  using assms
  by (induction ps arbitrary: c) (auto simp: collect_def collector_Write_def rs_Write_def conn_write_def)

text \<open>
  On the channel of a spawn the output collector sends the chunks of the worker's output in
  order, preceded by one empty chunk that tells the runtime the worker has started; an empty first
  write is that notification.
\<close>

theorem collector_notifies_once:
  assumes "\<not> rclosed rs" "\<not> broken c" "ps \<noteq> []"
  shows "collect rs ps (False, c) = (True, c\<lparr>sent := sent c @
    map (frame_write (rchannel rs) replySpawnWrite) (if hd ps = [] then ps else [] # ps)\<rparr>)"
proof -
  obtain p qs where ps: "ps = p # qs" using assms(3) by (cases ps) auto
  let ?c = "snd (snd (collector_Write rs False p c))"
  have "collect rs ps (False, c) = collect rs qs (True, ?c)"
    by (simp add: ps collect_def collector_Write_def Let_def)
  moreover have "\<not> broken ?c"
    using assms(1,2) by (simp add: collector_Write_def rs_Write_def conn_write_def Let_def)
  ultimately show ?thesis
    using collect_notified [OF assms(1), of ?c qs] assms(1,2)
    by (auto simp: ps collector_Write_def rs_Write_def conn_write_def Let_def)
qed

theorem collector_notifies_once_witness:
  "sent (snd (collect (newResponseStream 1) [[65], [66, 67]] (False, newConnectionHandler empty_reader))) =
    [frame_write 1 replySpawnWrite [], frame_write 1 replySpawnWrite [65], frame_write 1 replySpawnWrite [66, 67]]"
  using collector_notifies_once [of "newResponseStream 1" "newConnectionHandler empty_reader" "[[65], [66, 67]]"]
  by (simp add: newResponseStream_def newConnectionHandler_def)

section \<open>The raw profile\<close>

text \<open>
  The isolation type of a profile is found without decoding it, wherever the field stands among
  fields of any shape; a profile without the field is refused.
\<close>

theorem profile_type_found:
  assumes "intf_ok (IMapIntf m)"
  shows "(map_of m ''type'' = None \<longrightarrow> profile_Type (AppendIntf [] (IMapIntf m)) = Inl ErrNoTypeField) \<and>
    (\<forall>t. map_of m ''type'' = Some (IString t) \<longrightarrow> profile_Type (AppendIntf [] (IMapIntf m)) = Inr t)"
  using profile_Type_map [OF assms] Locate_AppendIntf [OF assms, of "''type''"]
  by (simp add: profile_Type_def [of "AppendIntf [] (IMapIntf m)"] del: AppendIntf.simps)

theorem profile_type_found_witness:
  "profile_Type (AppendIntf [] (IMapIntf [(''binds'', ISlice [IString ''x'']), (''type'', IString ''porto'')])) = Inr ''porto''"
  using profile_type_found [of "[(''binds'', ISlice [IString ''x'']), (''type'', IString ''porto'')]"]
  by (simp del: AppendIntf.simps)

end
