(* ===== verification/Mtn.thy ===== *)
theory Mtn
  imports Prelude
begin

text \<open>
  The network allocations of \<^verbatim>\<open>src/isolate/mtn.go\<close>: the pool of allocations kept in a bolt database,
  refilled from an allocator over HTTP.  The database (package \<^verbatim>\<open>go.etcd.io/bbolt\<close>, not in the
  repository) is a parameter of type \<open>bolt\<close>; what the code relies on is \<open>bolt_ok\<close>.
  The bytes of a stored value are represented by what \<^verbatim>\<open>json.Unmarshal\<close> makes of them.
\<close>

section \<open>Data\<close>

record RawPorto =
  pHostname :: string
  pIp :: string
  pNet :: string
  pId :: string

record RawAlloc =
  rId :: string
  rPorto :: RawPorto
  rNetwork :: string

record Allocation =
  aNet :: string
  aHostname :: string
  aIp :: string
  aId :: string
  aNetId :: string
  aBox :: string
  aUsed :: bool

record AllocsStat =
  Total :: int
  Free :: int
  UsedCount :: int
  MtnEnabled :: bool

record MtnCfg =
  Enable :: bool
  Allocbuffer :: int
  Url :: string
  Ident :: string
  SchedLabel :: string
  Headers :: strmap
  DbPath :: string

text \<open>A nil database pointer is \<^const>\<open>None\<close>; the mutex makes \<^verbatim>\<open>UseAlloc\<close> one step.\<close>

record 'db MtnState =
  Cfg :: MtnCfg
  Db :: "'db option"

text \<open>A stored value: the JSON form of an allocation, or bytes that do not parse as one.\<close>

datatype stored = Json Allocation | Garbage

type_synonym bucket = "string \<rightharpoonup> stored"
type_synonym contents = "string \<rightharpoonup> bucket"

datatype merr = BoltErr string | HttpErr string | JsonErr | NoBucket string | Exhausted | EmptyNetId
  | Panic | MtnError merr int

section \<open>The database\<close>

text \<open>
  The calls of bolt the code makes, with a transaction as a value: \<^verbatim>\<open>DB.Begin\<close>, \<^verbatim>\<open>Tx.ForEach\<close>,
  \<^verbatim>\<open>Tx.Bucket\<close>, \<^verbatim>\<open>Tx.CreateBucketIfNotExists\<close>, \<^verbatim>\<open>Bucket.ForEach\<close> and the cursor, \<^verbatim>\<open>Bucket.Get\<close>,
  \<^verbatim>\<open>Bucket.Put\<close> and \<^verbatim>\<open>Tx.Commit\<close>.
\<close>

record ('db, 'tx) bolt =
  Begin :: "'db \<Rightarrow> string + 'tx"
  Buckets :: "'tx \<Rightarrow> string list"
  HasBucket :: "'tx \<Rightarrow> string \<Rightarrow> bool"
  CreateBucketIfNotExists :: "'tx \<Rightarrow> string \<Rightarrow> string + 'tx"
  Entries :: "'tx \<Rightarrow> string \<Rightarrow> (string \<times> stored) list"
  BGet :: "'tx \<Rightarrow> string \<Rightarrow> string \<Rightarrow> stored option"
  Put :: "'tx \<Rightarrow> string \<Rightarrow> string \<Rightarrow> stored \<Rightarrow> string + 'tx"
  Commit :: "'db \<Rightarrow> 'tx \<Rightarrow> string option \<times> 'db"

definition create :: "('db, 'tx) bolt \<Rightarrow> string \<Rightarrow> (merr, 'tx, unit) rd" where
  "create bt net tx = (case CreateBucketIfNotExists bt tx net of
      Inl e \<Rightarrow> (Inl (BoltErr e), tx) | Inr tx' \<Rightarrow> (Inr (), tx'))"

definition put :: "('db, 'tx) bolt \<Rightarrow> string \<Rightarrow> string \<Rightarrow> stored \<Rightarrow> (merr, 'tx, unit) rd" where
  "put bt net k v tx = (case Put bt tx net k v of
      Inl e \<Rightarrow> (Inl (BoltErr e), tx) | Inr tx' \<Rightarrow> (Inr (), tx'))"

definition look :: "('tx \<Rightarrow> 'a) \<Rightarrow> (merr, 'tx, 'a) rd" where
  "look f tx = (Inr (f tx), tx)"

text \<open>
  \<^verbatim>\<open>Begin\<close>, the body, the deferred \<^verbatim>\<open>Rollback\<close> or the \<^verbatim>\<open>Commit\<close>: a body that fails leaves the
  database as it was.  Starting a transaction on a nil database panics.
\<close>

definition with_tx ::
  "('db, 'tx) bolt \<Rightarrow> (merr, 'tx, 'a) rd \<Rightarrow> 'db MtnState \<Rightarrow> (merr + 'a) \<times> 'db MtnState" where
  "with_tx bt f c = (case Db c of
      None \<Rightarrow> (Inl Panic, c)
    | Some db \<Rightarrow> (case Begin bt db of
         Inl e \<Rightarrow> (Inl (BoltErr e), c)
       | Inr tx \<Rightarrow> (case f tx of
            (Inl e, _) \<Rightarrow> (Inl e, c)
          | (Inr x, tx') \<Rightarrow> (case Commit bt db tx' of
               (Some e, db') \<Rightarrow> (Inl (BoltErr e), c\<lparr>Db := Some db'\<rparr>)
             | (None, db') \<Rightarrow> (Inr x, c\<lparr>Db := Some db'\<rparr>)))))"

section \<open>Requests to the allocator\<close>

text \<open>
  What a request gives: the request cannot be built, \<^verbatim>\<open>Do\<close> fails without a response or with one
  (its status, the error of decoding its body, and the messages decoded from it), or a response
  whose body decodes to a value or does not.
\<close>

record AllocError =
  Message :: "string list"
  CauseMessage :: "string list"

datatype 'a http = BadRequest string | DoFailed string
  | DoFailedResponse string int "string option" AllocError | Response "'a option"

definition GetAllocations :: "RawAlloc list http \<Rightarrow> merr + (string \<rightharpoonup> Allocation list)" where
  "GetAllocations resp = (case resp of
      BadRequest e \<Rightarrow> Inl (HttpErr e)
    | DoFailed e \<Rightarrow> Inl Panic
    | DoFailedResponse e status errDecode errResp \<Rightarrow>
        if status = 400 then
          (case errDecode of
             Some d \<Rightarrow> if Message errResp = [] \<or> CauseMessage errResp = [] then Inl Panic else Inl (HttpErr e)
           | None \<Rightarrow> Inl (HttpErr e))
        else Inl (HttpErr e)
    | Response None \<Rightarrow> Inl JsonErr
    | Response (Some jresp) \<Rightarrow> Inr (fold (\<lambda>a r.
        r(rNetwork a \<mapsto> (case r (rNetwork a) of None \<Rightarrow> [] | Some l \<Rightarrow> l) @
          [\<lparr>aNet = pNet (rPorto a), aHostname = pHostname (rPorto a), aIp = pIp (rPorto a), aId = rId a,
            aNetId = rNetwork a, aBox = '''', aUsed = False\<rparr>])) jresp Map.empty))"

text \<open>The loop of \<^verbatim>\<open>RequestAllocs\<close>; \<open>resp i\<close> is the outcome of its request number \<open>i\<close>.\<close>

fun request_loop ::
  "(nat \<Rightarrow> RawAlloc http) \<Rightarrow> string \<Rightarrow> nat \<Rightarrow> nat \<Rightarrow> (string \<rightharpoonup> Allocation) \<Rightarrow> merr + (string \<rightharpoonup> Allocation)" where
  "request_loop resp netid i 0 r = Inr r"
| "request_loop resp netid i (Suc n) r = (case resp i of
      BadRequest e \<Rightarrow> Inl (HttpErr e)
    | DoFailed e \<Rightarrow> Inl Panic
    | DoFailedResponse e _ _ _ \<Rightarrow> Inl (HttpErr e)
    | Response None \<Rightarrow> Inl JsonErr
    | Response (Some a) \<Rightarrow> request_loop resp netid (Suc i) n
        (r(rId a \<mapsto> \<lparr>aNet = pNet (rPorto a), aHostname = pHostname (rPorto a), aIp = pIp (rPorto a), aId = rId a,
            aNetId = netid, aBox = '''', aUsed = False\<rparr>)))"

definition RequestAllocs ::
  "(nat \<Rightarrow> RawAlloc http) \<Rightarrow> MtnCfg \<Rightarrow> string \<Rightarrow> merr + (string \<rightharpoonup> Allocation)" where
  "RequestAllocs resp cfg netid = request_loop resp netid 0 (nat (Allocbuffer cfg)) Map.empty"

section \<open>Operations on the pool\<close>

definition DbAllocIsFree :: "stored \<Rightarrow> bool" where
  "DbAllocIsFree v = (case v of Garbage \<Rightarrow> False | Json a \<Rightarrow> \<not> aUsed a)"

text \<open>
  \<^verbatim>\<open>UsedAllocations\<close>: the loop over the entries of one bucket, over the buckets, and the
  transaction around them.  The lists and counters gathered before an error are returned with it.
\<close>

fun used_entries ::
  "(string \<times> stored) list \<Rightarrow> Allocation list \<Rightarrow> AllocsStat \<Rightarrow> merr option \<times> Allocation list \<times> AllocsStat" where
  "used_entries [] allocs stat = (None, allocs, stat)"
| "used_entries ((k, v) # es) allocs stat =
     (let stat1 = stat\<lparr>Total := Total stat + 1\<rparr> in
      if DbAllocIsFree v then used_entries es allocs (stat1\<lparr>Free := Free stat1 + 1\<rparr>)
      else
        let stat2 = stat1\<lparr>UsedCount := UsedCount stat1 + 1\<rparr> in
        (case v of
           Garbage \<Rightarrow> (Some JsonErr, allocs, stat2)
         | Json a \<Rightarrow> used_entries es (allocs @ [a]) stat2))"

fun used_buckets ::
  "('db, 'tx) bolt \<Rightarrow> 'tx \<Rightarrow> string list \<Rightarrow> Allocation list \<Rightarrow> AllocsStat \<Rightarrow>
   merr option \<times> Allocation list \<times> AllocsStat" where
  "used_buckets bt tx [] allocs stat = (None, allocs, stat)"
| "used_buckets bt tx (n # ns) allocs stat = (case used_entries (Entries bt tx n) allocs stat of
      (Some e, allocs', stat') \<Rightarrow> (Some e, allocs', stat')
    | (None, allocs', stat') \<Rightarrow> used_buckets bt tx ns allocs' stat')"

definition UsedAllocations ::
  "('db, 'tx) bolt \<Rightarrow> 'db MtnState \<Rightarrow> (merr option \<times> Allocation list \<times> AllocsStat) \<times> 'db MtnState" where
  "UsedAllocations bt c =
     (let stat = \<lparr>Total = 0, Free = 0, UsedCount = 0, MtnEnabled = Enable (Cfg c)\<rparr> in
      if \<not> Enable (Cfg c) then ((None, [], stat), c)
      else case Db c of
        None \<Rightarrow> ((Some Panic, [], stat), c)
      | Some db \<Rightarrow> (case Begin bt db of
           Inl e \<Rightarrow> ((Some (BoltErr e), [], stat), c)
         | Inr tx \<Rightarrow> (case used_buckets bt tx (Buckets bt tx) [] stat of
              (Some e, allocs, stat') \<Rightarrow> ((Some e, allocs, stat'), c)
            | (None, allocs, stat') \<Rightarrow> (case Commit bt db tx of
                 (Some e, db') \<Rightarrow> ((Some (BoltErr e), allocs, stat'), c\<lparr>Db := Some db'\<rparr>)
               | (None, db') \<Rightarrow> ((None, allocs, stat'), c\<lparr>Db := Some db'\<rparr>)))))"

definition CountFreeAllocs :: "('db, 'tx) bolt \<Rightarrow> string \<Rightarrow> (merr, 'tx, int) rd" where
  "CountFreeAllocs bt netId = rd_bind (create bt netId) (\<lambda>_.
     look (\<lambda>tx. int (length (filter (\<lambda>(k, v). DbAllocIsFree v) (Entries bt tx netId)))))"

text \<open>Writing the allocations of a map in the order \<^verbatim>\<open>range\<close> visits them.\<close>

type_synonym alloc_order = "(string \<rightharpoonup> Allocation) \<Rightarrow> string list"

fun put_allocs :: "('db, 'tx) bolt \<Rightarrow> string \<Rightarrow> (string \<times> Allocation) list \<Rightarrow> (merr, 'tx, unit) rd" where
  "put_allocs bt netId [] = rd_return ()"
| "put_allocs bt netId ((id', a) # ps) =
     rd_bind (put bt netId id' (Json a)) (\<lambda>_. put_allocs bt netId ps)"

definition listing :: "alloc_order \<Rightarrow> (string \<rightharpoonup> Allocation) \<Rightarrow> (string \<times> Allocation) list" where
  "listing ord m = map (\<lambda>k. (k, the (m k))) (ord m)"

text \<open>The first allocation of the loop in \<^verbatim>\<open>GetDbAlloc\<close> is taken, the others are only stored.\<close>

definition take_first :: "string \<Rightarrow> (string \<times> Allocation) list \<Rightarrow> (string \<times> Allocation) list" where
  "take_first box ps = (case ps of [] \<Rightarrow> [] | (k, a) # qs \<Rightarrow> (k, a\<lparr>aUsed := True, aBox := box\<rparr>) # qs)"

text \<open>The error of \<^verbatim>\<open>CountFreeAllocs\<close> is only logged; the bucket it may have created stays.\<close>

definition ignore :: "(merr, 'tx, 'a) rd \<Rightarrow> (merr, 'tx, unit) rd" where
  "ignore f tx = (case f tx of (_, tx') \<Rightarrow> (Inr (), tx'))"

definition GetDbAlloc ::
  "('db, 'tx) bolt \<Rightarrow> alloc_order \<Rightarrow> (nat \<Rightarrow> RawAlloc http) \<Rightarrow> MtnCfg \<Rightarrow> string \<Rightarrow> string \<Rightarrow>
   (merr, 'tx, Allocation) rd" where
  "GetDbAlloc bt ord resp cfg netId box tx =
     (if \<not> HasBucket bt tx netId then (Inl (NoBucket netId), tx)
      else case find (\<lambda>(k, v). DbAllocIsFree v) (Entries bt tx netId) of
        Some (k, Json a) \<Rightarrow>
          (let a' = a\<lparr>aUsed := True, aBox := box\<rparr> in
           rd_bind (put bt netId (aId a') (Json a')) (\<lambda>_. rd_return a') tx)
      | Some (k, Garbage) \<Rightarrow> (Inl JsonErr, tx)
      | None \<Rightarrow>
          rd_bind (ignore (CountFreeAllocs bt netId)) (\<lambda>_.
            case RequestAllocs resp cfg netId of
              Inl e \<Rightarrow> rd_fail e
            | Inr allocs \<Rightarrow>
                rd_bind (create bt netId) (\<lambda>_.
                let ps = take_first box (listing ord allocs) in
                rd_bind (put_allocs bt netId ps) (\<lambda>_.
                case ps of [] \<Rightarrow> rd_fail Exhausted | (k, a) # _ \<Rightarrow> rd_return a))) tx)"

definition UseAlloc ::
  "('db, 'tx) bolt \<Rightarrow> alloc_order \<Rightarrow> (nat \<Rightarrow> RawAlloc http) \<Rightarrow> string \<Rightarrow> string \<Rightarrow>
   'db MtnState \<Rightarrow> (merr + Allocation) \<times> 'db MtnState" where
  "UseAlloc bt ord resp netId box c = with_tx bt (GetDbAlloc bt ord resp (Cfg c) netId box) c"

definition free_alloc :: "('db, 'tx) bolt \<Rightarrow> string \<Rightarrow> string \<Rightarrow> (merr, 'tx, unit) rd" where
  "free_alloc bt netId id' tx =
     (if \<not> HasBucket bt tx netId then (Inl (NoBucket netId), tx)
      else case BGet bt tx netId id' of
        Some (Json a) \<Rightarrow> put bt netId id' (Json (a\<lparr>aUsed := False\<rparr>)) tx
      | _ \<Rightarrow> (Inl JsonErr, tx))"

definition FreeDbAlloc ::
  "('db, 'tx) bolt \<Rightarrow> string \<Rightarrow> string \<Rightarrow> 'db MtnState \<Rightarrow> (merr + unit) \<times> 'db MtnState" where
  "FreeDbAlloc bt netId id' = with_tx bt (free_alloc bt netId id')"

text \<open>\<^verbatim>\<open>UnuseAlloc\<close> logs the error of \<^verbatim>\<open>FreeDbAlloc\<close>; a panic is not an error value.\<close>

definition UnuseAlloc ::
  "('db, 'tx) bolt \<Rightarrow> string \<Rightarrow> string \<Rightarrow> 'db MtnState \<Rightarrow> (merr + unit) \<times> 'db MtnState" where
  "UnuseAlloc bt netId id' c = (case FreeDbAlloc bt netId id' c of
      (Inl Panic, c') \<Rightarrow> (Inl Panic, c') | (_, c') \<Rightarrow> (Inr (), c'))"

definition bind_body ::
  "('db, 'tx) bolt \<Rightarrow> alloc_order \<Rightarrow> (nat \<Rightarrow> RawAlloc http) \<Rightarrow> MtnCfg \<Rightarrow> string \<Rightarrow> (merr, 'tx, unit) rd" where
  "bind_body bt ord resp cfg netId = rd_bind (CountFreeAllocs bt netId) (\<lambda>fCount.
     if Allocbuffer cfg > fCount then
       (case RequestAllocs resp cfg netId of
          Inl e \<Rightarrow> rd_fail e
        | Inr allocs \<Rightarrow> rd_bind (create bt netId) (\<lambda>_. put_allocs bt netId (listing ord allocs)))
     else rd_return ())"

definition BindAllocs ::
  "('db, 'tx) bolt \<Rightarrow> alloc_order \<Rightarrow> (nat \<Rightarrow> RawAlloc http) \<Rightarrow> string \<Rightarrow>
   'db MtnState \<Rightarrow> (merr + unit) \<times> 'db MtnState" where
  "BindAllocs bt ord resp netId c =
     (if length netId = 0 then (Inl EmptyNetId, c) else with_tx bt (bind_body bt ord resp (Cfg c) netId) c)"

text \<open>
  \<^verbatim>\<open>PoolInit\<close>: what the allocator already gave out is recorded unless it is known; an error is
  wrapped with the class \<^verbatim>\<open>ErrStdb\<close> (0) or, for the request, \<^verbatim>\<open>ErrIpbr\<close> (1).
\<close>

fun pool_net :: "('db, 'tx) bolt \<Rightarrow> string \<Rightarrow> Allocation list \<Rightarrow> (merr, 'tx, unit) rd" where
  "pool_net bt netId [] = rd_return ()"
| "pool_net bt netId (a # as) =
     rd_bind (create bt netId) (\<lambda>_.
     rd_bind (look (\<lambda>tx. BGet bt tx netId (aId a))) (\<lambda>old.
     rd_bind (if old = None then put bt netId (aId a) (Json (a\<lparr>aNetId := netId, aBox := '''', aUsed := False\<rparr>))
              else rd_return ()) (\<lambda>_.
     pool_net bt netId as)))"

fun pool_nets :: "('db, 'tx) bolt \<Rightarrow> (string \<times> Allocation list) list \<Rightarrow> (merr, 'tx, unit) rd" where
  "pool_nets bt [] = rd_return ()"
| "pool_nets bt ((n, as) # ps) = rd_bind (pool_net bt n as) (\<lambda>_. pool_nets bt ps)"

definition PoolInit ::
  "('db, 'tx) bolt \<Rightarrow> ((string \<rightharpoonup> Allocation list) \<Rightarrow> string list) \<Rightarrow> RawAlloc list http \<Rightarrow>
   'db MtnState \<Rightarrow> (merr + unit) \<times> 'db MtnState" where
  "PoolInit bt ord resp c =
     (if \<not> Enable (Cfg c) then (Inr (), c)
      else case GetAllocations resp of
        Inl Panic \<Rightarrow> (Inl Panic, c)
      | Inl e \<Rightarrow> (Inl (MtnError e 1), c)
      | Inr allAllocs \<Rightarrow>
          (case with_tx bt (pool_nets bt (map (\<lambda>n. (n, the (allAllocs n))) (ord allAllocs))) c of
             (Inl Panic, c') \<Rightarrow> (Inl Panic, c')
           | (Inl e, c') \<Rightarrow> (Inl (MtnError e 0), c')
           | (Inr u, c') \<Rightarrow> (Inr u, c')))"

section \<open>Opening the database\<close>

text \<open>
  \<^verbatim>\<open>SaveRename\<close> over a file system, where creating and removing a file may be refused.
  \<^verbatim>\<open>io.Copy(ioSrcDb, ioDstDb)\<close> reads the file it has just created and writes to the source, which
  is open for reading only: a write to it would fail.
\<close>

type_synonym files = "string \<rightharpoonup> bytes"

definition io_Copy_readonly :: "bytes \<Rightarrow> string option" where
  "io_Copy_readonly data = (if data = [] then None else Some ''bad file descriptor'')"

definition SaveRename :: "(string \<Rightarrow> bool) \<Rightarrow> (string \<Rightarrow> bool) \<Rightarrow> string \<Rightarrow> string \<Rightarrow> files \<Rightarrow> string option \<times> files" where
  "SaveRename creatable removable src dst fs =
     (if fs src = None then (Some ''open'', fs)
      else if \<not> creatable dst then (Some ''create'', fs)
      else
        let fs1 = fs(dst \<mapsto> []) in
        (case io_Copy_readonly (the (fs1 dst)) of
           Some e \<Rightarrow> (Some e, fs1)
         | None \<Rightarrow> if \<not> removable src then (Some ''remove'', fs1) else (None, fs1(src := None))))"

text \<open>
  What \<^verbatim>\<open>CfgInit\<close> finds around it: the host name, the two results of \<^verbatim>\<open>bolt.Open\<close>, whether
  \<^verbatim>\<open>os.Stat\<close> of the database file fails other than by absence, the permissions, and the error of
  the consistency check.
\<close>

record 'db cfg_env =
  hostname :: "string option"
  open_db :: "string \<Rightarrow> files \<Rightarrow> 'db option"
  stat_denied :: "string \<Rightarrow> bool"
  creatable :: "string \<Rightarrow> bool"
  removable :: "string \<Rightarrow> bool"
  check_error :: "'db \<Rightarrow> bool"

record MtnConfig =
  cEnable :: bool
  cAllocbuffer :: int
  cUrl :: string
  cLabel :: string
  cIdent :: string
  cDbPath :: string
  cHeaders :: strmap

datatype cfg_result = CfgOk | CfgFailed | CfgPanic

definition corruptedBackupPath :: string where
  "corruptedBackupPath = ''/var/tmp/isolate.mtn.db.corrupted''"

text \<open>The check \<^verbatim>\<open>db.Update\<close> runs; on a nil database it panics.\<close>

definition check_db :: "'db cfg_env \<Rightarrow> 'db option \<Rightarrow> 'db MtnState \<Rightarrow> cfg_result \<times> 'db MtnState" where
  "check_db env db c = (case db of
      None \<Rightarrow> (CfgPanic, c)
    | Some d \<Rightarrow> if check_error env d then (CfgFailed, c) else (CfgOk, c\<lparr>Db := Some d\<rparr>))"

text \<open>From the failed \<^verbatim>\<open>bolt.Open\<close> on.\<close>

definition recover_db ::
  "'db cfg_env \<Rightarrow> files \<Rightarrow> 'db MtnState \<Rightarrow> cfg_result \<times> 'db MtnState \<times> files" where
  "recover_db env fs c =
     (let path = DbPath (Cfg c) in
      if stat_denied env path then (case check_db env None c of (r, c') \<Rightarrow> (r, c', fs))
      else case fs path of
        None \<Rightarrow> (CfgFailed, c, fs)
      | Some data \<Rightarrow>
          (case (if length data > 0 then
                   if \<not> stat_denied env corruptedBackupPath \<and> fs corruptedBackupPath \<noteq> None then (False, fs)
                   else (case SaveRename (creatable env) (removable env) path corruptedBackupPath fs of
                           (Some e, fs1) \<Rightarrow> (False, fs1) | (None, fs1) \<Rightarrow> (True, fs1))
                 else if removable env path then (True, fs(path := None)) else (False, fs)) of
             (False, fs1) \<Rightarrow> (CfgFailed, c, fs1)
           | (True, fs1) \<Rightarrow>
               (case open_db env path fs1 of
                  None \<Rightarrow> (CfgFailed, c, fs1)
                | Some d \<Rightarrow> (case check_db env (Some d) c of (r, c') \<Rightarrow> (r, c', fs1)))))"

definition CfgInit ::
  "'db cfg_env \<Rightarrow> MtnConfig \<Rightarrow> files \<Rightarrow> 'db MtnState \<Rightarrow> cfg_result \<times> 'db MtnState \<times> files" where
  "CfgInit env cfg fs c =
     (let c1 = c\<lparr>Cfg := (Cfg c)\<lparr>Enable := cEnable cfg\<rparr>\<rparr> in
      if \<not> cEnable cfg then (CfgOk, c1, fs)
      else
        let c2 = c1\<lparr>Cfg := (Cfg c1)\<lparr>Allocbuffer := if cAllocbuffer cfg < 1 then 4 else cAllocbuffer cfg\<rparr>\<rparr> in
        if length (cLabel cfg) = 0 \<and> hostname env = None then (CfgFailed, c2, fs)
        else
          let label = (if length (cLabel cfg) = 0 then the (hostname env) else cLabel cfg);
              c3 = c2\<lparr>Cfg := (Cfg c2)\<lparr>SchedLabel := label,
                Ident := (if length (cIdent cfg) = 0 then label else cIdent cfg),
                Url := cUrl cfg, Headers := cHeaders cfg,
                DbPath := (if length (cDbPath cfg) > 1 then cDbPath cfg else ''/run/isolate.mtn.db'')\<rparr>\<rparr>
          in (case open_db env (DbPath (Cfg c3)) fs of
                Some d \<Rightarrow> (CfgOk, c3\<lparr>Db := Some d\<rparr>, fs)
              | None \<Rightarrow> recover_db env fs c3))"

section \<open>What the code relies on of the database\<close>

text \<open>
  The documented behaviour of bolt, with the contents of a database and of a transaction: a
  transaction starts from the database and commits to it, buckets and keys behave as maps, an
  iteration visits every key once, and a failed commit leaves the database.
\<close>

definition bucket_of :: "bucket option \<Rightarrow> bucket" where
  "bucket_of o' = (case o' of None \<Rightarrow> Map.empty | Some b \<Rightarrow> b)"

definition bolt_ok :: "('db, 'tx) bolt \<Rightarrow> ('db \<Rightarrow> contents) \<Rightarrow> ('tx \<Rightarrow> contents) \<Rightarrow> bool" where
  "bolt_ok bt dc tc \<longleftrightarrow>
     (\<forall>db tx. Begin bt db = Inr tx \<longrightarrow> tc tx = dc db) \<and>
     (\<forall>tx. distinct (Buckets bt tx) \<and> set (Buckets bt tx) = dom (tc tx)) \<and>
     (\<forall>tx n. HasBucket bt tx n \<longleftrightarrow> tc tx n \<noteq> None) \<and>
     (\<forall>tx n tx'. CreateBucketIfNotExists bt tx n = Inr tx' \<longrightarrow>
        tc tx' = (tc tx)(n \<mapsto> bucket_of (tc tx n))) \<and>
     (\<forall>tx n b. tc tx n = Some b \<longrightarrow> distinct (map fst (Entries bt tx n)) \<and> map_of (Entries bt tx n) = b) \<and>
     (\<forall>tx n b k. tc tx n = Some b \<longrightarrow> BGet bt tx n k = b k) \<and>
     (\<forall>tx n b k v tx'. tc tx n = Some b \<longrightarrow> Put bt tx n k v = Inr tx' \<longrightarrow> tc tx' = (tc tx)(n \<mapsto> b(k \<mapsto> v))) \<and>
     (\<forall>db tx db'. Commit bt db tx = (None, db') \<longrightarrow> dc db' = tc tx) \<and>
     (\<forall>db tx e db'. Commit bt db tx = (Some e, db') \<longrightarrow> dc db' = dc db)"

end
