(* ===== verification/Host.thy ===== *)
theory Host
  imports Dispatch Mtn
begin

text \<open>
  What the three boxes share: the errors they return, the record of the calls they make to the
  daemons and to the operating system, and the functions of Go's \<^verbatim>\<open>strings\<close> and
  \<^verbatim>\<open>path/filepath\<close> packages they use.
\<close>

named_theorems call_simps \<open>evaluation of calls to a daemon or to the operating system\<close>

section \<open>Errors\<close>

text \<open>
  What a daemon or the operating system reports: an error of the porto client with its number, name
  and message, an absent file (where \<^verbatim>\<open>os.IsNotExist\<close> matters), or any other error.
\<close>

datatype derr = PortoError int string string | NotExist string | SysErr string

text \<open>
  The errors of the boxes: such a report, an error of the network pool or of a profile, or one made
  by the code.  A panic and a call that never returns are outcomes no caller can catch.
\<close>

datatype gerr =
    Reported derr
  | EAGAIN
  | ErrSpawningCancelled
  | CtxErr
  | MtnErr merr
  | ProfileErr perr
  | Errorf string
  | Panicked
  | Blocked

definition fatal :: "gerr \<Rightarrow> bool" where
  "fatal e \<longleftrightarrow> e = Panicked \<or> e = Blocked \<or> e = MtnErr Panic"

section \<open>Calls and their history\<close>

text \<open>
  A daemon or the operating system answers a call by the calls made before it: its answers are a
  function of the history, which lists every call with its success.  A theorem for all such
  functions holds whatever the environment does.
\<close>

type_synonym 'e history = "('e \<times> bool) list"

record 'e world =
  hist :: "'e history"

definition call ::
  "('e history \<Rightarrow> 'e \<Rightarrow> derr + 'a) \<Rightarrow> 'e \<Rightarrow> (gerr, ('e, 'z) world_scheme, 'a) rd" where
  "call ans e w = (case ans (hist w) e of
      Inl err \<Rightarrow> (Inl (Reported err), w\<lparr>hist := hist w @ [(e, False)]\<rparr>)
    | Inr x \<Rightarrow> (Inr x, w\<lparr>hist := hist w @ [(e, True)]\<rparr>))"

text \<open>The error of a call as a value, as \<^verbatim>\<open>err := f()\<close> gives it to the code that follows.\<close>

definition attempt :: "(gerr, 's, 'a) rd \<Rightarrow> (gerr, 's, gerr + 'a) rd" where
  "attempt m s = (case m s of
      (Inl e, s') \<Rightarrow> if fatal e then (Inl e, s') else (Inr (Inl e), s')
    | (Inr x, s') \<Rightarrow> (Inr (Inr x), s'))"

text \<open>A call whose error is ignored or only logged.\<close>

definition logged :: "(gerr, 's, 'a) rd \<Rightarrow> (gerr, 's, unit) rd" where
  "logged m = rd_bind (attempt m) (\<lambda>_. rd_return ())"

text \<open>Reading and changing the state without a call.\<close>

definition gets :: "('s \<Rightarrow> 'a) \<Rightarrow> (gerr, 's, 'a) rd" where
  "gets f s = (Inr (f s), s)"

definition modify :: "('s \<Rightarrow> 's) \<Rightarrow> (gerr, 's, unit) rd" where
  "modify f s = (Inr (), f s)"

text \<open>\<^verbatim>\<open>for _, x := range xs { f(x) }\<close>, stopping at the first error that \<open>f\<close> does not handle.\<close>

fun each :: "('a \<Rightarrow> (gerr, 's, unit) rd) \<Rightarrow> 'a list \<Rightarrow> (gerr, 's, unit) rd" where
  "each f [] = rd_return ()"
| "each f (x # xs) = rd_bind (f x) (\<lambda>_. each f xs)"

section \<open>What a box is asked\<close>

text \<open>\<^verbatim>\<open>SpawnConfig\<close> of \<^verbatim>\<open>isolate.go\<close>; the raw profile is its buffer, absent once it has been decoded.\<close>

record SpawnConfig =
  scOpts :: "bytes option"
  scName :: string
  scExecutable :: string
  scArgs :: strmap
  scEnv :: strmap

text \<open>
  What the runtime decides: how a reader of the profile is filled, and the order in which the
  maps of strings and of containers are ranged over.
\<close>

record runtime =
  rdChunk :: "nat \<Rightarrow> nat"
  rdCap :: "nat \<Rightarrow> nat"
  map_range :: range_order
  cnt_range :: "(string \<rightharpoonup> nat) \<Rightarrow> string list"

definition decode_profile :: "('z) runtime_scheme \<Rightarrow> (rerr, reader, 'p) rd \<Rightarrow> bytes option \<Rightarrow> gerr + 'p" where
  "decode_profile rt dec opts = (case fst (DecodeTo (rdChunk rt) (rdCap rt) dec opts) of
      Inl e \<Rightarrow> Inl (ProfileErr e) | Inr p \<Rightarrow> Inr p)"

section \<open>Strings\<close>

text \<open>\<^verbatim>\<open>strings.Replace\<close> of one character by another, without a limit.\<close>

definition replace_char :: "char \<Rightarrow> char \<Rightarrow> string \<Rightarrow> string" where
  "replace_char a b = map (\<lambda>c. if c = a then b else c)"

text \<open>\<^verbatim>\<open>strings.Join\<close>.\<close>

fun join :: "string \<Rightarrow> string list \<Rightarrow> string" where
  "join sep [] = ''''"
| "join sep [s] = s"
| "join sep (s # t # ts) = s @ sep @ join sep (t # ts)"

definition has_prefix :: "string \<Rightarrow> string \<Rightarrow> bool" where
  "has_prefix p s \<longleftrightarrow> take (length p) s = p"

text \<open>\<^verbatim>\<open>%d\<close> of an integer.\<close>

definition show_int :: "int \<Rightarrow> string" where
  "show_int n = (if n < 0 then ''-'' @ show_nat (nat (- n)) else show_nat (nat n))"

text \<open>The pieces of a string between the occurrences of a character.\<close>

fun split_on :: "char \<Rightarrow> string \<Rightarrow> string list" where
  "split_on c [] = [[]]"
| "split_on c (x # xs) = (if x = c then [] # split_on c xs
     else case split_on c xs of [] \<Rightarrow> [[x]] | p # ps \<Rightarrow> (x # p) # ps)"

text \<open>Reading a key of a Go map that may be absent: the zero value.\<close>

definition get_str :: "strmap \<Rightarrow> string \<Rightarrow> string" where
  "get_str m k = (case m k of None \<Rightarrow> '''' | Some v \<Rightarrow> v)"

section \<open>Paths\<close>

text \<open>
  \<^verbatim>\<open>filepath.Clean\<close>: the elements of the path from left to right with the cleaned ones before it on
  a stack, dropping empty elements and dots and letting two dots remove the element before them.
\<close>

definition push_elem :: "bool \<Rightarrow> string \<Rightarrow> string list \<Rightarrow> string list" where
  "push_elem rooted e st =
     (if e = '''' \<or> e = ''.'' then st
      else if e = ''..'' then
        (case st of
           [] \<Rightarrow> if rooted then [] else [''..'']
         | t # ts \<Rightarrow> if t = ''..'' then ''..'' # st else ts)
      else e # st)"

definition clean_elems :: "bool \<Rightarrow> string list \<Rightarrow> string list" where
  "clean_elems rooted es = rev (fold (push_elem rooted) es [])"

definition is_rooted :: "string \<Rightarrow> bool" where
  "is_rooted p \<longleftrightarrow> p \<noteq> [] \<and> hd p = CHR ''/''"

definition elements :: "string \<Rightarrow> string list" where
  "elements p = clean_elems (is_rooted p) (split_on CHR ''/'' p)"

definition Clean :: "string \<Rightarrow> string" where
  "Clean p = (if is_rooted p then CHR ''/'' # join ''/'' (elements p)
     else if elements p = [] then ''.'' else join ''/'' (elements p))"

definition Join :: "string list \<Rightarrow> string" where
  "Join es = (case dropWhile (\<lambda>e. e = '''') es of [] \<Rightarrow> '''' | es' \<Rightarrow> Clean (join ''/'' es'))"

definition Base :: "string \<Rightarrow> string" where
  "Base p = (if p = [] then ''.''
     else let q = rev (dropWhile (\<lambda>c. c = CHR ''/'') (rev p))
          in if q = [] then ''/'' else last (split_on CHR ''/'' q))"

definition Dir :: "string \<Rightarrow> string" where
  "Dir p = Clean (rev (dropWhile (\<lambda>c. c \<noteq> CHR ''/'') (rev p)))"

section \<open>Lemmas on calls\<close>

lemma attempt_Inr [call_simps]: "m s = (Inr x, s') \<Longrightarrow> attempt m s = (Inr (Inr x), s')"
  by (simp add: attempt_def)

lemma attempt_Inl [call_simps]: "m s = (Inl e, s') \<Longrightarrow> \<not> fatal e \<Longrightarrow> attempt m s = (Inr (Inl e), s')"
  by (simp add: attempt_def)

lemma fatal_simps [simp]:
  "\<not> fatal (Reported d)" "fatal Panicked" "fatal Blocked" "fatal (MtnErr e) \<longleftrightarrow> e = Panic"
  "\<not> fatal (Errorf s)" "\<not> fatal EAGAIN" "\<not> fatal ErrSpawningCancelled" "\<not> fatal CtxErr" "\<not> fatal (ProfileErr p)"
  by (auto simp: fatal_def)

lemma attempt_call:
  "attempt (call ans e) w = (Inr (case ans (hist w) e of Inl d \<Rightarrow> Inl (Reported d) | Inr x \<Rightarrow> Inr x),
     w\<lparr>hist := hist w @ [(e, \<not> isl (ans (hist w) e))]\<rparr>)"
  by (simp add: attempt_def call_def split: sum.splits)

lemma logged_call:
  "logged (call ans e) w = (Inr (), w\<lparr>hist := hist w @ [(e, \<not> isl (ans (hist w) e))]\<rparr>)"
  by (simp add: logged_def rd_bind_def attempt_call rd_return_def)

section \<open>What a computation adds to the history\<close>

text \<open>
  \<open>issues m P\<close>: whatever the state it starts from, \<open>m\<close> only appends to the history, and its result
  and the calls it adds satisfy \<open>P\<close>.  The rules below follow the structure of the code.
\<close>

definition issues :: "(gerr, ('e, 'z) world_scheme, 'a) rd \<Rightarrow> (gerr + 'a \<Rightarrow> 'e history \<Rightarrow> bool) \<Rightarrow> bool" where
  "issues m P \<longleftrightarrow> (\<forall>w. \<exists>es. hist (snd (m w)) = hist w @ es \<and> P (fst (m w)) es)"

lemma issuesD: "issues m P \<Longrightarrow> m w = (r, w') \<Longrightarrow> \<exists>es. hist w' = hist w @ es \<and> P r es"
  by (metis issues_def fst_conv snd_conv)

lemma issues_weaken: "issues m P \<Longrightarrow> (\<And>r es. P r es \<Longrightarrow> Q r es) \<Longrightarrow> issues m Q"
  unfolding issues_def by blast

lemma issues_conj:
  assumes "issues m P" "issues m Q"
  shows "issues m (\<lambda>r es. P r es \<and> Q r es)"
  unfolding issues_def
proof
  fix w
  obtain es fs where "hist (snd (m w)) = hist w @ es" "P (fst (m w)) es" "hist (snd (m w)) = hist w @ fs" "Q (fst (m w)) fs"
    using assms unfolding issues_def by meson
  then show "\<exists>es. hist (snd (m w)) = hist w @ es \<and> P (fst (m w)) es \<and> Q (fst (m w)) es" by auto
qed

lemma issues_return: "P (Inr x) [] \<Longrightarrow> issues (rd_return x) P"
  by (simp add: issues_def rd_return_def)

lemma issues_fail: "P (Inl e) [] \<Longrightarrow> issues (rd_fail e) P"
  by (simp add: issues_def rd_fail_def)

lemma issues_call:
  assumes "\<And>d. P (Inl (Reported d)) [(e, False)]" "\<And>x. P (Inr x) [(e, True)]"
  shows "issues (call ans e) P"
  using assms by (simp add: issues_def call_def split: sum.splits)

lemma issues_bind:
  assumes m: "issues m (\<lambda>r es. case r of Inl e \<Rightarrow> P (Inl e) es | Inr x \<Rightarrow> issues (f x) (\<lambda>r' es'. P r' (es @ es')))"
  shows "issues (rd_bind m f) P"
  unfolding issues_def
proof
  fix w
  obtain r w' where r: "m w = (r, w')" by force
  from issuesD [OF m r] obtain es where es: "hist w' = hist w @ es"
    "case r of Inl e \<Rightarrow> P (Inl e) es | Inr x \<Rightarrow> issues (f x) (\<lambda>r' es'. P r' (es @ es'))" by blast
  show "\<exists>es. hist (snd (rd_bind m f w)) = hist w @ es \<and> P (fst (rd_bind m f w)) es"
  proof (cases r)
    case (Inl e)
    with r es show ?thesis by (simp add: rd_bind_def)
  next
    case (Inr x)
    obtain r2 w2 where r2: "f x w' = (r2, w2)" by force
    from es Inr have "issues (f x) (\<lambda>r' es'. P r' (es @ es'))" by simp
    from issuesD [OF this r2] obtain fs where "hist w2 = hist w' @ fs" "P r2 (es @ fs)" by blast
    with r r2 es Inr show ?thesis by (simp add: rd_bind_def)
  qed
qed

lemma issues_attempt:
  assumes "issues m (\<lambda>r es. case r of Inl e \<Rightarrow> if fatal e then P (Inl e) es else P (Inr (Inl e)) es
    | Inr x \<Rightarrow> P (Inr (Inr x)) es)"
  shows "issues (attempt m) P"
  unfolding issues_def
proof
  fix w
  obtain r w' where r: "m w = (r, w')" by force
  from issuesD [OF assms r] show "\<exists>es. hist (snd (attempt m w)) = hist w @ es \<and> P (fst (attempt m w)) es"
    using r by (auto simp: attempt_def split: sum.splits if_splits)
qed

lemma issues_logged:
  assumes "issues m (\<lambda>r es. case r of Inl e \<Rightarrow> if fatal e then P (Inl e) es else P (Inr ()) es | Inr x \<Rightarrow> P (Inr ()) es)"
  shows "issues (logged m) P"
  unfolding logged_def
  by (rule issues_bind, rule issues_attempt, rule issues_weaken [OF assms])
     (auto intro!: issues_return split: sum.splits if_splits)

lemma issues_logged_call:
  assumes "\<And>b. P (Inr ()) [(e, b)]"
  shows "issues (logged (call ans e)) P"
  by (rule issues_logged, rule issues_call) (simp_all add: assms)

lemma issues_attempt_call:
  assumes "\<And>d. P (Inr (Inl (Reported d))) [(e, False)]" "\<And>x. P (Inr (Inr x)) [(e, True)]"
  shows "issues (attempt (call ans e)) P"
  by (rule issues_attempt, rule issues_call) (simp_all add: assms)

text \<open>A loop keeps what every round keeps.\<close>

lemma issues_each:
  assumes "\<And>x. x \<in> set xs \<Longrightarrow> issues (f x) (\<lambda>r es. Q r \<and> (\<forall>c \<in> set es. R c))"
    and "Q (Inr ())"
  shows "issues (each f xs) (\<lambda>r es. Q r \<and> (\<forall>c \<in> set es. R c))"
  using assms(1)
proof (induction xs)
  case Nil
  then show ?case by (simp add: issues_return assms(2))
next
  case (Cons x xs)
  have "issues (f x) (\<lambda>r es. Q r \<and> (\<forall>c \<in> set es. R c))" by (simp add: Cons.prems)
  moreover have "issues (each f xs) (\<lambda>r es. Q r \<and> (\<forall>c \<in> set es. R c))" by (simp add: Cons)
  ultimately show ?case unfolding each.simps
    by (intro issues_bind) (erule issues_weaken, auto split: sum.splits elim!: issues_weaken)
qed

end
