(* ===== verification/Support.thy ===== *)
theory Support
  imports Host "HOL-Library.List_Lexorder" "HOL-Library.Char_ord"
begin

text \<open>
  The supporting packages: log records and levels (\<^verbatim>\<open>src/pkg/logutils\<close>) and the export of metrics
  (\<^verbatim>\<open>src/pkg/exportmetrics\<close>).
\<close>

section \<open>Log levels (level.go) and records (handler.go)\<close>

datatype level = DebugLevel | InfoLevel | WarnLevel | ErrorLevel | FatalLevel

definition lower :: "char \<Rightarrow> char" where
  "lower c = (let n = of_char c :: nat in if 65 \<le> n \<and> n \<le> 90 then char_of (n + 32) else c)"

definition ParseLevel :: "string \<Rightarrow> level option" where
  "ParseLevel s =
     (let t = map lower s in
      if t = ''debug'' then Some DebugLevel
      else if t = ''info'' then Some InfoLevel
      else if t = ''warn'' \<or> t = ''warning'' then Some WarnLevel
      else if t = ''error'' then Some ErrorLevel
      else if t = ''fatal'' then Some FatalLevel
      else None)"

text \<open>\<^verbatim>\<open>bytes.Trim\<close> of the quotes on both ends.\<close>

definition trim_quotes :: "string \<Rightarrow> string" where
  "trim_quotes s = (let f = dropWhile (\<lambda>c. c = CHR 0x22) in rev (f (rev (f s))))"

definition Level_UnmarshalJSON :: "string \<Rightarrow> level option" where
  "Level_UnmarshalJSON data = ParseLevel (trim_quotes data)"

fun getLevel :: "level \<Rightarrow> string" where
  "getLevel DebugLevel = ''DEBUG''"
| "getLevel InfoLevel = ''INFO''"
| "getLevel WarnLevel = ''WARN''"
| "getLevel ErrorLevel = ''ERROR''"
| "getLevel FatalLevel = ''ERROR''"

text \<open>
  A log entry with its formatted time and the formatted values of its fields, as the runtime ranges
  over them.
\<close>

record logEntry =
  leTime :: string
  leLevel :: level
  leMessage :: string
  leFields :: "(string \<times> string) list"

text \<open>The loop over the sorted keys; \<open>i\<close> counts the fields that are left.\<close>

fun log_fields :: "(string \<times> string) list \<Rightarrow> string list \<Rightarrow> nat \<Rightarrow> string" where
  "log_fields fs [] i = ''''"
| "log_fields fs (k # ks) i =
     k @ '': '' @ get_str (map_of fs) k @ (if i - 1 > 0 then '', '' else '''') @ log_fields fs ks (i - 1)"

definition HandleLog :: "logEntry \<Rightarrow> string" where
  "HandleLog e =
     (let fs = leFields e; keys = sort (map fst fs); tab = [CHR 0x09] in
      leTime e @ tab @ getLevel (leLevel e) @ tab @ leMessage e @
      (if length fs > 0 then tab @ ''['' @ log_fields fs keys (length fs) @ '']'' else '''') @ [CHR 0x0A])"

section \<open>Graphite (graphite.go)\<close>

text \<open>
  A metric as its snapshot gives it.  \<open>'f\<close> are floating point numbers, which the code only divides
  by the unit and prints: both are parameters.
\<close>

record 'f rates =
  rtCount :: int
  rtRate1 :: 'f
  rtRate5 :: 'f
  rtRate15 :: 'f
  rtMean :: 'f

record 'f timing = "'f rates" +
  tmMin :: int
  tmMax :: int
  tmMean :: 'f
  tmPercentiles :: "'f list"

datatype 'f metric = Counter int | Gauge int | Meter "'f rates" | Timer "'f timing" | Healthcheck | UnknownMetric

record 'f graphite =
  gPrefix :: string
  gDuStr :: string
  gDu :: int
  fmt2 :: "'f \<Rightarrow> string"
  per_unit :: "'f \<Rightarrow> int \<Rightarrow> 'f"

text \<open>Go's division of integers truncates towards zero.\<close>

definition quot :: "int \<Rightarrow> int \<Rightarrow> int" where
  "quot a b = sgn a * sgn b * (\<bar>a\<bar> div \<bar>b\<bar>)"

definition gline :: "'f graphite \<Rightarrow> int \<Rightarrow> string \<Rightarrow> string \<Rightarrow> string \<Rightarrow> string" where
  "gline g now name key value = gPrefix g @ ''.'' @ name @ key @ '' '' @ value @ '' '' @ show_int now @ [CHR 0x0A]"

definition percentile_keys :: "string list" where
  "percentile_keys = [''50'', ''75'', ''95'', ''99'', ''999'']"

definition metric_lines :: "'f graphite \<Rightarrow> int \<Rightarrow> string \<Rightarrow> 'f metric \<Rightarrow> string list" where
  "metric_lines g now name m = (case m of
      Counter n \<Rightarrow> [gline g now name '''' (show_int n)]
    | Gauge n \<Rightarrow> [gline g now name '''' (show_int n)]
    | Meter r \<Rightarrow>
        [gline g now name ''.count'' (show_int (rtCount r)), gline g now name ''.rate1m'' (fmt2 g (rtRate1 r)),
         gline g now name ''.rat5m'' (fmt2 g (rtRate5 r)), gline g now name ''.rate15m'' (fmt2 g (rtRate15 r)),
         gline g now name ''.ratemean'' (fmt2 g (rtMean r))]
    | Timer t \<Rightarrow>
        [gline g now name ''.count'' (show_int (rtCount t)),
         gline g now name (''.min_'' @ gDuStr g) (show_int (quot (tmMin t) (gDu g))),
         gline g now name (''.max_'' @ gDuStr g) (show_int (quot (tmMax t) (gDu g))),
         gline g now name (''.mean_'' @ gDuStr g) (fmt2 g (per_unit g (tmMean t) (gDu g)))] @
        map (\<lambda>(key, v). gline g now name (''.'' @ key @ ''_'' @ gDuStr g) (fmt2 g (per_unit g v (gDu g))))
          (zip percentile_keys (tmPercentiles t)) @
        [gline g now name ''.rate1m'' (fmt2 g (rtRate1 t)), gline g now name ''.rate5m'' (fmt2 g (rtRate5 t)),
         gline g now name ''.rate15m'' (fmt2 g (rtRate15 t)), gline g now name ''.ratemean'' (fmt2 g (rtMean t))]
    | Healthcheck \<Rightarrow> []
    | UnknownMetric \<Rightarrow> [])"

definition Send :: "'f graphite \<Rightarrow> int \<Rightarrow> (string \<times> 'f metric) list \<Rightarrow> string" where
  "Send g now registry = concat (concat (map (\<lambda>(name, m). metric_lines g now name m) registry))"

text \<open>
  \<^verbatim>\<open>NewGraphiteExporter\<close> on the two options; executing the template of the prefix and parsing a
  duration are parameters.
\<close>

definition NewGraphiteExporter ::
  "(string \<Rightarrow> derr + string) \<Rightarrow> (string \<Rightarrow> derr + int) \<Rightarrow> string \<Rightarrow> string \<Rightarrow> gerr + (string \<times> string \<times> int)" where
  "NewGraphiteExporter template parseDuration pfx unit' =
     (let pfx1 = (if pfx = '''' then ''{{hostname}}'' else pfx) in
      case template pfx1 of
        Inl e \<Rightarrow> Inl (Reported e)
      | Inr p \<Rightarrow>
          let unit1 = (if unit' = '''' then ''1ms'' else unit') in
          if \<not> has_prefix ''1'' unit1 then Inl (Errorf ''duStr must be 1<unit>: 1ms, 1sec, 1min'')
          else (case parseDuration unit1 of
              Inl e \<Rightarrow> Inl (Reported e)
            | Inr du \<Rightarrow> Inr (p, drop 1 unit1, du)))"

text \<open>\<^verbatim>\<open>New\<close> of factory.go: which exporter the configuration asks for.\<close>

datatype sender = Graphite string string int | Noop

definition new_sender ::
  "(string \<Rightarrow> derr + string) \<Rightarrow> (string \<Rightarrow> derr + int) \<Rightarrow> string \<Rightarrow> derr + (string \<times> string) \<Rightarrow> gerr + sender" where
  "new_sender template parseDuration name args =
     (if name = ''graphite'' then
        (case args of
           Inl e \<Rightarrow> Inl (Reported e)
         | Inr (pfx, unit') \<Rightarrow> (case NewGraphiteExporter template parseDuration pfx unit' of
              Inl e \<Rightarrow> Inl e | Inr (p, s, du) \<Rightarrow> Inr (Graphite p s du)))
      else if name = '''' then Inr Noop
      else Inl (Errorf (''unknown sender type '' @ name)))"

section \<open>Lemmas\<close>

text \<open>The counting loop puts a separator between the fields and nowhere else.\<close>

lemma log_fields_join:
  "i = length ks \<Longrightarrow> log_fields fs ks i = join '', '' (map (\<lambda>k. k @ '': '' @ get_str (map_of fs) k) ks)"
proof (induction fs ks i rule: log_fields.induct)
  case (2 fs k ks i)
  then show ?case by (cases ks) auto
qed simp

end
