(* ===== verification/Semaphore.thy ===== *)
theory Semaphore
  imports Host
begin

text \<open>
  The counting semaphore of \<^verbatim>\<open>src/pkg/semaphore/semaphore.go\<close>: a channel of the given capacity.  What
  \<^verbatim>\<open>Acquire\<close> does depends on whether its context is done; when it is and the channel has room
  Go chooses, which is the last argument.
\<close>

record semaphore =
  smCap :: nat
  smHeld :: nat

definition sem_New :: "nat \<Rightarrow> gerr + semaphore" where
  "sem_New n = (if n = 0 then Inl Panicked else Inr \<lparr>smCap = n, smHeld = 0\<rparr>)"

definition sem_Acquire :: "bool \<Rightarrow> bool \<Rightarrow> semaphore \<Rightarrow> (gerr + unit) \<times> semaphore" where
  "sem_Acquire ctxDone pick s =
     (if smHeld s < smCap s \<and> (\<not> ctxDone \<or> pick) then (Inr (), s\<lparr>smHeld := Suc (smHeld s)\<rparr>)
      else if ctxDone then (Inl CtxErr, s)
      else (Inl Blocked, s))"

definition sem_Release :: "semaphore \<Rightarrow> (gerr + unit) \<times> semaphore" where
  "sem_Release s = (if smHeld s = 0 then (Inl Blocked, s) else (Inr (), s\<lparr>smHeld := smHeld s - 1\<rparr>))"

definition sem_ok :: "semaphore \<Rightarrow> bool" where
  "sem_ok s \<longleftrightarrow> 0 < smCap s \<and> smHeld s \<le> smCap s"

lemma sem_New_ok: "sem_New n = Inr s \<Longrightarrow> sem_ok s"
  by (auto simp: sem_New_def sem_ok_def split: if_splits)

lemma sem_Acquire_ok: "sem_Acquire d p s = (r, s') \<Longrightarrow> sem_ok s \<Longrightarrow> sem_ok s'"
  by (auto simp: sem_Acquire_def sem_ok_def split: if_splits)

lemma sem_Release_ok: "sem_Release s = (r, s') \<Longrightarrow> sem_ok s \<Longrightarrow> sem_ok s'"
  by (auto simp: sem_Release_def sem_ok_def split: if_splits)

lemma sem_Acquire_Release: "sem_Acquire d p s = (Inr (), s') \<Longrightarrow> sem_Release s' = (Inr (), s)"
  by (auto simp: sem_Acquire_def sem_Release_def split: if_splits)

end
