(* ===== verification/Admission.thy ===== *)
theory Admission
  imports Semaphore
begin

text \<open>
  The admission of spawns, the same code in the three boxes (\<^verbatim>\<open>Spawn\<close> in
  \<^verbatim>\<open>src/isolate/{docker,porto,process}/box.go\<close>): the counter of the spawns that queue and the semaphore of
  those that run.  First as a spawn sees it on its own, then with any number of goroutines.
\<close>

section \<open>One spawn\<close>

record gate =
  gSem :: semaphore
  gQueue :: int

definition gate_enter :: "gate \<Rightarrow> (gerr + unit) \<times> gate" where
  "gate_enter g =
     (let g1 = g\<lparr>gQueue := gQueue g + 1\<rparr> in
      if gQueue g1 > 10 then (Inl EAGAIN, g1\<lparr>gQueue := gQueue g1 - 1\<rparr>) else (Inr (), g1))"

text \<open>The counter goes down when \<^verbatim>\<open>Acquire\<close> returns, with or without an error.\<close>

definition gate_acquire :: "bool \<Rightarrow> bool \<Rightarrow> gate \<Rightarrow> (gerr + unit) \<times> gate" where
  "gate_acquire ctxDone pick g = (case sem_Acquire ctxDone pick (gSem g) of
      (Inr _, s) \<Rightarrow> (Inr (), g\<lparr>gSem := s, gQueue := gQueue g - 1\<rparr>)
    | (Inl e, s) \<Rightarrow> if fatal e then (Inl e, g)
        else (Inl ErrSpawningCancelled, g\<lparr>gSem := s, gQueue := gQueue g - 1\<rparr>))"

definition gate_release :: "gate \<Rightarrow> (gerr + unit) \<times> gate" where
  "gate_release g = (case sem_Release (gSem g) of (r, s) \<Rightarrow> (r, g\<lparr>gSem := s\<rparr>))"

section \<open>Many spawns\<close>

text \<open>
  Where a goroutine is inside \<^verbatim>\<open>Spawn\<close>: it has counted itself, is about to take itself off the counter
  after a refusal, has passed the check, has the semaphore or an error of it and is about to
  take itself off the counter, runs, or has returned.
\<close>

datatype spawn_pc = Counted | Refused | Passed | Acquired | Cancelled | Running | Returned

record spawns =
  pcs :: "spawn_pc list"
  squeue :: int
  ssem :: semaphore
  abandoned :: nat

definition spawns_init :: "nat \<Rightarrow> spawns" where
  "spawns_init n = \<lparr>pcs = [], squeue = 0, ssem = \<lparr>smCap = n, smHeld = 0\<rparr>, abandoned = 0\<rparr>"

definition goto :: "nat \<Rightarrow> spawn_pc \<Rightarrow> spawns \<Rightarrow> spawns" where
  "goto i x s = s\<lparr>pcs := (pcs s)[i := x]\<rparr>"

text \<open>
  One step of one goroutine.  The first argument says whether the box returns early between the
  check and the semaphore, as porto does when it has no layers or no connection; \<open>abandoned\<close> counts
  these returns.
\<close>

inductive spawn_step :: "bool \<Rightarrow> spawns \<Rightarrow> spawns \<Rightarrow> bool" for early :: bool where
  inc: "spawn_step early s (s\<lparr>pcs := pcs s @ [Counted], squeue := squeue s + 1\<rparr>)"
| refuse: "i < length (pcs s) \<Longrightarrow> pcs s ! i = Counted \<Longrightarrow> squeue s > 10 \<Longrightarrow> spawn_step early s (goto i Refused s)"
| refused: "i < length (pcs s) \<Longrightarrow> pcs s ! i = Refused \<Longrightarrow>
    spawn_step early s ((goto i Returned s)\<lparr>squeue := squeue s - 1\<rparr>)"
| pass: "i < length (pcs s) \<Longrightarrow> pcs s ! i = Counted \<Longrightarrow> \<not> squeue s > 10 \<Longrightarrow> spawn_step early s (goto i Passed s)"
| abandon: "i < length (pcs s) \<Longrightarrow> pcs s ! i = Passed \<Longrightarrow> early \<Longrightarrow>
    spawn_step early s ((goto i Returned s)\<lparr>abandoned := Suc (abandoned s)\<rparr>)"
| acquire: "i < length (pcs s) \<Longrightarrow> pcs s ! i = Passed \<Longrightarrow> sem_Acquire d p (ssem s) = (Inr (), sm) \<Longrightarrow>
    spawn_step early s ((goto i Acquired s)\<lparr>ssem := sm\<rparr>)"
| cancel: "i < length (pcs s) \<Longrightarrow> pcs s ! i = Passed \<Longrightarrow> sem_Acquire d p (ssem s) = (Inl CtxErr, sm) \<Longrightarrow>
    spawn_step early s ((goto i Cancelled s)\<lparr>ssem := sm\<rparr>)"
| dec_acquired: "i < length (pcs s) \<Longrightarrow> pcs s ! i = Acquired \<Longrightarrow>
    spawn_step early s ((goto i Running s)\<lparr>squeue := squeue s - 1\<rparr>)"
| dec_cancelled: "i < length (pcs s) \<Longrightarrow> pcs s ! i = Cancelled \<Longrightarrow>
    spawn_step early s ((goto i Returned s)\<lparr>squeue := squeue s - 1\<rparr>)"
| release: "i < length (pcs s) \<Longrightarrow> pcs s ! i = Running \<Longrightarrow> sem_Release (ssem s) = (Inr (), sm) \<Longrightarrow>
    spawn_step early s ((goto i Returned s)\<lparr>ssem := sm\<rparr>)"

inductive spawns_reachable :: "bool \<Rightarrow> nat \<Rightarrow> spawns \<Rightarrow> bool" for early :: bool and n :: nat where
  start: "spawns_reachable early n (spawns_init n)"
| step: "spawns_reachable early n s \<Longrightarrow> spawn_step early s s' \<Longrightarrow> spawns_reachable early n s'"

inductive_cases spawn_stepE: "spawn_step early s s'"

section \<open>The invariant\<close>

definition spawns_at :: "spawn_pc set \<Rightarrow> spawns \<Rightarrow> nat" where
  "spawns_at P s = length (filter (\<lambda>x. x \<in> P) (pcs s))"

abbreviation "waiting \<equiv> {Passed, Acquired, Cancelled}"
abbreviation "holding \<equiv> {Acquired, Running}"

definition spawns_ok :: "spawns \<Rightarrow> bool" where
  "spawns_ok s \<longleftrightarrow> sem_ok (ssem s) \<and> smHeld (ssem s) = spawns_at holding s \<and>
     squeue s = int (spawns_at {Counted, Refused} s + spawns_at waiting s + abandoned s) \<and>
     spawns_at waiting s + abandoned s \<le> 10"

lemma filter_update:
  "i < length xs \<Longrightarrow>
   length (filter P (xs[i := x])) + (if P (xs ! i) then 1 else 0) = length (filter P xs) + (if P x then 1 else 0)"
proof (induction xs arbitrary: i)
  case (Cons a xs)
  show ?case
  proof (cases i)
    case (Suc j)
    with Cons.prems Cons.IH [of j] show ?thesis by simp
  qed simp
qed simp

lemma at_goto:
  assumes "i < length (pcs s)"
  shows "spawns_at P (goto i x s) + (if pcs s ! i \<in> P then 1 else 0) = spawns_at P s + (if x \<in> P then 1 else 0)"
  using filter_update [OF assms, where P = "\<lambda>x. x \<in> P" and x = x] by (simp add: spawns_at_def goto_def)

lemma at_update [simp]:
  "spawns_at P (s\<lparr>squeue := q\<rparr>) = spawns_at P s" "spawns_at P (s\<lparr>ssem := m\<rparr>) = spawns_at P s" "spawns_at P (s\<lparr>abandoned := a\<rparr>) = spawns_at P s"
  by (simp_all add: spawns_at_def)

lemma goto_fields [simp]:
  "squeue (goto i x s) = squeue s" "ssem (goto i x s) = ssem s" "abandoned (goto i x s) = abandoned s"
  by (simp_all add: goto_def)

lemma spawns_ok_init: "0 < n \<Longrightarrow> spawns_ok (spawns_init n)"
  by (simp add: spawns_ok_def spawns_init_def sem_ok_def spawns_at_def)

lemma at_append: "spawns_at P (s\<lparr>pcs := pcs s @ [x]\<rparr>) = spawns_at P s + (if x \<in> P then 1 else 0)"
  by (simp add: spawns_at_def)

lemma at_pos: "i < length (pcs s) \<Longrightarrow> pcs s ! i \<in> P \<Longrightarrow> 0 < spawns_at P s"
  by (metis spawns_at_def filter_empty_conv length_greater_0_conv nth_mem)

lemma ok_goto:
  assumes "i < length (pcs s)" "spawns_ok s"
  shows "spawns_at holding (goto i x s) + (if pcs s ! i \<in> holding then 1 else 0) = smHeld (ssem s) + (if x \<in> holding then 1 else 0)"
    "int (spawns_at {Counted, Refused} (goto i x s) + spawns_at waiting (goto i x s) + abandoned s) +
       (if pcs s ! i \<in> {Counted, Refused} \<union> waiting then 1 else 0) =
     squeue s + (if x \<in> {Counted, Refused} \<union> waiting then 1 else 0)"
    "spawns_at waiting (goto i x s) + (if pcs s ! i \<in> waiting then 1 else 0) = spawns_at waiting s + (if x \<in> waiting then 1 else 0)"
  using at_goto [OF assms(1), of holding x] at_goto [OF assms(1), of waiting x]
    at_goto [OF assms(1), of "{Counted, Refused}" x] assms(2)
  by (cases "pcs s ! i"; cases x; simp add: spawns_ok_def)+

lemma sem_Acquire_fields:
  "sem_Acquire d p s = (Inr (), s') \<Longrightarrow> smHeld s' = Suc (smHeld s)"
  "sem_Acquire d p s = (Inl e, s') \<Longrightarrow> s' = s"
  "sem_Release s = (Inr (), s') \<Longrightarrow> smHeld s = Suc (smHeld s')"
  by (auto simp: sem_Acquire_def sem_Release_def split: if_splits)

lemma spawn_step_ok:
  assumes "spawn_step early s s'" "spawns_ok s"
  shows "spawns_ok s'"
  using assms(1)
proof cases
  case inc
  then show ?thesis using assms(2) by (simp add: spawns_ok_def at_append)
next
  case (refuse i)
  then show ?thesis using assms(2) ok_goto [OF refuse(2) assms(2), where x = Refused] by (simp add: spawns_ok_def)
next
  case (refused i)
  then show ?thesis using assms(2) ok_goto [OF refused(2) assms(2), where x = Returned] by (simp add: spawns_ok_def)
next
  case (pass i)
  then show ?thesis using assms(2) ok_goto [OF pass(2) assms(2), where x = Passed] by (simp add: spawns_ok_def)
next
  case (abandon i)
  then show ?thesis using assms(2) ok_goto [OF abandon(2) assms(2), where x = Returned] by (simp add: spawns_ok_def)
next
  case (acquire i d p sm)
  then show ?thesis using assms(2) ok_goto [OF acquire(2) assms(2), where x = Acquired] sem_Acquire_ok [OF acquire(4)] sem_Acquire_fields(1) [OF acquire(4)] by (simp add: spawns_ok_def)
next
  case (cancel i d p sm)
  then show ?thesis using assms(2) ok_goto [OF cancel(2) assms(2), where x = Cancelled] sem_Acquire_fields(2) [OF cancel(4)] by (simp add: spawns_ok_def)
next
  case (dec_acquired i)
  then show ?thesis using assms(2) ok_goto [OF dec_acquired(2) assms(2), where x = Running] by (simp add: spawns_ok_def)
next
  case (dec_cancelled i)
  then show ?thesis using assms(2) ok_goto [OF dec_cancelled(2) assms(2), where x = Returned] by (simp add: spawns_ok_def)
next
  case (release i sm)
  then show ?thesis using assms(2) ok_goto [OF release(2) assms(2), where x = Returned] sem_Release_ok [OF release(4)] sem_Acquire_fields(3) [OF release(4)] by (simp add: spawns_ok_def)
qed

lemma spawns_reachable_ok: "spawns_reachable early n s \<Longrightarrow> 0 < n \<Longrightarrow> spawns_ok s"
  by (induction rule: spawns_reachable.induct) (auto intro: spawns_ok_init spawn_step_ok)

section \<open>Progress\<close>

text \<open>How many steps a goroutine still has to make at most; the gate is left by all when none is left.\<close>

fun togo :: "spawn_pc \<Rightarrow> nat" where
  "togo Counted = 4" | "togo Refused = 1" | "togo Passed = 3" | "togo Acquired = 2" | "togo Cancelled = 1"
| "togo Running = 1" | "togo Returned = 0"

definition work :: "spawns \<Rightarrow> nat" where
  "work s = sum_list (map togo (pcs s))"

lemma sum_list_update_less:
  "i < length xs \<Longrightarrow> f x < f (xs ! i) \<Longrightarrow> sum_list (map f (xs[i := x])) < (sum_list (map f xs) :: nat)"
proof (induction xs arbitrary: i)
  case (Cons a xs)
  show ?case
  proof (cases i)
    case (Suc j)
    with Cons.prems Cons.IH [of j] show ?thesis by simp
  qed (use Cons.prems in simp)
qed simp

lemma work_goto: "i < length (pcs s) \<Longrightarrow> togo x < togo (pcs s ! i) \<Longrightarrow> work (goto i x s) < work s"
  by (simp add: work_def goto_def sum_list_update_less)

lemma work_update [simp]:
  "work (s\<lparr>squeue := q\<rparr>) = work s" "work (s\<lparr>ssem := m\<rparr>) = work s" "work (s\<lparr>abandoned := a\<rparr>) = work s"
  by (simp_all add: work_def)

lemma at_witness: "0 < spawns_at P s \<Longrightarrow> \<exists>i < length (pcs s). pcs s ! i \<in> P"
  by (metis spawns_at_def filter_False in_set_conv_nth length_0_conv less_not_refl)

lemma release_progress:
  assumes "spawns_ok s" "i < length (pcs s)" "pcs s ! i = Running"
  shows "\<exists>s'. spawn_step early s s' \<and> work s' < work s"
proof -
  have "0 < smHeld (ssem s)" using assms at_pos [of i s holding] by (simp add: spawns_ok_def)
  then have "sem_Release (ssem s) = (Inr (), (ssem s)\<lparr>smHeld := smHeld (ssem s) - 1\<rparr>)" by (simp add: sem_Release_def)
  from spawn_step.release [OF assms(2,3) this] show ?thesis
    using work_goto [OF assms(2), of Returned] assms(3) by (metis togo.simps work_update(2) zero_less_one)
qed

lemma acquired_progress:
  assumes "i < length (pcs s)" "pcs s ! i = Acquired"
  shows "\<exists>s'. spawn_step early s s' \<and> work s' < work s"
  using spawn_step.dec_acquired [OF assms] work_goto [OF assms(1), of Running] assms(2)
  by (metis one_less_numeral_iff semiring_norm(76) togo.simps(4,6) work_update(1))

lemma passed_progress:
  assumes "spawns_ok s" "i < length (pcs s)" "pcs s ! i = Passed"
  shows "\<exists>s'. spawn_step early s s' \<and> work s' < work s"
proof (cases "smHeld (ssem s) < smCap (ssem s)")
  case True
  then have "sem_Acquire False False (ssem s) = (Inr (), (ssem s)\<lparr>smHeld := Suc (smHeld (ssem s))\<rparr>)"
    by (simp add: sem_Acquire_def)
  from spawn_step.acquire [OF assms(2,3) this] show ?thesis
    using work_goto [OF assms(2), of Acquired] assms(3) by (metis lessI numeral_3_eq_3 numeral_2_eq_2 togo.simps(3,4) work_update(2))
next
  case False
  then have "0 < spawns_at holding s" using assms(1) by (auto simp: spawns_ok_def sem_ok_def)
  from at_witness [OF this] obtain j where "j < length (pcs s)" "pcs s ! j \<in> holding" by blast
  then show ?thesis using acquired_progress [of j s] release_progress [OF assms(1), of j] by blast
qed

lemma spawn_progress:
  assumes ok: "spawns_ok s" and i: "i < length (pcs s)" and live: "pcs s ! i \<noteq> Returned"
  shows "\<exists>s'. spawn_step early s s' \<and> work s' < work s"
proof (cases "pcs s ! i")
  case Counted
  show ?thesis
  proof (cases "squeue s > 10")
    case True
    then show ?thesis using spawn_step.refuse [OF i Counted] work_goto [OF i, of Refused] Counted by auto
  next
    case False
    then show ?thesis using spawn_step.pass [OF i Counted] work_goto [OF i, of Passed] Counted by auto
  qed
next
  case Refused
  show ?thesis by (rule exI, rule conjI, rule spawn_step.refused [OF i Refused]) (use work_goto [OF i, of Returned] Refused in simp)
next
  case Cancelled
  show ?thesis
    by (rule exI, rule conjI, rule spawn_step.dec_cancelled [OF i Cancelled]) (use work_goto [OF i, of Returned] Cancelled in simp)
qed (use live passed_progress [OF ok i] acquired_progress [OF i] release_progress [OF ok i] in auto)

definition all_returned :: "spawns \<Rightarrow> bool" where
  "all_returned s \<longleftrightarrow> list_all (\<lambda>x. x = Returned) (pcs s)"

lemma spawns_drain: "spawns_ok s \<Longrightarrow> \<exists>s'. (spawn_step early)\<^sup>*\<^sup>* s s' \<and> all_returned s'"
proof (induction "work s" arbitrary: s rule: less_induct)
  case less
  show ?case
  proof (cases "all_returned s")
    case False
    then obtain i where "i < length (pcs s)" "pcs s ! i \<noteq> Returned"
      by (auto simp: all_returned_def list_all_length)
    from spawn_progress [OF less.prems this] obtain t where t: "spawn_step early s t" "work t < work s" by blast
    from less.hyps [OF t(2) spawn_step_ok [OF t(1) less.prems]] show ?thesis
      using t(1) by (meson converse_rtranclp_into_rtranclp)
  qed blast
qed

lemma returned_at: "all_returned s \<Longrightarrow> Returned \<notin> P \<Longrightarrow> spawns_at P s = 0"
  by (auto simp: all_returned_def spawns_at_def list_all_iff filter_empty_conv)

lemma abandoned_step: "spawn_step early s s' \<Longrightarrow> \<not> early \<Longrightarrow> abandoned s' = abandoned s"
  by (erule spawn_step.cases) simp_all

lemma abandoned_none: "spawns_reachable False n s \<Longrightarrow> abandoned s = 0"
  by (induction rule: spawns_reachable.induct) (auto simp: spawns_init_def dest: abandoned_step)

section \<open>A gate that stays shut\<close>

lemma shut_step:
  assumes "spawn_step early s s'" "spawns_ok s" "abandoned s = 10"
  shows "abandoned s' = 10"
  using assms(1)
proof cases
  case (abandon i)
  then have "0 < spawns_at waiting s" using at_pos [of i s waiting] by simp
  then show ?thesis using assms(2,3) by (simp add: spawns_ok_def)
qed (use assms(3) in simp_all)

lemma shut_steps:
  "(spawn_step early)\<^sup>*\<^sup>* s s' \<Longrightarrow> spawns_ok s \<Longrightarrow> abandoned s = 10 \<Longrightarrow> spawns_ok s' \<and> abandoned s' = 10"
  by (induction rule: rtranclp_induct) (auto intro: spawn_step_ok shut_step)

text \<open>A spawn that counts itself, passes the check and returns early, one after the other.\<close>

definition abandon_run :: "nat \<Rightarrow> nat \<Rightarrow> spawns" where
  "abandon_run n k = \<lparr>pcs = replicate k Returned, squeue = int k, ssem = \<lparr>smCap = n, smHeld = 0\<rparr>, abandoned = k\<rparr>"

lemma abandon_run_step:
  assumes "k < 10"
  shows "(spawn_step True)\<^sup>*\<^sup>* (abandon_run n k) (abandon_run n (Suc k))"
proof -
  let ?s = "abandon_run n k"
  let ?a = "?s\<lparr>pcs := pcs ?s @ [Counted], squeue := squeue ?s + 1\<rparr>"
  let ?b = "goto k Passed ?a"
  have 1: "spawn_step True ?s ?a" by (rule spawn_step.inc)
  have 2: "spawn_step True ?a ?b" by (rule spawn_step.pass) (use assms in \<open>simp_all add: abandon_run_def nth_append\<close>)
  have 3: "spawn_step True ?b ((goto k Returned ?b)\<lparr>abandoned := Suc (abandoned ?b)\<rparr>)"
    by (rule spawn_step.abandon) (simp_all add: abandon_run_def goto_def nth_append)
  have 4: "(goto k Returned ?b)\<lparr>abandoned := Suc (abandoned ?b)\<rparr> = abandon_run n (Suc k)"
    by (simp add: abandon_run_def goto_def list_update_append replicate_append_same)
  from 1 2 3 show ?thesis unfolding 4 by (meson rtranclp.rtrancl_into_rtrancl rtranclp.rtrancl_refl)
qed

lemma abandon_run_ten: "k \<le> 10 \<Longrightarrow> (spawn_step True)\<^sup>*\<^sup>* (spawns_init n) (abandon_run n k)"
proof (induction k)
  case 0
  then show ?case by (simp add: abandon_run_def spawns_init_def)
next
  case (Suc k)
  then show ?case using abandon_run_step [of k n] by (meson Suc_le_lessD less_imp_le rtranclp_trans)
qed

lemma reachable_steps: "(spawn_step early)\<^sup>*\<^sup>* s s' \<Longrightarrow> spawns_reachable early n s \<Longrightarrow> spawns_reachable early n s'"
  by (induction rule: rtranclp_induct) (auto intro: spawns_reachable.step)

section \<open>What a computation leaves alone\<close>

text \<open>\<open>leaves f m\<close>: \<open>m\<close> does not change the part \<open>f\<close> of its state.\<close>

named_theorems leaves_rules \<open>computations that leave a part of the state alone\<close>

definition leaves :: "('s \<Rightarrow> 'v) \<Rightarrow> (gerr, 's, 'a) rd \<Rightarrow> bool" where
  "leaves f m \<longleftrightarrow> (\<forall>s. f (snd (m s)) = f s)"

lemma leavesD: "leaves f m \<Longrightarrow> m s = (r, s') \<Longrightarrow> f s' = f s"
  by (metis leaves_def snd_conv)

lemma leaves_return [leaves_rules]: "leaves f (rd_return x)"
  by (simp add: leaves_def rd_return_def)

lemma leaves_fail [leaves_rules]: "leaves f (rd_fail e)"
  by (simp add: leaves_def rd_fail_def)

lemma leaves_gets [leaves_rules]: "leaves f (gets g)"
  by (simp add: leaves_def gets_def)

lemma leaves_modify [leaves_rules]: "(\<And>s. f (g s) = f s) \<Longrightarrow> leaves f (modify g)"
  by (simp add: leaves_def modify_def)

lemma leaves_bind [leaves_rules]: "leaves f m \<Longrightarrow> (\<And>x. leaves f (k x)) \<Longrightarrow> leaves f (rd_bind m k)"
  unfolding leaves_def rd_bind_def by (auto split: prod.splits sum.splits) (metis snd_conv)+

lemma leaves_attempt [leaves_rules]: "leaves f m \<Longrightarrow> leaves f (attempt m)"
  unfolding leaves_def attempt_def by (auto split: prod.splits sum.splits) (metis snd_conv)+

lemma leaves_logged [leaves_rules]: "leaves f m \<Longrightarrow> leaves f (logged m)"
  unfolding logged_def by (intro leaves_rules)

lemma leaves_call [leaves_rules]: "(\<And>s h. f (s\<lparr>hist := h\<rparr>) = f s) \<Longrightarrow> leaves f (call ans e)"
  unfolding leaves_def call_def by (simp split: sum.splits)

lemma leaves_each [leaves_rules]: "(\<And>x. leaves f (g x)) \<Longrightarrow> leaves f (each g xs)"
  by (induction xs) (auto intro!: leaves_rules)

lemma leaves_if [leaves_rules]: "leaves f m \<Longrightarrow> leaves f n \<Longrightarrow> leaves f (if c then m else n)"
  by simp

lemma leaves_sum [leaves_rules]:
  "(\<And>e. leaves f (m e)) \<Longrightarrow> (\<And>x. leaves f (n x)) \<Longrightarrow> leaves f (case r of Inl e \<Rightarrow> m e | Inr x \<Rightarrow> n x)"
  by (cases r) auto

lemma leaves_option [leaves_rules]:
  "leaves f m \<Longrightarrow> (\<And>x. leaves f (n x)) \<Longrightarrow> leaves f (case r of None \<Rightarrow> m | Some x \<Rightarrow> n x)"
  by (cases r) auto

section \<open>A spawn gives back what it took\<close>

text \<open>
  The gate inside the state of a box, by how it is read and replaced, and the way of a spawn through
  it: acquiring, the body, and the release that is deferred.
\<close>

definition on_part ::
  "('s \<Rightarrow> gate) \<Rightarrow> (gate \<Rightarrow> 's \<Rightarrow> 's) \<Rightarrow> (gate \<Rightarrow> (gerr + 'a) \<times> gate) \<Rightarrow> (gerr, 's, 'a) rd" where
  "on_part get put' f s = (case f (get s) of (r, g) \<Rightarrow> (r, put' g s))"

definition through ::
  "('s \<Rightarrow> gate) \<Rightarrow> (gate \<Rightarrow> 's \<Rightarrow> 's) \<Rightarrow> bool \<Rightarrow> bool \<Rightarrow> (gerr, 's, 'a) rd \<Rightarrow> (gerr, 's, 'a) rd" where
  "through get put' ctxDone pick body =
     rd_bind (on_part get put' (gate_acquire ctxDone pick)) (\<lambda>_.
     rd_bind (attempt body) (\<lambda>r.
     rd_bind (on_part get put' gate_release) (\<lambda>_.
     case r of Inl e \<Rightarrow> rd_fail e | Inr x \<Rightarrow> rd_return x)))"

lemma acquire_releases:
  assumes "gate_acquire d p g = (Inr (), g1)"
  shows "gate_release g1 = (Inr (), g\<lparr>gQueue := gQueue g - 1\<rparr>)"
  using assms by (auto simp: gate_acquire_def gate_release_def sem_Acquire_def sem_Release_def split: if_splits)

locale gated =
  fixes get :: "'s \<Rightarrow> gate" and put' :: "gate \<Rightarrow> 's \<Rightarrow> 's"
  assumes get_put: "get (put' g s) = g"
begin

lemma through_gate:
  assumes body: "leaves get body" and run: "through get put' d p body s = (r, s')" and ok: "\<forall>e. r = Inl e \<longrightarrow> \<not> fatal e"
  shows "get s' = (get s)\<lparr>gQueue := gQueue (get s) - 1\<rparr>"
proof -
  obtain a g1 where a: "gate_acquire d p (get s) = (a, g1)" by force
  show ?thesis
  proof (cases a)
    case (Inl e)
    then have "r = Inl e" "s' = put' g1 s" using run a by (simp_all add: through_def rd_bind_def on_part_def)
    then show ?thesis using a ok Inl
      by (auto simp: gate_acquire_def get_put sem_Acquire_def split: if_splits)
  next
    case (Inr u)
    obtain q s2 where q: "attempt body (put' g1 s) = (q, s2)" by force
    have s2: "get s2 = g1" using leavesD [OF leaves_attempt [OF body] q] by (simp add: get_put)
    have rel: "gate_release g1 = (Inr (), (get s)\<lparr>gQueue := gQueue (get s) - 1\<rparr>)"
      using acquire_releases a Inr by simp
    show ?thesis
    proof (cases q)
      case (Inl e)
      then have "r = Inl e" using run a Inr q by (simp add: through_def rd_bind_def on_part_def)
      moreover have "fatal e" using q Inl by (auto simp: attempt_def split: prod.splits sum.splits if_splits)
      ultimately show ?thesis using ok by simp
    next
      case (Inr x)
      then show ?thesis using run a \<open>a = Inr u\<close> q s2 rel
        by (auto simp: through_def rd_bind_def on_part_def get_put rd_fail_def rd_return_def split: sum.splits)
    qed
  qed
qed

lemma enter_through_gate:
  assumes "leaves get body" "rd_bind (on_part get put' gate_enter) (\<lambda>_. through get put' d p body) s = (r, s')"
    "\<forall>e. r = Inl e \<longrightarrow> \<not> fatal e"
  shows "get s' = get s"
proof (cases "gQueue (get s) + 1 > 10")
  case True
  then show ?thesis using assms(2) by (auto simp: rd_bind_def on_part_def gate_enter_def Let_def get_put)
next
  case False
  let ?s = "put' ((get s)\<lparr>gQueue := gQueue (get s) + 1\<rparr>) s"
  have "through get put' d p body ?s = (r, s')"
    using assms(2) False by (simp add: rd_bind_def on_part_def gate_enter_def Let_def)
  from through_gate [OF assms(1) this assms(3)] show ?thesis by (simp add: get_put)
qed

end

section \<open>Which calls a computation makes\<close>

text \<open>\<open>calls P m\<close>: every call \<open>m\<close> makes satisfies \<open>P\<close>.\<close>

named_theorems calls_rules \<open>the calls a computation makes\<close>

definition calls :: "('e \<Rightarrow> bool) \<Rightarrow> (gerr, ('e, 'z) world_scheme, 'a) rd \<Rightarrow> bool" where
  "calls P m \<longleftrightarrow> (\<forall>s. \<exists>es. hist (snd (m s)) = hist s @ es \<and> list_all (\<lambda>(e, _). P e) es)"

lemma callsD: "calls P m \<Longrightarrow> m s = (r, s') \<Longrightarrow> \<exists>es. hist s' = hist s @ es \<and> list_all (\<lambda>(e, _). P e) es"
  by (metis calls_def snd_conv)

lemma calls_leaves: "leaves hist m \<Longrightarrow> calls P m"
  by (simp add: calls_def leaves_def)

lemma calls_silent [calls_rules]:
  "calls P (rd_return x)" "calls P (rd_fail e)" "calls P (gets g)"
  by (auto intro!: calls_leaves leaves_rules)

lemma calls_modify [calls_rules]: "(\<And>s. hist (g s) = hist s) \<Longrightarrow> calls P (modify g)"
  by (auto intro!: calls_leaves leaves_rules)

lemma calls_call [calls_rules]: "P e \<Longrightarrow> calls P (call ans e)"
  by (auto simp: calls_def call_def split: sum.splits)

lemma calls_bind [calls_rules]:
  assumes "calls P m" "\<And>x. calls P (k x)"
  shows "calls P (rd_bind m k)"
  unfolding calls_def
proof
  fix s
  obtain r s1 where r: "m s = (r, s1)" by force
  from callsD [OF assms(1) r] obtain es where es: "hist s1 = hist s @ es" "list_all (\<lambda>(e, _). P e) es" by blast
  show "\<exists>es. hist (snd (rd_bind m k s)) = hist s @ es \<and> list_all (\<lambda>(e, _). P e) es"
  proof (cases r)
    case (Inl e)
    then show ?thesis using r es by (auto simp: rd_bind_def)
  next
    case (Inr x)
    obtain fs where "hist (snd (k x s1)) = hist s1 @ fs" "list_all (\<lambda>(e, _). P e) fs"
      using assms(2) [of x] unfolding calls_def by meson
    then show ?thesis using r es Inr by (intro exI [of _ "es @ fs"]) (simp add: rd_bind_def)
  qed
qed

lemma calls_attempt [calls_rules]:
  assumes "calls P m"
  shows "calls P (attempt m)"
proof -
  have "snd (attempt m s) = snd (m s)" for s by (auto simp: attempt_def split: prod.splits sum.splits)
  then show ?thesis using assms by (simp add: calls_def)
qed

lemma calls_logged [calls_rules]: "calls P m \<Longrightarrow> calls P (logged m)"
  unfolding logged_def by (intro calls_rules)

lemma calls_each [calls_rules]: "(\<And>x. x \<in> set xs \<Longrightarrow> calls P (g x)) \<Longrightarrow> calls P (each g xs)"
  by (induction xs) (auto intro!: calls_rules)

lemma calls_if [calls_rules]: "(c \<Longrightarrow> calls P m) \<Longrightarrow> (\<not> c \<Longrightarrow> calls P n) \<Longrightarrow> calls P (if c then m else n)"
  by simp

lemma calls_sum [calls_rules]:
  "(\<And>e. calls P (m e)) \<Longrightarrow> (\<And>x. calls P (n x)) \<Longrightarrow> calls P (case r of Inl e \<Rightarrow> m e | Inr x \<Rightarrow> n x)"
  by (cases r) auto

lemma calls_option [calls_rules]:
  "calls P m \<Longrightarrow> (\<And>x. calls P (n x)) \<Longrightarrow> calls P (case r of None \<Rightarrow> m | Some x \<Rightarrow> n x)"
  by (cases r) auto

lemma calls_weaken: "calls P m \<Longrightarrow> (\<And>e. P e \<Longrightarrow> Q e) \<Longrightarrow> calls Q m"
  unfolding calls_def list_all_iff by blast

lemma calls_on_part [calls_rules]: "(\<And>g s. hist (put' g s) = hist s) \<Longrightarrow> calls P (on_part get put' f)"
  by (rule calls_leaves) (simp add: leaves_def on_part_def split: prod.splits)

lemma calls_through [calls_rules]:
  "(\<And>g s. hist (put' g s) = hist s) \<Longrightarrow> calls P body \<Longrightarrow> calls P (through get put' d p body)"
  unfolding through_def by (intro calls_rules)

section \<open>Invariants of a computation\<close>

text \<open>\<open>preserves I m\<close>: \<open>m\<close> ends in a state with \<open>I\<close> when it starts in one.\<close>

named_theorems preserves_rules \<open>computations that preserve an invariant\<close>

definition preserves :: "('s \<Rightarrow> bool) \<Rightarrow> (gerr, 's, 'a) rd \<Rightarrow> bool" where
  "preserves I m \<longleftrightarrow> (\<forall>s. I s \<longrightarrow> I (snd (m s)))"

lemma preservesD: "preserves I m \<Longrightarrow> m s = (r, s') \<Longrightarrow> I s \<Longrightarrow> I s'"
  by (metis preserves_def snd_conv)

lemma preserves_silent [preserves_rules]:
  "preserves I (rd_return x)" "preserves I (rd_fail e)" "preserves I (gets g)"
  by (simp_all add: preserves_def rd_return_def rd_fail_def gets_def)

lemma preserves_modify [preserves_rules]: "(\<And>s. I s \<Longrightarrow> I (g s)) \<Longrightarrow> preserves I (modify g)"
  by (simp add: preserves_def modify_def)

lemma preserves_bind [preserves_rules]:
  assumes "preserves I m" "\<And>x. preserves I (k x)"
  shows "preserves I (rd_bind m k)"
  unfolding preserves_def
proof (intro allI impI)
  fix s assume "I s"
  obtain r s1 where r: "m s = (r, s1)" by force
  have "I s1" using preservesD [OF assms(1) r \<open>I s\<close>] .
  then show "I (snd (rd_bind m k s))"
    using assms(2) r by (cases r) (auto simp: rd_bind_def preserves_def)
qed

lemma preserves_attempt [preserves_rules]:
  assumes "preserves I m"
  shows "preserves I (attempt m)"
proof -
  have "snd (attempt m s) = snd (m s)" for s by (auto simp: attempt_def split: prod.splits sum.splits)
  then show ?thesis using assms by (simp add: preserves_def)
qed

lemma preserves_logged [preserves_rules]: "preserves I m \<Longrightarrow> preserves I (logged m)"
  unfolding logged_def by (intro preserves_rules)

lemma preserves_call [preserves_rules]: "(\<And>s h. I s \<Longrightarrow> I (s\<lparr>hist := h\<rparr>)) \<Longrightarrow> preserves I (call ans e)"
  by (simp add: preserves_def call_def split: sum.splits)

lemma preserves_each [preserves_rules]: "(\<And>x. x \<in> set xs \<Longrightarrow> preserves I (g x)) \<Longrightarrow> preserves I (each g xs)"
  by (induction xs) (auto intro!: preserves_rules)

lemma preserves_if [preserves_rules]:
  "(c \<Longrightarrow> preserves I m) \<Longrightarrow> (\<not> c \<Longrightarrow> preserves I n) \<Longrightarrow> preserves I (if c then m else n)"
  by simp

lemma preserves_sum [preserves_rules]:
  "(\<And>e. preserves I (m e)) \<Longrightarrow> (\<And>x. preserves I (n x)) \<Longrightarrow> preserves I (case r of Inl e \<Rightarrow> m e | Inr x \<Rightarrow> n x)"
  by (cases r) auto

lemma preserves_option [preserves_rules]:
  "preserves I m \<Longrightarrow> (\<And>x. preserves I (n x)) \<Longrightarrow> preserves I (case r of None \<Rightarrow> m | Some x \<Rightarrow> n x)"
  by (cases r) auto

lemma preserves_on_part [preserves_rules]: "(\<And>g s. I s \<Longrightarrow> I (put' g s)) \<Longrightarrow> preserves I (on_part get put' f)"
  by (simp add: preserves_def on_part_def split: prod.splits)

lemma preserves_through [preserves_rules]:
  "(\<And>g s. I s \<Longrightarrow> I (put' g s)) \<Longrightarrow> preserves I body \<Longrightarrow> preserves I (through get put' d p body)"
  unfolding through_def by (intro preserves_rules)

end
