(* ===== verification/Docker_Box.thy ===== *)
theory Docker_Box
  imports Admission Docker_Codec
begin

text \<open>
  The docker box (\<^verbatim>\<open>box.go\<close>, \<^verbatim>\<open>container.go\<close> and \<^verbatim>\<open>profile.go\<close> under \<^verbatim>\<open>src/isolate/docker\<close>): pulling an image,
  spawning and removing containers, the events of the docker daemon and the output of a container.
  The docker daemon is a parameter that answers by the history of the calls made to it.
\<close>

section \<open>The environment\<close>

text \<open>What \<^verbatim>\<open>ContainerCreate\<close> is given: the parts of its two configurations the code sets.\<close>

record createOpts =
  coEnv :: "string list"
  coCmd :: "string list"
  coImage :: string
  coWorkingDir :: string
  coLabels :: strmap
  coNetworkMode :: string
  coBinds :: "string list"
  coMemory :: int
  coCPUShares :: int
  coCPUPeriod :: int
  coCPUQuota :: int
  coCpusetCpus :: string
  coCpusetMems :: string
  coTmpfs :: strmap

datatype devent =
    DCreate createOpts
  | DStart string
  | DKill string
  | DRemove string
  | DInspect string
  | DPull string string
  | DOutput string string

text \<open>The body of the answer to a pull: what can be read of it, and the error after it unless it just ends.\<close>

record pullBody =
  pbData :: string
  pbErr :: "derr option"

record denv =
  dacks :: "devent history \<Rightarrow> devent \<Rightarrow> derr + unit"
  dtexts :: "devent history \<Rightarrow> devent \<Rightarrow> derr + string"
  dpulls :: "devent history \<Rightarrow> devent \<Rightarrow> derr + pullBody"

section \<open>Processes (container.go)\<close>

record dprocess =
  dpID :: string
  dpRemoved :: bool
  dpCancelled :: bool
  dpUuid :: string

record dbox = "devent world" +
  dgate :: gate
  dauth :: strmap
  dcontainers :: "string \<rightharpoonup> nat"
  dprocs :: "dprocess list"

definition put_dgate :: "gate \<Rightarrow> dbox \<Rightarrow> dbox" where
  "put_dgate g b = b\<lparr>dgate := g\<rparr>"

definition dack :: "denv \<Rightarrow> devent \<Rightarrow> (gerr, dbox, unit) rd" where
  "dack env = call (dacks env)"

definition containerRemove :: "denv \<Rightarrow> string \<Rightarrow> (gerr, dbox, unit) rd" where
  "containerRemove env cid = logged (dack env (DRemove cid))"

text \<open>\<^verbatim>\<open>msgp.Number.Int\<close>: the bits as they are, whatever the type of the number.\<close>

definition Number_Int :: "Number \<Rightarrow> int \<times> bool" where
  "Number_Int n = (sint (bits n), ntyp n = IntType \<or> ntyp n = InvalidType)"

definition create_opts :: "range_order \<Rightarrow> DockerProfile \<Rightarrow> SpawnConfig \<Rightarrow> createOpts" where
  "create_opts ord profile config =
     (let image = (if Registry profile \<noteq> '''' then Registry profile @ ''/'' @ scName config else scName config);
          env = map (\<lambda>(k, v). k @ ''='' @ v) (pairs ord (scEnv config));
          endpoint = get_str (scArgs config) ''--endpoint'';
          binds = (Dir endpoint @ '':'' @ RuntimePath profile) # elems (Binds profile);
          args = (scArgs config)(''--endpoint'' \<mapsto> Join [RuntimePath profile, Base endpoint]);
          cmd = scExecutable config # concat (map (\<lambda>(k, v). [k, v]) (pairs ord args));
          res = PResources profile
      in \<lparr>coEnv = env, coCmd = cmd, coImage = image, coWorkingDir = Cwd profile,
          coLabels = [''cocaine-isolate'' \<mapsto> scName config], coNetworkMode = NetworkMode profile, coBinds = binds,
          coMemory = fst (Number_Int (Memory res)), coCPUShares = fst (Number_Int (CPUShares res)),
          coCPUPeriod = fst (Number_Int (CPUPeriod res)), coCPUQuota = fst (Number_Int (CPUQuota res)),
          coCpusetCpus = CpusetCpus res, coCpusetMems = CpusetMems res, coTmpfs = Tmpfs profile\<rparr>)"

definition docker_newContainer ::
  "denv \<Rightarrow> range_order \<Rightarrow> DockerProfile \<Rightarrow> SpawnConfig \<Rightarrow> (gerr, dbox, dprocess) rd" where
  "docker_newContainer env ord profile config =
     rd_bind (call (dtexts env) (DCreate (create_opts ord profile config))) (\<lambda>cid.
     rd_return \<lparr>dpID = cid, dpRemoved = False, dpCancelled = False, dpUuid = get_str (scArgs config) ''--uuid''\<rparr>)"

definition set_proc :: "nat \<Rightarrow> (dprocess \<Rightarrow> dprocess) \<Rightarrow> (gerr, dbox, unit) rd" where
  "set_proc i f = modify (\<lambda>b. b\<lparr>dprocs := (dprocs b)[i := f (dprocs b ! i)]\<rparr>)"

text \<open>The output is collected by a goroutine of its own.\<close>

definition startContainer :: "denv \<Rightarrow> nat \<Rightarrow> (gerr, dbox, unit) rd" where
  "startContainer env i =
     rd_bind (gets (\<lambda>b. dpID (dprocs b ! i))) (\<lambda>cid.
     rd_bind (attempt (dack env (DStart cid))) (\<lambda>r. case r of
       Inl e \<Rightarrow> rd_bind (set_proc i (\<lambda>p. p\<lparr>dpCancelled := True\<rparr>)) (\<lambda>_. rd_fail e)
     | Inr _ \<Rightarrow> logged (dack env (DOutput cid ''''))))"

text \<open>\<^verbatim>\<open>remove\<close>: the compare and swap lets one caller through.\<close>

definition remove :: "denv \<Rightarrow> nat \<Rightarrow> (gerr, dbox, unit) rd" where
  "remove env i =
     rd_bind (gets (\<lambda>b. dprocs b ! i)) (\<lambda>p.
     if dpRemoved p then rd_return ()
     else rd_bind (set_proc i (\<lambda>p. p\<lparr>dpRemoved := True\<rparr>)) (\<lambda>_. containerRemove env (dpID p)))"

definition docker_Kill :: "denv \<Rightarrow> nat \<Rightarrow> (gerr, dbox, gerr + unit) rd" where
  "docker_Kill env i =
     rd_bind (gets (\<lambda>b. dpID (dprocs b ! i))) (\<lambda>cid.
     rd_bind (attempt (dack env (DKill cid))) (\<lambda>r.
     rd_bind (remove env i) (\<lambda>_.
     rd_bind (set_proc i (\<lambda>p. p\<lparr>dpCancelled := True\<rparr>)) (\<lambda>_. rd_return r))))"

section \<open>The output of a container\<close>

text \<open>
  The stream of \<^verbatim>\<open>ContainerAttach\<close> as the buffered reader meets it: the pieces that arrive, one after
  the other.  \<^verbatim>\<open>Read\<close> takes from one piece only; \<^verbatim>\<open>io.CopyN\<close> takes from as many as it needs.
\<close>

definition read_piece :: "nat \<Rightarrow> bytes \<Rightarrow> bytes list \<Rightarrow> bytes \<times> bytes list" where
  "read_piece n s ss = (take n s, if length s \<le> n then ss else drop n s # ss)"

fun copy_n :: "nat \<Rightarrow> bytes list \<Rightarrow> bytes \<times> bytes list" where
  "copy_n n [] = ([], [])"
| "copy_n n (s # ss) =
     (if n < length s then (take n s, drop n s # ss)
      else case copy_n (n - length s) ss of (c, r) \<Rightarrow> (s @ c, r))"

lemma copy_n_size: "copy_n n ss = (c, r) \<Longrightarrow> length (concat r) + length r \<le> length (concat ss) + length ss"
proof (induction n ss arbitrary: c r rule: copy_n.induct)
  case (2 n s ss)
  obtain c' r' where c': "copy_n (n - length s) ss = (c', r')" by force
  show ?case
  proof (cases "n < length s")
    case False
    then show ?thesis using 2(1) [OF False c'] 2(2) c' by auto
  qed (use 2(2) in auto)
qed simp

text \<open>
  The loop of \<^verbatim>\<open>collectOutput\<close>, from the header read before to what is written.  A short read leaves
  the rest of the header as it was.
\<close>

function collect :: "bytes \<Rightarrow> bytes list \<Rightarrow> bytes" where
  "collect header [] = []"
| "collect header (s # ss) =
     (let (got, ss1) = read_piece 8 s ss;
          header1 = got @ drop (length got) header;
          size = unat (of_be32 (drop 4 header1));
          (payload, ss2) = copy_n size ss1
      in payload @ (if length payload < size then [] else collect header1 ss2))"
  by pat_completeness auto

lemma read_piece_size:
  "read_piece (Suc n) s ss = (got, r) \<Longrightarrow> length (concat r) + length r < length (concat (s # ss)) + length (s # ss)"
  by (auto simp: read_piece_def split: if_splits)

termination collect
proof (relation "measure (\<lambda>(h, ss). length (concat ss) + length ss)")
  fix header s ss x got ss1 header1 size y payload ss2
  assume "x = read_piece 8 s ss" "(got, ss1) = x" "y = copy_n size ss1" "(payload, ss2) = y"
  then have r: "read_piece (Suc 7) s ss = (got, ss1)" "copy_n size ss1 = (payload, ss2)" by simp_all
  show "((header1, ss2), header, s # ss) \<in> measure (\<lambda>(h, ss). length (concat ss) + length ss)"
    using read_piece_size [OF r(1)] copy_n_size [OF r(2)] by simp
qed simp

declare collect.simps [simp del]

definition collectOutput :: "bytes list \<Rightarrow> bytes" where
  "collectOutput ss = collect (replicate 8 0) ss"

section \<open>The box (box.go)\<close>

definition zero_Number :: Number where
  "zero_Number = \<lparr>bits = 0, ntyp = InvalidType\<rparr>"

definition default_profile :: DockerProfile where
  "default_profile = \<lparr>Registry = '''', Repository = '''', Endpoint = '''', NetworkMode = ''bridge'',
     RuntimePath = ''/var/run/cocaine'', Cwd = '''',
     PResources = \<lparr>Memory = zero_Number, CPUShares = zero_Number, CPUPeriod = zero_Number, CPUQuota = zero_Number,
       CpusetCpus = '''', CpusetMems = ''''\<rparr>, Tmpfs = Map.empty, Binds = nil_slice\<rparr>"

definition decodeProfile :: "('z) runtime_scheme \<Rightarrow> bytes option \<Rightarrow> gerr + DockerProfile" where
  "decodeProfile rt raw = decode_profile rt (DockerProfile_DecodeMsg default_profile) raw"

text \<open>
  \<^verbatim>\<open>NewBox\<close> on the decoded options: the client of the docker daemon, which may not be made, the
  concurrency and the credentials; \<open>queue\<close> is the global counter of the package.
\<close>

record dockerBoxConfig =
  dcSpawnConcurrency :: nat
  dcRegistryAuth :: strmap

definition docker_NewBox :: "derr + unit \<Rightarrow> int \<Rightarrow> devent history \<Rightarrow> dockerBoxConfig \<Rightarrow> gerr + dbox" where
  "docker_NewBox client queue h config = (case client of
      Inl e \<Rightarrow> Inl (Reported e)
    | Inr _ \<Rightarrow> (case sem_New (dcSpawnConcurrency config) of
         Inl e \<Rightarrow> Inl e
       | Inr sm \<Rightarrow> Inr \<lparr>hist = h, dgate = \<lparr>gSem = sm, gQueue = queue\<rparr>, dauth = dcRegistryAuth config,
           dcontainers = Map.empty, dprocs = []\<rparr>))"

text \<open>What \<^verbatim>\<open>Spawn\<close> does while it holds the semaphore.\<close>

definition docker_started :: "denv \<Rightarrow> dprocess \<Rightarrow> (gerr, dbox, nat) rd" where
  "docker_started env pr =
     rd_bind (gets (\<lambda>b. length (dprocs b))) (\<lambda>i.
     rd_bind (modify (\<lambda>b. b\<lparr>dprocs := dprocs b @ [pr], dcontainers := (dcontainers b)(dpID pr \<mapsto> i)\<rparr>)) (\<lambda>_.
     rd_bind (startContainer env i) (\<lambda>_. rd_return i)))"

definition docker_Spawn :: "denv \<Rightarrow> runtime \<Rightarrow> bool \<Rightarrow> bool \<Rightarrow> SpawnConfig \<Rightarrow> (gerr, dbox, nat) rd" where
  "docker_Spawn env rt ctxDone pick config = (case decodeProfile rt (scOpts config) of
      Inl e \<Rightarrow> rd_fail e
    | Inr profile \<Rightarrow>
        rd_bind (on_part dgate put_dgate gate_enter) (\<lambda>_.
        through dgate put_dgate ctxDone pick
          (rd_bind (docker_newContainer env (map_range rt) profile config) (docker_started env))))"

definition docker_Inspect :: "denv \<Rightarrow> runtime \<Rightarrow> string \<Rightarrow> (gerr, dbox, string) rd" where
  "docker_Inspect env rt workeruuid =
     rd_bind (gets (\<lambda>b. find (\<lambda>cid. case dcontainers b cid of
         None \<Rightarrow> False | Some i \<Rightarrow> dpUuid (dprocs b ! i) = workeruuid) (cnt_range rt (dcontainers b)))) (\<lambda>found.
     case found of
       None \<Rightarrow> rd_return ''{}''
     | Some cid \<Rightarrow> call (dtexts env) (DInspect cid))"

text \<open>
  An answer of docker to a pull is a sequence of JSON values.  \<open>items\<close> is what the JSON decoder makes
  of a line: the \<^verbatim>\<open>error\<close> fields of its values, and whether the line ends after them or is broken.
\<close>

type_synonym json_items = "string \<Rightarrow> string list \<times> derr option"

fun pull_items :: "string list \<Rightarrow> derr option \<Rightarrow> gerr option" where
  "pull_items [] bad = map_option Reported bad"
| "pull_items (e # es) bad = (if length e \<noteq> 0 then Some (Errorf e) else pull_items es bad)"

text \<open>
  The \<^verbatim>\<open>error\<close> field is the format of \<^verbatim>\<open>fmt.Errorf\<close>: \<open>Errorf\<close> holds that format string, not the text
  \<^verbatim>\<open>fmt\<close> makes of it, which differs when the field has a percent sign.
\<close>

definition decodePullLine :: "json_items \<Rightarrow> string \<Rightarrow> gerr option" where
  "decodePullLine items line = (case items line of (es, bad) \<Rightarrow> pull_items es bad)"

text \<open>\<^verbatim>\<open>ReadBytes\<close>: the line with its end, or what is left when there is none.\<close>

fun read_line :: "string \<Rightarrow> string \<times> string \<times> bool" where
  "read_line [] = ([], [], False)"
| "read_line (c # cs) = (if c = CHR 0x0A then ([c], cs, True)
     else case read_line cs of (l, r, ended) \<Rightarrow> (c # l, r, ended))"

lemma read_line_rest: "read_line s = (l, r, True) \<Longrightarrow> length r < length s"
  by (induction s arbitrary: l r) (auto split: if_splits prod.splits)

definition strip_newline :: "string \<Rightarrow> string" where
  "strip_newline line = (if last line = CHR 0x0A then butlast line else line)"

function decodeImagePull :: "json_items \<Rightarrow> derr option \<Rightarrow> string \<Rightarrow> gerr option" where
  "decodeImagePull items err body = (case read_line body of
      (line, r, ended) \<Rightarrow>
        if \<not> ended \<and> err \<noteq> None then map_option Reported err
        else if \<not> ended \<and> length line = 0 then None
        else if length line = 0 then Some (Errorf ''Empty response line'')
        else case decodePullLine items (strip_newline line) of
            Some e \<Rightarrow> Some e
          | None \<Rightarrow> if ended then decodeImagePull items err r else None)"
  by pat_completeness auto

termination decodeImagePull
  by (relation "measure (\<lambda>(items, err, body). length body)") (auto dest: read_line_rest [OF sym])

declare decodeImagePull.simps [simp del]

definition docker_Spool ::
  "denv \<Rightarrow> json_items \<Rightarrow> runtime \<Rightarrow> string \<Rightarrow> bytes option \<Rightarrow> (gerr, dbox, unit) rd" where
  "docker_Spool env items rt name opts = (case decodeProfile rt opts of
      Inl e \<Rightarrow> rd_fail e
    | Inr profile \<Rightarrow>
        if Registry profile = '''' then rd_return ()
        else
          rd_bind (gets (\<lambda>b. get_str (dauth b) (Registry profile))) (\<lambda>auth.
          rd_bind (call (dpulls env) (DPull (Join [Registry profile, Repository profile, name]) auth)) (\<lambda>body.
          case decodeImagePull items (pbErr body) (pbData body) of
            Some e \<Rightarrow> rd_fail e
          | None \<Rightarrow> rd_return ())))"

section \<open>The events of the docker daemon\<close>

text \<open>An event by the fields it has: the variable it is decoded into keeps the others.\<close>

record eventMsg =
  emStatus :: "string option"
  emID :: "string option"
  emTime :: "int option"

datatype listen = Listening "eventMsg list" | ListenCancelled | ListenErr derr

record watcher =
  since :: int
  sleep :: nat
  evStatus :: string
  evID :: string
  evTime :: int

definition decode_event :: "eventMsg \<Rightarrow> watcher \<Rightarrow> watcher" where
  "decode_event m w = w\<lparr>evStatus := (case emStatus m of None \<Rightarrow> evStatus w | Some s \<Rightarrow> s),
     evID := (case emID m of None \<Rightarrow> evID w | Some s \<Rightarrow> s),
     evTime := (case emTime m of None \<Rightarrow> evTime w | Some t \<Rightarrow> t)\<rparr>"

definition died :: "denv \<Rightarrow> string \<Rightarrow> (gerr, dbox, unit) rd" where
  "died env cid =
     rd_bind (gets (\<lambda>b. dcontainers b cid)) (\<lambda>tracked.
     rd_bind (modify (\<lambda>b. b\<lparr>dcontainers := (dcontainers b)(cid := None)\<rparr>)) (\<lambda>_.
     case tracked of Some i \<Rightarrow> remove env i | None \<Rightarrow> containerRemove env cid))"

fun watch_events :: "denv \<Rightarrow> eventMsg list \<Rightarrow> watcher \<Rightarrow> (gerr, dbox, watcher) rd" where
  "watch_events env [] w = rd_return w"
| "watch_events env (m # ms) w =
     (let w1 = decode_event m w; w2 = w1\<lparr>since := evTime w1\<rparr> in
      rd_bind (if evStatus w2 = ''die'' then died env (evID w2) else rd_return ()) (\<lambda>_.
      watch_events env ms w2))"

definition backoff :: "nat \<Rightarrow> nat" where
  "backoff n = (if n * 2 > 32 then 32 else n * 2)"

text \<open>\<open>ls\<close> is what the successive calls of \<^verbatim>\<open>Events\<close> give.\<close>

fun watchEvents :: "denv \<Rightarrow> listen list \<Rightarrow> watcher \<Rightarrow> (gerr, dbox, watcher) rd" where
  "watchEvents env [] w = rd_return w"
| "watchEvents env (Listening ms # ls) w = rd_bind (watch_events env ms (w\<lparr>sleep := 1\<rparr>)) (watchEvents env ls)"
| "watchEvents env (ListenCancelled # ls) w = rd_return w"
| "watchEvents env (ListenErr e # ls) w = watchEvents env ls (w\<lparr>sleep := backoff (sleep w)\<rparr>)"

section \<open>The output is what the container wrote\<close>

text \<open>A frame of docker's stream: the kind of the stream, three zero bytes, the size and the payload.\<close>

definition frame :: "byte \<Rightarrow> bytes \<Rightarrow> bytes" where
  "frame k payload = [k, 0, 0, 0] @ be32 (of_nat (length payload)) @ payload"

lemma frame_parts:
  "length (be32 v) = 4" "take 8 (frame k p) = [k, 0, 0, 0] @ be32 (of_nat (length p))" "drop 8 (frame k p) = p"
  "length (frame k p) = 8 + length p"
  by (simp_all add: frame_def be32_def)

text \<open>
  A stream of frames, the offsets where their headers begin, and the offsets where the pieces begin
  in which the stream arrives.  The pieces need not begin where the frames do: several frames may come
  in one piece and a payload in many.  What is asked of them is that no piece begins inside a header.
\<close>

definition frames :: "(byte \<times> bytes) list \<Rightarrow> bytes" where
  "frames fs = concat (map (\<lambda>(k, payload). frame k payload) fs)"

fun header_offsets :: "nat \<Rightarrow> (byte \<times> bytes) list \<Rightarrow> nat list" where
  "header_offsets off [] = []"
| "header_offsets off ((k, payload) # fs) = off # header_offsets (off + 8 + length payload) fs"

fun piece_offsets :: "nat \<Rightarrow> bytes list \<Rightarrow> nat list" where
  "piece_offsets off [] = []"
| "piece_offsets off (s # ss) = off # piece_offsets (off + length s) ss"

definition headers_whole :: "nat \<Rightarrow> (byte \<times> bytes) list \<Rightarrow> bytes list \<Rightarrow> bool" where
  "headers_whole off fs ss \<longleftrightarrow>
     list_all (\<lambda>h. list_all (\<lambda>c. \<not> (h < c \<and> c < h + 8)) (piece_offsets off ss)) (header_offsets off fs)"

lemma header_offsets_ge: "h \<in> set (header_offsets off fs) \<Longrightarrow> off \<le> h"
  by (induction off fs rule: header_offsets.induct) fastforce+

lemma copy_n_pieces:
  "[] \<notin> set ss \<Longrightarrow> copy_n n ss = (c, r) \<Longrightarrow> n \<le> length (concat ss) \<Longrightarrow>
   c = take n (concat ss) \<and> concat r = drop n (concat ss) \<and> [] \<notin> set r \<and>
   set (piece_offsets (off + n) r) \<subseteq> insert (off + n) (set (piece_offsets off ss))"
proof (induction n ss arbitrary: c r off rule: copy_n.induct)
  case (2 n s ss)
  show ?case
  proof (cases "n < length s")
    case True
    then show ?thesis using 2(2,3) by auto
  next
    case False
    obtain c' r' where c': "copy_n (n - length s) ss = (c', r')" by force
    have "n - length s \<le> length (concat ss)" "[] \<notin> set ss" using 2(2,4) by auto
    from 2(1) [OF False this(2) c' this(1), of "off + length s"] show ?thesis
      using False 2(3) c' by auto
  qed
qed auto

lemma read_piece_8:
  assumes "[] \<notin> set (s # ss)" "8 \<le> length s" "read_piece 8 s ss = (got, r)"
  shows "got = take 8 s \<and> concat r = drop 8 (concat (s # ss)) \<and> [] \<notin> set r \<and>
    set (piece_offsets (off + 8) r) \<subseteq> insert (off + 8) (set (piece_offsets off (s # ss)))"
  using assms by (auto simp: read_piece_def add.commute split: if_splits)

lemma headers_whole_first:
  assumes "headers_whole off ((k, p) # fs) ss" "[] \<notin> set ss" "concat ss = frames ((k, p) # fs)"
  shows "\<exists>s ss'. ss = s # ss' \<and> 8 \<le> length s"
proof (cases ss)
  case Nil
  then show ?thesis using assms(3) by (simp add: frames_def frame_def)
next
  case (Cons s ss')
  have "8 \<le> length s"
  proof (cases ss')
    case Nil
    then show ?thesis using assms(3) Cons by (simp add: frames_def frame_parts)
  next
    case (Cons t ts)
    then show ?thesis using assms(1,2) \<open>ss = s # ss'\<close> by (auto simp: headers_whole_def)
  qed
  then show ?thesis using Cons by blast
qed

lemma headers_whole_rest:
  assumes "headers_whole off ((k, p) # fs) ss"
    "set (piece_offsets (off + 8 + length p) r) \<subseteq> insert (off + 8 + length p) (insert (off + 8) (set (piece_offsets off ss)))"
  shows "headers_whole (off + 8 + length p) fs r"
  unfolding headers_whole_def list_all_iff
proof (intro ballI)
  fix h c assume h: "h \<in> set (header_offsets (off + 8 + length p) fs)" and c: "c \<in> set (piece_offsets (off + 8 + length p) r)"
  have "off + 8 + length p \<le> h" by (rule header_offsets_ge [OF h])
  moreover have "\<not> (h < x \<and> x < h + 8)" if "x \<in> set (piece_offsets off ss)" for x
    using assms(1) h that by (auto simp: headers_whole_def list_all_iff)
  ultimately show "\<not> (h < c \<and> c < h + 8)" using c assms(2) by fastforce
qed

lemma collect_frames:
  "length header = 8 \<Longrightarrow> list_all (\<lambda>(k, p). length p < 2 ^ 32) fs \<Longrightarrow> [] \<notin> set ss \<Longrightarrow>
   concat ss = frames fs \<Longrightarrow> headers_whole off fs ss \<Longrightarrow> collect header ss = concat (map snd fs)"
proof (induction fs arbitrary: header ss off)
  case Nil
  then have "ss = []" by (cases ss) (auto simp: frames_def)
  then show ?case by (simp add: collect.simps)
next
  case (Cons f fs)
  obtain k p where f: "f = (k, p)" by (cases f)
  from headers_whole_first [of off k p fs ss] Cons.prems(3-5) f obtain s ss' where ss: "ss = s # ss'" "8 \<le> length s" by blast
  obtain got r1 where r1: "read_piece 8 s ss' = (got, r1)" by force
  note 1 = read_piece_8 [OF Cons.prems(3) [unfolded ss(1)] ss(2) r1, of off]
  have st: "concat (s # ss') = frame k p @ frames fs" using Cons.prems(4) by (simp add: ss(1) f frames_def)
  have got: "got = [k, 0, 0, 0] @ be32 (of_nat (length p))"
    using 1 ss(2) arg_cong [OF st, of "take 8"] by (simp add: frame_parts)
  have "concat r1 = drop 8 (frame k p @ frames fs)" using 1 st by metis
  then have r1s: "concat r1 = p @ frames fs" by (simp add: frame_parts)
  obtain c r2 where r2: "copy_n (length p) r1 = (c, r2)" by force
  have "[] \<notin> set r1" using 1 by blast
  moreover have "length p \<le> length (concat r1)" by (simp add: r1s)
  ultimately have 2: "c = p" "concat r2 = frames fs" "[] \<notin> set r2"
    "set (piece_offsets (off + 8 + length p) r2) \<subseteq> insert (off + 8 + length p) (set (piece_offsets (off + 8) r1))"
    using copy_n_pieces [OF _ r2, of "off + 8"] r1s by simp_all
  have "headers_whole (off + 8 + length p) fs r2"
    by (rule headers_whole_rest [OF Cons.prems(5) [unfolded f]]) (use 1 2(4) ss(1) in blast)
  moreover have "length got = 8" using 1 ss(2) by simp
  moreover have "unat (of_be32 (drop 4 got)) = length p"
    unfolding got using Cons.prems(2) f of_be32_be32 [of "of_nat (length p)" "[]"]
    by (simp add: unat_of_nat take_bit_nat_eq_self)
  ultimately show ?case
    using Cons.IH [of got r2] Cons.prems(1,2) 2(1-3) r1 r2 ss(1) f
    by (simp add: collect.simps(2) Let_def)
qed

section \<open>The answer to a pull, line by line\<close>

text \<open>The lines of a text as an editor counts them: no empty line after the last end of line.\<close>

definition text_lines :: "string \<Rightarrow> string list" where
  "text_lines s = (let ls = split_on CHR 0x0A s in if last ls = '''' then butlast ls else ls)"

definition whole_lines :: "string \<Rightarrow> string list" where
  "whole_lines s = butlast (split_on CHR 0x0A s)"

fun first_error :: "gerr option list \<Rightarrow> gerr option" where
  "first_error [] = None"
| "first_error (Some e # es) = Some e"
| "first_error (None # es) = first_error es"

lemma split_on_Nil [simp]: "split_on c s \<noteq> []"
  by (induction s) (auto split: list.splits)

lemma read_line_split:
  "read_line s = (l, r, ended) \<Longrightarrow>
   (ended \<longrightarrow> l \<noteq> [] \<and> last l = CHR 0x0A \<and> split_on CHR 0x0A s = butlast l # split_on CHR 0x0A r) \<and>
   (\<not> ended \<longrightarrow> l = s \<and> split_on CHR 0x0A s = [s] \<and> CHR 0x0A \<notin> set s)"
proof (induction s arbitrary: l r ended)
  case (Cons c cs)
  obtain l1 r1 e1 where 1: "read_line cs = (l1, r1, e1)" by (cases "read_line cs") auto
  show ?case
  proof (cases "c = CHR 0x0A")
    case False
    then show ?thesis using Cons.prems Cons.IH [OF 1] 1 by (auto split: if_splits)
  qed (use Cons.prems in auto)
qed simp

lemma decodeImagePull_lines:
  "decodeImagePull items err body =
     (case first_error (map (decodePullLine items) (whole_lines body)) of
        Some e \<Rightarrow> Some e
      | None \<Rightarrow> if err \<noteq> None then map_option Reported err
          else if last (split_on CHR 0x0A body) = '''' then None
          else decodePullLine items (last (split_on CHR 0x0A body)))"
proof (induction items err body rule: decodeImagePull.induct)
  case (1 items err body)
  obtain line r ended where l: "read_line body = (line, r, ended)" by (cases "read_line body") auto
  show ?case
  proof (cases ended)
    case True
    with read_line_split [OF l] have s: "line \<noteq> []" "last line = CHR 0x0A"
      "split_on CHR 0x0A body = butlast line # split_on CHR 0x0A r" by auto
    have strip: "strip_newline line = butlast line" using s by (simp add: strip_newline_def)
    have w: "whole_lines body = butlast line # whole_lines r" by (simp add: whole_lines_def s(3))
    show ?thesis
    proof (cases "decodePullLine items (butlast line)")
      case None
      have e: "decodeImagePull items err body = decodeImagePull items err r"
        using l True s(1) None strip by (simp add: decodeImagePull.simps [of items err body])
      have IH: "decodeImagePull items err r =
          (case first_error (map (decodePullLine items) (whole_lines r)) of
             Some e \<Rightarrow> Some e
           | None \<Rightarrow> if err \<noteq> None then map_option Reported err
               else if last (split_on CHR 0x0A r) = '''' then None
               else decodePullLine items (last (split_on CHR 0x0A r)))"
        by (rule 1 [OF l [symmetric] refl]) (use True None s(1) strip in simp_all)
      have z: "last (split_on CHR 0x0A body) = last (split_on CHR 0x0A r)" by (simp add: s(3))
      have f: "first_error (map (decodePullLine items) (whole_lines body)) =
          first_error (map (decodePullLine items) (whole_lines r))" by (simp add: w None)
      show ?thesis unfolding e IH z f by (rule refl)
    next
      case (Some e)
      then show ?thesis using l True s(1) strip w by (simp add: decodeImagePull.simps [of items err body])
    qed
  next
    case False
    with read_line_split [OF l] have s: "line = body" "split_on CHR 0x0A body = [body]" "CHR 0x0A \<notin> set body" by auto
    have w: "whole_lines body = []" by (simp add: whole_lines_def s(2))
    have "strip_newline body = body" if "body \<noteq> []" using s(3) that by (metis last_in_set strip_newline_def)
    then show ?thesis using l False s w
      by (auto simp: decodeImagePull.simps [of items err body] split: option.splits)
  qed
qed

lemma first_error_append: "first_error (xs @ ys) = (case first_error xs of Some e \<Rightarrow> Some e | None \<Rightarrow> first_error ys)"
  by (induction xs rule: first_error.induct) auto

lemma decodeImagePull_text:
  "decodeImagePull items None body = first_error (map (decodePullLine items) (text_lines body))"
proof (cases "last (split_on CHR 0x0A body) = ''''")
  case True
  then show ?thesis by (simp add: decodeImagePull_lines text_lines_def whole_lines_def split: option.splits)
next
  case False
  let ?ls = "split_on CHR 0x0A body"
  have "map (decodePullLine items) ?ls = map (decodePullLine items) (butlast ?ls) @ [decodePullLine items (last ?ls)]"
    by (metis append_butlast_last_id list.simps(8,9) map_append split_on_Nil)
  then show ?thesis using False
    by (cases "decodePullLine items (last ?ls)")
      (simp_all add: decodeImagePull_lines text_lines_def whole_lines_def first_error_append split: option.splits)
qed

section \<open>The gate and the spawns\<close>

interpretation docker_gate: gated dgate put_dgate
  by unfold_locales (simp add: put_dgate_def)

lemma docker_body_gate: "leaves dgate (rd_bind (docker_newContainer env ord profile config) (docker_started env))"
  unfolding docker_newContainer_def docker_started_def startContainer_def set_proc_def dack_def
  by (intro leaves_rules) simp_all

lemma docker_Spawn_gate:
  assumes "docker_Spawn env rt d p config b = (r, b')" "\<forall>e. r = Inl e \<longrightarrow> \<not> fatal e"
  shows "dgate b' = dgate b"
proof (cases "decodeProfile rt (scOpts config)")
  case (Inl e)
  then show ?thesis using assms(1) by (simp add: docker_Spawn_def rd_fail_def)
next
  case (Inr profile)
  then show ?thesis using assms docker_gate.enter_through_gate [OF docker_body_gate _ assms(2)]
    by (simp add: docker_Spawn_def)
qed

section \<open>A container is removed once\<close>

text \<open>Operations on the containers of the box: a kill from the dispatcher, and the event of a death.\<close>

datatype dop = OpKill nat | OpDied string

fun run_op :: "denv \<Rightarrow> dop \<Rightarrow> (gerr, dbox, unit) rd" where
  "run_op env (OpKill i) = rd_bind (docker_Kill env i) (\<lambda>_. rd_return ())"
| "run_op env (OpDied cid) = died env cid"

definition docker_ok :: "dbox \<Rightarrow> bool" where
  "docker_ok b \<longleftrightarrow> distinct (map dpID (dprocs b)) \<and>
     (\<forall>c j. dcontainers b c = Some j \<longrightarrow> j < length (dprocs b) \<and> dpID (dprocs b ! j) = c)"

fun valid_op :: "dbox \<Rightarrow> dop \<Rightarrow> bool" where
  "valid_op b (OpKill i) \<longleftrightarrow> i < length (dprocs b)"
| "valid_op b (OpDied cid) \<longleftrightarrow> True"

definition removals :: "string \<Rightarrow> devent history \<Rightarrow> nat" where
  "removals cid es = length (filter (\<lambda>(e, _). e = DRemove cid) es)"

lemma removals_simps [simp]:
  "removals cid [] = 0" "removals cid (es @ fs) = removals cid es + removals cid fs"
  "removals cid [(e, ok)] = (if e = DRemove cid then 1 else 0)"
  by (simp_all add: removals_def)

text \<open>The state after a removal and after each operation.\<close>

definition removed_state :: "denv \<Rightarrow> nat \<Rightarrow> dbox \<Rightarrow> dbox" where
  "removed_state env i b = (if dpRemoved (dprocs b ! i) then b
     else b\<lparr>dprocs := (dprocs b)[i := (dprocs b ! i)\<lparr>dpRemoved := True\<rparr>],
       hist := hist b @ [(DRemove (dpID (dprocs b ! i)), \<not> isl (dacks env (hist b) (DRemove (dpID (dprocs b ! i)))))]\<rparr>)"

lemma remove_eval: "remove env i b = (Inr (), removed_state env i b)"
  by (simp add: remove_def removed_state_def rd_bind_def gets_def rd_return_def set_proc_def modify_def
      containerRemove_def dack_def logged_call)

lemma removed_state_simps:
  "dcontainers (removed_state env i b) = dcontainers b"
  "map dpID (dprocs (removed_state env i b)) = map dpID (dprocs b)"
  "length (dprocs (removed_state env i b)) = length (dprocs b)"
  "j \<noteq> i \<Longrightarrow> dprocs (removed_state env i b) ! j = dprocs b ! j"
  "i < length (dprocs b) \<Longrightarrow> dpRemoved (dprocs (removed_state env i b) ! i)"
proof -
  show "map dpID (dprocs (removed_state env i b)) = map dpID (dprocs b)"
    by (cases "i < length (dprocs b)") (simp_all add: removed_state_def map_update list_update_same_conv list_update_beyond)
qed (simp_all add: removed_state_def)

lemma removed_state_hist:
  "\<exists>es. hist (removed_state env i b) = hist b @ es \<and>
     removals cid es = (if \<not> dpRemoved (dprocs b ! i) \<and> dpID (dprocs b ! i) = cid then 1 else 0)"
  by (auto simp: removed_state_def)

lemma docker_ok_ids:
  assumes "docker_ok b" "map dpID (dprocs b') = map dpID (dprocs b)" "\<forall>c j. dcontainers b' c = Some j \<longrightarrow> dcontainers b c = Some j"
  shows "docker_ok b'"
proof -
  have len: "length (dprocs b') = length (dprocs b)" using assms(2) by (metis length_map)
  have id': "j < length (dprocs b) \<Longrightarrow> dpID (dprocs b' ! j) = dpID (dprocs b ! j)" for j
    using assms(2) len by (metis nth_map)
  show ?thesis unfolding docker_ok_def
  proof (intro conjI allI impI)
    show "distinct (map dpID (dprocs b'))" using assms(1,2) by (simp add: docker_ok_def)
    fix c j assume "dcontainers b' c = Some j"
    then have "j < length (dprocs b) \<and> dpID (dprocs b ! j) = c" using assms(1,3) by (auto simp: docker_ok_def)
    then show "j < length (dprocs b')" "dpID (dprocs b' ! j) = c" using len id' by auto
  qed
qed

lemma same_id: "docker_ok b \<Longrightarrow> i < length (dprocs b) \<Longrightarrow> j < length (dprocs b) \<Longrightarrow>
    dpID (dprocs b ! i) = dpID (dprocs b ! j) \<Longrightarrow> i = j"
  by (auto simp: docker_ok_def distinct_conv_nth)

lemma docker_NewBox_ok: "docker_NewBox client queue h config = Inr b \<Longrightarrow> docker_ok b \<and> sem_ok (gSem (dgate b))"
  by (auto simp: docker_NewBox_def docker_ok_def dest: sem_New_ok split: sum.splits)

text \<open>
  What one operation means for the container of process \<open>i\<close>: a kill and the first event of its death
  remove it unless it is removed, an event of its death when the box no longer knows it removes it again.
\<close>

definition op_post :: "nat \<Rightarrow> string \<Rightarrow> dop \<Rightarrow> dbox \<Rightarrow> dbox \<Rightarrow> bool" where
  "op_post i cid op b b' \<longleftrightarrow>
     (let known = dcontainers b cid = Some i; touched = (op = OpKill i \<or> op = OpDied cid \<and> known) in
     (\<exists>es. hist b' = hist b @ es \<and>
        removals cid es = (if op = OpDied cid \<and> \<not> known \<or> touched \<and> \<not> dpRemoved (dprocs b ! i) then 1 else 0)) \<and>
     map dpID (dprocs b') = map dpID (dprocs b) \<and> docker_ok b' \<and>
     dpRemoved (dprocs b' ! i) = (dpRemoved (dprocs b ! i) \<or> touched) \<and>
     (dcontainers b' cid = Some i \<longleftrightarrow> known \<and> op \<noteq> OpDied cid))"

lemma op_postI:
  assumes "hist b' = hist b @ es"
    "removals cid es = (if again \<or> touched \<and> \<not> dpRemoved (dprocs b ! i) then 1 else 0)"
    "map dpID (dprocs b') = map dpID (dprocs b)" "docker_ok b'"
    "dpRemoved (dprocs b' ! i) = (dpRemoved (dprocs b ! i) \<or> touched)"
    "dcontainers b' cid = Some i \<longleftrightarrow> dcontainers b cid = Some i \<and> op \<noteq> OpDied cid"
    "touched \<longleftrightarrow> op = OpKill i \<or> op = OpDied cid \<and> dcontainers b cid = Some i"
    "again \<longleftrightarrow> op = OpDied cid \<and> dcontainers b cid \<noteq> Some i"
  shows "op_post i cid op b b'"
  unfolding op_post_def Let_def assms(7,8) [symmetric] using assms(1-6) by blast

lemma kill_state:
  "run_op env (OpKill j) b = (Inr (), b') \<Longrightarrow>
   \<exists>ok. let b1 = removed_state env j (b\<lparr>hist := hist b @ [(DKill (dpID (dprocs b ! j)), ok)]\<rparr>)
     in b' = b1\<lparr>dprocs := (dprocs b1)[j := (dprocs b1 ! j)\<lparr>dpCancelled := True\<rparr>]\<rparr>"
  by (auto simp: docker_Kill_def rd_bind_def gets_def dack_def attempt_call remove_eval set_proc_def modify_def
      rd_return_def Let_def)

lemma op_kill:
  assumes ok: "docker_ok b" and i: "i < length (dprocs b)" "dpID (dprocs b ! i) = cid" and j: "j < length (dprocs b)"
    and run: "run_op env (OpKill j) b = (Inr (), b')"
  shows "op_post i cid (OpKill j) b b'"
proof -
  from kill_state [OF run] obtain k where k:
    "b' = (let b1 = removed_state env j (b\<lparr>hist := hist b @ [(DKill (dpID (dprocs b ! j)), k)]\<rparr>)
       in b1\<lparr>dprocs := (dprocs b1)[j := (dprocs b1 ! j)\<lparr>dpCancelled := True\<rparr>]\<rparr>)" unfolding Let_def by blast
  define b0 where b0: "b0 = b\<lparr>hist := hist b @ [(DKill (dpID (dprocs b ! j)), k)]\<rparr>"
  define b1 where b1: "b1 = removed_state env j b0"
  have b': "b' = b1\<lparr>dprocs := (dprocs b1)[j := (dprocs b1 ! j)\<lparr>dpCancelled := True\<rparr>]\<rparr>"
    using k by (simp add: Let_def b0 b1)
  from removed_state_hist [of env j b0 cid] b0 b1 obtain es where es: "hist b1 = hist b0 @ es"
    "removals cid es = (if \<not> dpRemoved (dprocs b ! j) \<and> dpID (dprocs b ! j) = cid then 1 else 0)" by auto
  have l1: "length (dprocs b1) = length (dprocs b)" by (simp add: b1 b0 removed_state_simps)
  have n1: "j \<noteq> i \<Longrightarrow> dprocs b1 ! i = dprocs b ! i" by (simp add: b1 b0 removed_state_simps)
  have r1: "dpRemoved (dprocs b1 ! j)" using j by (simp add: b1 b0 removed_state_simps)
  have "map dpID (dprocs b') = map dpID (dprocs b1)" using j l1 by (simp add: b' map_update list_update_same_conv)
  then have ids: "map dpID (dprocs b') = map dpID (dprocs b)" by (simp add: b1 b0 removed_state_simps)
  have "docker_ok b'" by (rule docker_ok_ids [OF ok ids]) (simp add: b' b1 b0 removed_state_simps)
  moreover have "dpRemoved (dprocs b' ! i) = (dpRemoved (dprocs b ! i) \<or> j = i)"
  proof (cases "j = i")
    case True
    then show ?thesis using r1 j l1 by (simp add: b')
  next
    case False
    then show ?thesis using n1 [OF False] by (simp add: b')
  qed
  moreover have "dcontainers b' = dcontainers b" by (simp add: b' b1 b0 removed_state_simps)
  moreover have "hist b' = hist b @ (DKill (dpID (dprocs b ! j)), k) # es" using es(1) by (simp add: b' b0)
  moreover have "removals cid ((DKill (dpID (dprocs b ! j)), k) # es) = (if j = i \<and> \<not> dpRemoved (dprocs b ! i) then 1 else 0)"
  proof -
    have eq: "dpID (dprocs b ! j) = cid \<longleftrightarrow> j = i" using same_id [OF ok j i(1)] i(2) by metis
    have "removals cid ((DKill (dpID (dprocs b ! j)), k) # es) = removals cid es" by (simp add: removals_def)
    then show ?thesis using es(2) unfolding eq by (cases "j = i") simp_all
  qed
  ultimately show ?thesis using ids by (intro op_postI [where touched = "j = i" and again = False]) simp_all
qed

lemma died_state:
  "run_op env (OpDied d) b = (Inr (), b') \<Longrightarrow>
   (\<exists>j. dcontainers b d = Some j \<and> b' = removed_state env j (b\<lparr>dcontainers := (dcontainers b)(d := None)\<rparr>)) \<or>
   (\<exists>ok. dcontainers b d = None \<and> b' = b\<lparr>dcontainers := (dcontainers b)(d := None), hist := hist b @ [(DRemove d, ok)]\<rparr>)"
  by (auto simp: died_def rd_bind_def gets_def modify_def remove_eval containerRemove_def dack_def logged_call
      split: option.splits)

lemma op_died:
  assumes ok: "docker_ok b" and i: "i < length (dprocs b)" "dpID (dprocs b ! i) = cid"
    and run: "run_op env (OpDied d) b = (Inr (), b')"
  shows "op_post i cid (OpDied d) b b'"
  using died_state [OF run]
proof
  assume "\<exists>j. dcontainers b d = Some j \<and> b' = removed_state env j (b\<lparr>dcontainers := (dcontainers b)(d := None)\<rparr>)"
  then obtain j b0 where j: "dcontainers b d = Some j" and b0: "b0 = b\<lparr>dcontainers := (dcontainers b)(d := None)\<rparr>"
    and b': "b' = removed_state env j b0" by blast
  have dj: "j < length (dprocs b)" "dpID (dprocs b ! j) = d" using ok j by (auto simp: docker_ok_def)
  have eq: "j = i \<longleftrightarrow> d = cid" using same_id [OF ok dj(1) i(1)] dj(2) i(2) by auto
  from removed_state_hist [of env j b0 cid] b0 b' obtain es where es: "hist b' = hist b @ es"
    "removals cid es = (if \<not> dpRemoved (dprocs b ! j) \<and> d = cid then 1 else 0)" using dj(2) by auto
  have ids: "map dpID (dprocs b') = map dpID (dprocs b)" by (simp add: b' b0 removed_state_simps)
  have "docker_ok b'" by (rule docker_ok_ids [OF ok ids]) (simp add: b' b0 removed_state_simps)
  moreover have "dpRemoved (dprocs b' ! i) = (dpRemoved (dprocs b ! i) \<or> d = cid)"
    using dj(1) i eq removed_state_simps(3,4,5) [where env = env and i = j and b = b0] by (cases "j = i") (auto simp: b' b0)
  moreover have "dcontainers b' cid = Some i \<longleftrightarrow> dcontainers b cid = Some i \<and> d \<noteq> cid" by (simp add: b' b0 removed_state_simps)
  moreover have "d = cid \<Longrightarrow> dcontainers b cid = Some i" using j eq by simp
  moreover have "removals cid es = (if d = cid \<and> \<not> dpRemoved (dprocs b ! i) then 1 else 0)"
    using es(2) eq by (cases "j = i") simp_all
  ultimately show ?thesis using ids es(1)
    by (intro op_postI [where touched = "d = cid" and again = False]) (simp_all, blast+)
next
  assume "\<exists>ok. dcontainers b d = None \<and> b' = b\<lparr>dcontainers := (dcontainers b)(d := None), hist := hist b @ [(DRemove d, ok)]\<rparr>"
  then obtain k where k: "dcontainers b d = None" and
    b': "b' = b\<lparr>dcontainers := (dcontainers b)(d := None), hist := hist b @ [(DRemove d, k)]\<rparr>" by blast
  have "docker_ok b'" by (rule docker_ok_ids [OF ok]) (simp_all add: b')
  then show ?thesis using k
    by (intro op_postI [where touched = False and again = "d = cid" and es = "[(DRemove d, k)]"]) (auto simp: b' removals_def)
qed

lemma run_op_total: "\<exists>b'. run_op env op b = (Inr (), b')"
proof (cases op)
  case (OpKill j)
  then show ?thesis by (simp add: docker_Kill_def rd_bind_def gets_def dack_def attempt_call remove_eval set_proc_def
        modify_def rd_return_def)
next
  case (OpDied d)
  then show ?thesis by (simp add: died_def rd_bind_def gets_def modify_def remove_eval containerRemove_def dack_def
        logged_call split: option.splits)
qed

lemma run_ops_removals:
  "docker_ok b \<Longrightarrow> i < length (dprocs b) \<Longrightarrow> dpID (dprocs b ! i) = cid \<Longrightarrow>
   list_all (valid_op b) ops \<Longrightarrow>
   \<exists>b' es. each (run_op env) ops b = (Inr (), b') \<and> hist b' = hist b @ es \<and>
     removals cid es = (let known = dcontainers b cid = Some i in
       (if \<not> dpRemoved (dprocs b ! i) \<and> (OpKill i \<in> set ops \<or> OpDied cid \<in> set ops \<and> known) then 1 else 0) +
       (count_list ops (OpDied cid) - (if known then 1 else 0)))"
proof (induction ops arbitrary: b)
  case Nil
  then show ?case by (auto simp: rd_return_def)
next
  case (Cons op ops)
  obtain b1 where run: "run_op env op b = (Inr (), b1)" using run_op_total by blast
  have post: "op_post i cid op b b1"
  proof (cases op)
    case (OpKill j)
    then show ?thesis using op_kill [OF Cons.prems(1,2,3) _ run [unfolded OpKill]] Cons.prems(4) by simp
  next
    case (OpDied d)
    then show ?thesis using op_died [OF Cons.prems(1,2,3) run [unfolded OpDied]] by simp
  qed
  let ?known = "dcontainers b cid = Some i"
  from post obtain es where es: "hist b1 = hist b @ es"
    "removals cid es = (if op = OpDied cid \<and> \<not> ?known \<or>
       (op = OpKill i \<or> op = OpDied cid \<and> ?known) \<and> \<not> dpRemoved (dprocs b ! i) then 1 else 0)"
    and ids: "map dpID (dprocs b1) = map dpID (dprocs b)" and ok1: "docker_ok b1"
    and rm: "dpRemoved (dprocs b1 ! i) = (dpRemoved (dprocs b ! i) \<or> op = OpKill i \<or> op = OpDied cid \<and> ?known)"
    and kn: "dcontainers b1 cid = Some i \<longleftrightarrow> ?known \<and> op \<noteq> OpDied cid"
    unfolding op_post_def Let_def by blast
  have len: "length (dprocs b1) = length (dprocs b)" using arg_cong [OF ids, of length] by simp
  have idi: "dpID (dprocs b1 ! i) = cid" using arg_cong [OF ids, of "\<lambda>xs. xs ! i"] Cons.prems(2,3) len by simp
  have "valid_op b1 x = valid_op b x" for x by (cases x) (simp_all add: len)
  then have v: "list_all (valid_op b1) ops" using Cons.prems(4) by (simp add: list_all_iff)
  from Cons.IH [OF ok1 _ idi v] len Cons.prems(2) obtain b' fs where
    b': "each (run_op env) ops b1 = (Inr (), b')" "hist b' = hist b1 @ fs"
    "removals cid fs = (let known = dcontainers b1 cid = Some i in
       (if \<not> dpRemoved (dprocs b1 ! i) \<and> (OpKill i \<in> set ops \<or> OpDied cid \<in> set ops \<and> known) then 1 else 0) +
       (count_list ops (OpDied cid) - (if known then 1 else 0)))" by auto
  have "removals cid (es @ fs) = (let known = ?known in
       (if \<not> dpRemoved (dprocs b ! i) \<and> (OpKill i \<in> set (op # ops) \<or> OpDied cid \<in> set (op # ops) \<and> known) then 1 else 0) +
       (count_list (op # ops) (OpDied cid) - (if known then 1 else 0)))"
  proof (cases "OpDied cid \<in> set ops")
    case True
    then have "0 < count_list ops (OpDied cid)" by (simp add: count_list_0_iff neq0_conv [symmetric])
    then show ?thesis using True b'(3) es(2) rm kn by (cases op) (auto simp: Let_def)
  next
    case False
    then show ?thesis using b'(3) es(2) rm kn by (cases op) (auto simp: Let_def)
  qed
  then show ?case using run es(1) b'(1,2) by (intro exI [of _ b'] exI [of _ "es @ fs"]) (simp add: rd_bind_def)
qed

section \<open>A container that does not start\<close>

lemma docker_Spawn_calls: "calls (\<lambda>e. \<forall>cid. e \<noteq> DRemove cid) (docker_Spawn env rt d p config)"
  unfolding docker_Spawn_def docker_newContainer_def docker_started_def startContainer_def set_proc_def dack_def
  by (intro calls_rules) (simp_all add: put_dgate_def)

end
