(* ===== verification/Path_Laws.thy ===== *)
theory Path_Laws
  imports Host
begin

text \<open>
  Laws of the cleaning and joining of paths: what is joined to a directory without two dots stays
  under it.
\<close>

section \<open>Splitting and joining\<close>

lemma split_on_not_Nil [simp]: "split_on c s \<noteq> []"
  by (induction s) (auto split: list.splits)

lemma split_on_append:
  "split_on c (s @ c # t) = split_on c s @ split_on c t"
proof (induction s)
  case (Cons x s)
  show ?case
  proof (cases "x = c")
    case False
    obtain p ps where "split_on c s = p # ps" by (cases "split_on c s") auto
    then show ?thesis using Cons False by simp
  qed (use Cons in simp)
qed simp

lemma split_on_free: "\<forall>p \<in> set (split_on c s). c \<notin> set p"
proof (induction s)
  case (Cons x s)
  show ?case
  proof (cases "x = c")
    case False
    obtain p ps where "split_on c s = p # ps" by (cases "split_on c s") auto
    then show ?thesis using Cons False by simp
  qed (use Cons in simp)
qed simp

lemma split_on_single: "c \<notin> set s \<Longrightarrow> split_on c s = [s]"
  by (induction s) auto

lemma join_append: "es \<noteq> [] \<Longrightarrow> fs \<noteq> [] \<Longrightarrow> join sep (es @ fs) = join sep es @ sep @ join sep fs"
proof (induction sep es rule: join.induct)
  case (2 sep s)
  then show ?case by (cases fs) auto
qed auto

lemma split_join:
  "es \<noteq> [] \<Longrightarrow> \<forall>e \<in> set es. CHR ''/'' \<notin> set e \<Longrightarrow> split_on CHR ''/'' (join ''/'' es) = es"
proof (induction es)
  case (Cons e es)
  show ?case
  proof (cases es)
    case Nil
    then show ?thesis using Cons.prems by (simp add: split_on_single)
  next
    case (Cons f fs)
    then have "join ''/'' (e # es) = e @ CHR ''/'' # join ''/'' es" by simp
    then show ?thesis using Cons.IH Cons.prems \<open>es = f # fs\<close> by (simp add: split_on_append split_on_single)
  qed
qed simp

section \<open>Elements\<close>

text \<open>The elements that name something.\<close>

definition proper :: "string \<Rightarrow> bool" where
  "proper e \<longleftrightarrow> e \<noteq> '''' \<and> e \<noteq> ''.'' \<and> e \<noteq> ''..''"

definition names :: "string \<Rightarrow> string list" where
  "names p = filter proper (split_on CHR ''/'' p)"

definition no_dotdot :: "string \<Rightarrow> bool" where
  "no_dotdot p \<longleftrightarrow> ''..'' \<notin> set (split_on CHR ''/'' p)"

lemma push_proper: "proper e \<Longrightarrow> push_elem r e st = e # st"
  by (simp add: proper_def push_elem_def)

lemma fold_push_down: "''..'' \<notin> set es \<Longrightarrow> fold (push_elem r) es st = rev (filter proper es) @ st"
  by (induction es arbitrary: st) (auto simp: push_elem_def proper_def)

lemma names_free: "\<forall>e \<in> set (names p). CHR ''/'' \<notin> set e \<and> proper e"
  using split_on_free [of "CHR ''/''" p] by (auto simp: names_def)

lemma elements_join:
  assumes "t \<noteq> ''''" "no_dotdot n"
  shows "elements (t @ CHR ''/'' # n) = elements t @ names n"
proof -
  have "is_rooted (t @ CHR ''/'' # n) = is_rooted t" using assms(1) by (cases t) (auto simp: is_rooted_def)
  then show ?thesis using assms(2)
    by (simp add: elements_def clean_elems_def split_on_append fold_push_down no_dotdot_def names_def)
qed

text \<open>The cleaned form of a directory that is neither the root nor the current one.\<close>

lemma Clean_join:
  assumes "t \<noteq> ''''" "no_dotdot n" "elements t \<noteq> []"
  shows "Clean (t @ CHR ''/'' # n) = (if names n = [] then Clean t else Clean t @ ''/'' @ join ''/'' (names n))"
proof -
  have "is_rooted (t @ CHR ''/'' # n) = is_rooted t" using assms(1) by (cases t) (auto simp: is_rooted_def)
  then show ?thesis using elements_join [OF assms(1,2)] assms(3) by (simp add: Clean_def join_append)
qed

lemma Join_pair:
  assumes "t \<noteq> ''''"
  shows "Join [t, n] = Clean (t @ CHR ''/'' # n)"
  using assms by (simp add: Join_def)

section \<open>Staying below a directory\<close>

text \<open>\<open>below d p\<close>: the path \<open>p\<close> is the directory \<open>d\<close> or lies under it, through names only.\<close>

definition below :: "string \<Rightarrow> string \<Rightarrow> bool" where
  "below d p \<longleftrightarrow> p = d \<or> (\<exists>es. es \<noteq> [] \<and> (\<forall>e \<in> set es. CHR ''/'' \<notin> set e \<and> proper e) \<and> p = d @ ''/'' @ join ''/'' es)"

lemma Join_below:
  assumes "t \<noteq> ''''" "elements t \<noteq> []" "no_dotdot n"
  shows "below (Clean t) (Join [t, n])"
  using Clean_join [OF assms(1,3,2)] names_free [of n] by (auto simp: Join_pair [OF assms(1)] below_def)

text \<open>Cleaning a clean path of names changes nothing.\<close>

definition clean_dir :: "string \<Rightarrow> bool" where
  "clean_dir d \<longleftrightarrow> d \<noteq> '''' \<and> Clean d = d \<and> elements d \<noteq> []"

lemma Clean_below:
  assumes "clean_dir d" "\<forall>e \<in> set es. CHR ''/'' \<notin> set e \<and> proper e"
  shows "Clean (d @ CHR ''/'' # join ''/'' es) = (if es = [] then d else d @ ''/'' @ join ''/'' es)"
proof (cases "es = []")
  case True
  have "no_dotdot ''''" "names '''' = []" by (simp_all add: no_dotdot_def names_def proper_def)
  then show ?thesis using assms(1) True Clean_join [of d "''''"] by (simp add: clean_dir_def)
next
  case False
  have s: "split_on CHR ''/'' (join ''/'' es) = es" using split_join [OF False] assms(2) by blast
  then have "no_dotdot (join ''/'' es)" "names (join ''/'' es) = es"
    using assms(2) by (auto simp: no_dotdot_def names_def proper_def filter_id_conv)
  then show ?thesis using assms(1) False Clean_join [of d "join ''/'' es"] by (simp add: clean_dir_def)
qed

lemma dropWhile_last:
  assumes "CHR ''/'' \<notin> set e"
  shows "rev (dropWhile (\<lambda>c. c \<noteq> CHR ''/'') (rev (a @ CHR ''/'' # e))) = a @ ''/''"
proof -
  have "\<forall>c \<in> set (rev e). c \<noteq> CHR ''/''" using assms by auto
  then have "dropWhile (\<lambda>c. c \<noteq> CHR ''/'') (rev e @ CHR ''/'' # rev a) = CHR ''/'' # rev a"
    by (subst dropWhile_append2) auto
  then show ?thesis by simp
qed

lemma Dir_below:
  assumes d: "clean_dir d" and es: "es \<noteq> []" "\<forall>e \<in> set es. CHR ''/'' \<notin> set e \<and> proper e"
  shows "below d (Dir (d @ ''/'' @ join ''/'' es))"
proof -
  obtain fs e where fs: "es = fs @ [e]" using es(1) by (metis append_butlast_last_id)
  have fs_ok: "\<forall>e \<in> set fs. CHR ''/'' \<notin> set e \<and> proper e" and e: "CHR ''/'' \<notin> set e" using es(2) fs by auto
  have "Dir (d @ ''/'' @ join ''/'' es) = (if fs = [] then d else d @ ''/'' @ join ''/'' fs)"
  proof (cases "fs = []")
    case True
    then have "Dir (d @ ''/'' @ join ''/'' es) = Clean (d @ ''/'')"
      using dropWhile_last [OF e, of d] fs by (simp add: Dir_def)
    then show ?thesis using Clean_below [OF d, of "[]"] True by simp
  next
    case False
    let ?a = "d @ CHR ''/'' # join ''/'' fs"
    have "d @ ''/'' @ join ''/'' es = ?a @ CHR ''/'' # e" using fs False by (simp add: join_append)
    then have "Dir (d @ ''/'' @ join ''/'' es) = Clean (?a @ ''/'')" using dropWhile_last [OF e, of ?a] by (simp add: Dir_def)
    moreover have "?a @ ''/'' = d @ CHR ''/'' # (join ''/'' fs @ CHR ''/'' # [])" by simp
    moreover have "no_dotdot (join ''/'' fs @ CHR ''/'' # [])" "names (join ''/'' fs @ CHR ''/'' # []) = fs"
      using split_join [OF False] fs_ok
      by (auto simp: no_dotdot_def names_def split_on_append proper_def filter_id_conv)
    ultimately show ?thesis using Clean_join [of d "join ''/'' fs @ CHR ''/'' # []"] d False by (simp add: clean_dir_def)
  qed
  then show ?thesis using fs_ok by (auto simp: below_def)
qed

end
