(* ===== verification/Process_Box.thy ===== *)
theory Process_Box
  imports Admission Path_Laws Process_Codec Msgp_Laws
begin

text \<open>
  The process box (\<^verbatim>\<open>box.go\<close>, \<^verbatim>\<open>process.go\<close>, \<^verbatim>\<open>archive.go\<close> and \<^verbatim>\<open>cocaine_code_storage.go\<close> under
  \<^verbatim>\<open>src/isolate/process\<close>): fetching the code of an application and unpacking it, spawning workers as
  child processes, and reaping them.  The storage service, the archive libraries and the operating
  system are parameters.
\<close>

section \<open>The environment\<close>

record execCmd =
  xPath :: string
  xArgs :: "string list"
  xEnviron :: "string list"
  xDir :: string

datatype xevent =
    XService
  | XRead string
  | XGet
  | XRemoveAll string
  | XMkdir string
  | XMkdirAll string
  | XStat string
  | XOpenFile string
  | XCopy string
  | XStderrPipe
  | XStdoutPipe
  | XStart execCmd
  | XKill int
  | XWait int
  | XOutput

text \<open>
  What \<^verbatim>\<open>Result\<close> makes of the reply of the storage: an error or not, the number of the message and its
  values, of which only raw bytes are of use.
\<close>

datatype storageValue = RawValue bytes | OtherValue

record storageReply =
  srErr :: bool
  srNum :: nat
  srVal :: "storageValue list"

text \<open>What \<^verbatim>\<open>Next\<close> of the archive reader gives: an entry with its name and kind, or an error other than the end.\<close>

datatype tarItem = TarEntry string bool | TarErr derr

record xenv =
  xacks :: "xevent history \<Rightarrow> xevent \<Rightarrow> derr + unit"
  xpids :: "xevent history \<Rightarrow> xevent \<Rightarrow> derr + int"
  xreplies :: "xevent history \<Rightarrow> xevent \<Rightarrow> derr + storageReply"
  gunzip :: "bytes \<Rightarrow> bytes option"
  inflate :: "bytes \<Rightarrow> bytes option"
  untar :: "bytes \<Rightarrow> tarItem list"

text \<open>A child is the command with the identifier of its worker.\<close>

record workerInfo =
  wiCmd :: execCmd
  wiUuid :: string

record xbox = "xevent world" +
  xgate :: gate
  spoolPath :: string
  children :: "int \<rightharpoonup> workerInfo"

definition xack :: "xenv \<Rightarrow> xevent \<Rightarrow> (gerr, xbox, unit) rd" where
  "xack env = call (xacks env)"

definition put_xgate :: "gate \<Rightarrow> xbox \<Rightarrow> xbox" where
  "put_xgate g b = b\<lparr>xgate := g\<rparr>"

section \<open>The code storage (cocaine_code_storage.go)\<close>

text \<open>The archive inside the value of the reply, a binary or a string of msgpack.\<close>

definition storage_payload :: "bytes \<Rightarrow> gerr + bytes" where
  "storage_payload raw = (case NextType raw of
      BinType \<Rightarrow> (case fst (ReadBytesZC raw) of Inl e \<Rightarrow> Inl (ProfileErr (PRead e)) | Inr d \<Rightarrow> Inr d)
    | StrType \<Rightarrow> (case fst (ReadStringZC raw) of Inl e \<Rightarrow> Inl (ProfileErr (PRead e)) | Inr d \<Rightarrow> Inr d)
    | _ \<Rightarrow> Inl (Errorf ''invalid msgpack type for an archive''))"

definition storage_Spool :: "xenv \<Rightarrow> string \<Rightarrow> (gerr, xbox, bytes) rd" where
  "storage_Spool env appname =
     rd_bind (xack env XService) (\<lambda>_.
     rd_bind (xack env (XRead appname)) (\<lambda>_.
     rd_bind (call (xreplies env) XGet) (\<lambda>res.
     if srErr res \<or> srNum res \<noteq> 0 \<or> length (srVal res) \<noteq> 1
     then rd_fail (Errorf ''invalid Storage service reply'')
     else case srVal res ! 0 of
         OtherValue \<Rightarrow> rd_fail (Errorf ''invalid Storage.Read value type'')
       | RawValue raw \<Rightarrow> (case storage_payload raw of Inl e \<Rightarrow> rd_fail e | Inr d \<Rightarrow> rd_return d))))"

section \<open>Archives (archive.go)\<close>

text \<open>The first constructor that takes the data; the last takes everything.\<close>

definition archive_reader :: "xenv \<Rightarrow> bytes \<Rightarrow> bytes" where
  "archive_reader env data = (case gunzip env data of
      Some d \<Rightarrow> d
    | None \<Rightarrow> (case inflate env data of Some d \<Rightarrow> d | None \<Rightarrow> data))"

definition make_parent :: "xenv \<Rightarrow> string \<Rightarrow> (gerr, xbox, unit) rd" where
  "make_parent env path =
     (let dirpath = Dir path in
      if dirpath = ''.'' then rd_return ()
      else rd_bind (attempt (xack env (XStat dirpath))) (\<lambda>r. case r of
          Inr _ \<Rightarrow> rd_return ()
        | Inl (Reported (NotExist _)) \<Rightarrow> xack env (XMkdirAll dirpath)
        | Inl e \<Rightarrow> rd_fail e))"

fun unpack :: "xenv \<Rightarrow> string \<Rightarrow> tarItem list \<Rightarrow> (gerr, xbox, unit) rd" where
  "unpack env target [] = rd_return ()"
| "unpack env target (TarErr e # items) = rd_fail (Reported e)"
| "unpack env target (TarEntry name isdir # items) =
     (let path = Join [target, name] in
      if isdir then rd_bind (xack env (XMkdirAll path)) (\<lambda>_. unpack env target items)
      else
        rd_bind (make_parent env path) (\<lambda>_.
        rd_bind (xack env (XOpenFile path)) (\<lambda>_.
        rd_bind (xack env (XCopy path)) (\<lambda>_.
        unpack env target items))))"

definition unpackArchive :: "xenv \<Rightarrow> bytes \<Rightarrow> string \<Rightarrow> (gerr, xbox, unit) rd" where
  "unpackArchive env data target =
     rd_bind (xack env (XRemoveAll target)) (\<lambda>_.
     rd_bind (xack env (XMkdir target)) (\<lambda>_.
     unpack env target (untar env (archive_reader env data))))"

section \<open>Processes (process.go)\<close>

definition killPg :: "xenv \<Rightarrow> int \<Rightarrow> (gerr, xbox, unit) rd" where
  "killPg env pgid = (let pgid' = (if pgid > 0 then - pgid else pgid) in xack env (XKill pgid'))"

definition newProcess :: "xenv \<Rightarrow> execCmd \<Rightarrow> (gerr, xbox, int) rd" where
  "newProcess env cmd =
     rd_bind (xack env XStderrPipe) (\<lambda>_.
     rd_bind (xack env XStdoutPipe) (\<lambda>_.
     call (xpids env) (XStart cmd)))"

definition process_Kill :: "xenv \<Rightarrow> int \<Rightarrow> (gerr, xbox, unit) rd" where
  "process_Kill env pid = killPg env pid"

section \<open>The box (box.go)\<close>

definition decode_process :: "('z) runtime_scheme \<Rightarrow> bytes option \<Rightarrow> gerr + ProcessProfile" where
  "decode_process rt opts = decode_profile rt (ProcessProfile_DecodeMsg \<lparr>ProcessProfile.Spool = ''''\<rparr>) opts"

definition spool_dir :: "xbox \<Rightarrow> ProcessProfile \<Rightarrow> string" where
  "spool_dir b profile = (if ProcessProfile.Spool profile \<noteq> '''' then ProcessProfile.Spool profile else spoolPath b)"

definition IsAbs :: "string \<Rightarrow> bool" where
  "IsAbs path = is_rooted path"

definition exec_cmd :: "range_order \<Rightarrow> string \<Rightarrow> SpawnConfig \<Rightarrow> execCmd" where
  "exec_cmd ord dir config =
     (let workDir = Join [dir, scName config];
          execPath = (if \<not> IsAbs (scExecutable config) then Join [workDir, scExecutable config] else scExecutable config)
      in \<lparr>xPath = execPath,
          xArgs = Base (scExecutable config) # concat (map (\<lambda>(k, v). [k, v]) (pairs ord (scArgs config))),
          xEnviron = map (\<lambda>(k, v). k @ ''='' @ v) (pairs ord (scEnv config)),
          xDir = workDir\<rparr>)"

text \<open>From the check of the context to the child in the map, under the lock of the box.\<close>

definition process_started :: "xenv \<Rightarrow> bool \<Rightarrow> execCmd \<Rightarrow> (gerr, xbox, int) rd" where
  "process_started env stopped cmd =
     (if stopped then rd_fail ErrSpawningCancelled
      else
        rd_bind (newProcess env cmd) (\<lambda>pid.
        rd_bind (modify (\<lambda>b. b\<lparr>children := (children b)(pid \<mapsto> \<lparr>wiCmd = cmd, wiUuid = ''''\<rparr>)\<rparr>)) (\<lambda>_.
        rd_bind (logged (xack env XOutput)) (\<lambda>_. rd_return pid))))"

definition process_Spawn ::
  "xenv \<Rightarrow> runtime \<Rightarrow> bool \<Rightarrow> bool \<Rightarrow> bool \<Rightarrow> SpawnConfig \<Rightarrow> (gerr, xbox, int) rd" where
  "process_Spawn env rt ctxDone pick stopped config = (case decode_process rt (scOpts config) of
      Inl e \<Rightarrow> rd_fail e
    | Inr profile \<Rightarrow>
        rd_bind (gets (\<lambda>b. exec_cmd (map_range rt) (spool_dir b profile) config)) (\<lambda>cmd.
        rd_bind (on_part xgate put_xgate gate_enter) (\<lambda>_.
        through xgate put_xgate ctxDone pick (process_started env stopped cmd))))"

definition process_Spool ::
  "xenv \<Rightarrow> runtime \<Rightarrow> bool \<Rightarrow> string \<Rightarrow> bytes option \<Rightarrow> (gerr, xbox, unit) rd" where
  "process_Spool env rt stopped name opts = (case decode_process rt opts of
      Inl e \<Rightarrow> rd_fail e
    | Inr profile \<Rightarrow>
        rd_bind (gets (\<lambda>b. spool_dir b profile)) (\<lambda>dir.
        rd_bind (storage_Spool env name) (\<lambda>data.
        if stopped then rd_return ()
        else unpackArchive env data (Join [dir, name]))))"

definition pid_json :: "int \<Rightarrow> string" where
  "pid_json pid = ''{'' @ [CHR 0x22] @ ''pid'' @ [CHR 0x22] @ '':'' @ show_int pid @ ''}''"

text \<open>\<open>ord\<close> is the order in which the runtime ranges over the children.\<close>

definition process_Inspect :: "((int \<rightharpoonup> workerInfo) \<Rightarrow> int list) \<Rightarrow> string \<Rightarrow> xbox \<Rightarrow> string" where
  "process_Inspect ord worker b = (case find (\<lambda>pid. case children b pid of
         None \<Rightarrow> False | Some pr \<Rightarrow> wiUuid pr = worker) (ord (children b)) of
      None \<Rightarrow> ''{}'' | Some pid \<Rightarrow> pid_json pid)"

section \<open>Reaping\<close>

text \<open>What \<^verbatim>\<open>Wait4\<close> returns; \<open>NoChild\<close> is the zero pid without an error: none has changed its state.\<close>

datatype wait4 = Reaped int | EINTR | ECHILD | NoChild | WaitErr derr

text \<open>The loop of \<^verbatim>\<open>wait\<close> over what the successive calls of \<^verbatim>\<open>Wait4\<close> return, \<open>NoChild\<close> after the last.\<close>

fun wait_children :: "xenv \<Rightarrow> wait4 list \<Rightarrow> (gerr, xbox, unit) rd" where
  "wait_children env [] = rd_return ()"
| "wait_children env (Reaped pid # ws) =
     (if pid > 0 then
        rd_bind (gets (\<lambda>b. children b pid)) (\<lambda>child.
        rd_bind (case child of
            None \<Rightarrow> rd_return ()
          | Some pr \<Rightarrow>
              rd_bind (modify (\<lambda>b. b\<lparr>children := (children b)(pid := None)\<rparr>)) (\<lambda>_.
              rd_bind (logged (killPg env pid)) (\<lambda>_.
              logged (xack env (XWait pid))))) (\<lambda>_.
        wait_children env ws))
      else rd_return ())"
| "wait_children env (EINTR # ws) = wait_children env ws"
| "wait_children env (ECHILD # ws) = rd_return ()"
| "wait_children env (NoChild # ws) = rd_return ()"
| "wait_children env (WaitErr e # ws) = rd_return ()"

text \<open>\<^verbatim>\<open>NewBox\<close> of the box, on the two options it reads, and the handler of \<^verbatim>\<open>SIGCHLD\<close>.\<close>

definition process_NewBox :: "string option \<Rightarrow> int \<Rightarrow> xevent history \<Rightarrow> xbox" where
  "process_NewBox dir queue h =
     \<lparr>hist = h, xgate = \<lparr>gSem = \<lparr>smCap = 10, smHeld = 0\<rparr>, gQueue = queue\<rparr>,
      spoolPath = (case dir of None \<Rightarrow> ''/var/spool/cocaine'' | Some p \<Rightarrow> p), children = Map.empty\<rparr>"

fun sigchldHandler :: "xenv \<Rightarrow> wait4 list list \<Rightarrow> (gerr, xbox, unit) rd" where
  "sigchldHandler env [] = rd_return ()"
| "sigchldHandler env (ws # wss) = rd_bind (wait_children env ws) (\<lambda>_. sigchldHandler env wss)"

section \<open>The gate\<close>

interpretation process_gate: gated xgate put_xgate
  by unfold_locales (simp add: put_xgate_def)

lemma process_body_gate: "leaves xgate (process_started env stopped cmd)"
  unfolding process_started_def newProcess_def xack_def by (intro leaves_rules) simp_all

lemma process_Spawn_gate:
  assumes "process_Spawn env rt d p stopped config b = (r, b')" "\<forall>e. r = Inl e \<longrightarrow> \<not> fatal e"
  shows "xgate b' = xgate b"
proof (cases "decode_process rt (scOpts config)")
  case (Inl e)
  then show ?thesis using assms(1) by (simp add: process_Spawn_def rd_fail_def)
next
  case (Inr profile)
  then show ?thesis using assms(1) process_gate.enter_through_gate [OF process_body_gate _ assms(2)]
    by (simp add: process_Spawn_def rd_bind_def [of "gets _"] gets_def)
qed

section \<open>Reaping reaches every child\<close>

text \<open>The children \<^verbatim>\<open>Wait4\<close> reports before the loop ends.\<close>

fun reaped :: "wait4 list \<Rightarrow> int list" where
  "reaped [] = []"
| "reaped (Reaped pid # ws) = (if pid > 0 then pid # reaped ws else [])"
| "reaped (EINTR # ws) = reaped ws"
| "reaped (w # ws) = []"

definition reap_calls :: "int \<Rightarrow> xevent list" where
  "reap_calls pid = [XKill (- pid), XWait pid]"

lemma reap_child:
  assumes "pid > 0"
  shows "wait_children env (Reaped pid # ws) b =
    (case children b pid of None \<Rightarrow> wait_children env ws b
     | Some pr \<Rightarrow>
         let b1 = b\<lparr>children := (children b)(pid := None)\<rparr>;
             b2 = b1\<lparr>hist := hist b1 @ [(XKill (- pid), \<not> isl (xacks env (hist b1) (XKill (- pid))))]\<rparr>;
             b3 = b2\<lparr>hist := hist b2 @ [(XWait pid, \<not> isl (xacks env (hist b2) (XWait pid)))]\<rparr>
         in wait_children env ws b3)"
  using assms by (simp add: rd_bind_def gets_def modify_def rd_return_def killPg_def xack_def logged_call Let_def
      split: option.splits)

lemma wait_children_reaps:
  "distinct (reaped ws) \<Longrightarrow>
   \<exists>b' es. wait_children env ws b = (Inr (), b') \<and> children b' = (children b) |` (- set (reaped ws)) \<and>
     hist b' = hist b @ es \<and>
     map fst es = concat (map reap_calls (filter (\<lambda>pid. children b pid \<noteq> None) (reaped ws)))"
proof (induction ws arbitrary: b rule: reaped.induct)
  case (2 pid ws)
  show ?case
  proof (cases "pid > 0")
    case False
    then show ?thesis by (simp add: rd_return_def)
  next
    case True
    show ?thesis
    proof (cases "children b pid")
      case None
      from 2(1) [OF True, of b] 2(2) True obtain b' es where b': "wait_children env ws b = (Inr (), b')"
        "children b' = (children b) |` (- set (reaped ws))" "hist b' = hist b @ es"
        "map fst es = concat (map reap_calls (filter (\<lambda>pid. children b pid \<noteq> None) (reaped ws)))" by auto
      have "(children b) |` (- set (reaped ws)) = (children b) |` (- set (pid # reaped ws))"
        using None by (auto simp: restrict_map_def fun_eq_iff)
      then show ?thesis using b' None True by (intro exI [of _ b'] exI [of _ es]) (simp add: reap_child del: wait_children.simps)
    next
      case (Some pr)
      define b3 where "b3 = (let b1 = b\<lparr>children := (children b)(pid := None)\<rparr>;
             b2 = b1\<lparr>hist := hist b1 @ [(XKill (- pid), \<not> isl (xacks env (hist b1) (XKill (- pid))))]\<rparr>
         in b2\<lparr>hist := hist b2 @ [(XWait pid, \<not> isl (xacks env (hist b2) (XWait pid)))]\<rparr>)"
      have run: "wait_children env (Reaped pid # ws) b = wait_children env ws b3"
        using True Some by (simp add: reap_child b3_def Let_def del: wait_children.simps)
      have c3: "children b3 = (children b)(pid := None)" by (simp add: b3_def Let_def)
      obtain x y where h3: "hist b3 = hist b @ [(XKill (- pid), x), (XWait pid, y)]" by (simp add: b3_def Let_def)
      from 2(1) [OF True, of b3] 2(2) True obtain b' es where b': "wait_children env ws b3 = (Inr (), b')"
        "children b' = (children b3) |` (- set (reaped ws))" "hist b' = hist b3 @ es"
        "map fst es = concat (map reap_calls (filter (\<lambda>q. children b3 q \<noteq> None) (reaped ws)))" by auto
      have "pid \<notin> set (reaped ws)" using 2(2) True by simp
      then have "filter (\<lambda>q. children b3 q \<noteq> None) (reaped ws) = filter (\<lambda>q. children b q \<noteq> None) (reaped ws)"
        by (intro filter_cong) (auto simp: c3)
      moreover have "(children b3) |` (- set (reaped ws)) = (children b) |` (- set (pid # reaped ws))"
        by (auto simp: c3 restrict_map_def fun_eq_iff)
      moreover have "map fst ([(XKill (- pid), x), (XWait pid, y)] @ es) = reap_calls pid @ map fst es"
        by (simp add: reap_calls_def)
      ultimately show ?thesis using run b' h3 True Some
        by (intro exI [of _ b'] exI [of _ "[(XKill (- pid), x), (XWait pid, y)] @ es"]) (simp del: wait_children.simps)
    qed
  qed
qed (simp_all add: rd_return_def restrict_map_def)

section \<open>Workers are not found\<close>

text \<open>The boxes that come of a new one by spawning and reaping.\<close>

inductive process_reach :: "xenv \<Rightarrow> xbox \<Rightarrow> bool" for env :: xenv where
  start: "process_reach env (process_NewBox dir q h)"
| spawn: "process_reach env b \<Longrightarrow> process_Spawn env rt d p stopped config b = (r, b') \<Longrightarrow> process_reach env b'"
| reap: "process_reach env b \<Longrightarrow> wait_children env ws b = (r, b') \<Longrightarrow> process_reach env b'"

definition no_uuid :: "(int \<rightharpoonup> workerInfo) \<Rightarrow> bool" where
  "no_uuid m \<longleftrightarrow> (\<forall>pid w. m pid = Some w \<longrightarrow> wiUuid w = '''')"

lemma Spawn_no_uuid: "preserves (\<lambda>b. no_uuid (children b)) (process_Spawn env rt d p stopped config)"
  unfolding process_Spawn_def process_started_def newProcess_def xack_def
  by (intro preserves_rules) (simp_all add: put_xgate_def no_uuid_def)

lemma wait_no_uuid: "preserves (\<lambda>b. no_uuid (children b)) (wait_children env ws)"
proof (induction ws rule: reaped.induct)
  case (2 pid ws)
  show ?case
  proof (cases "pid > 0")
    case True
    show ?thesis unfolding wait_children.simps killPg_def xack_def Let_def
      by (intro preserves_rules 2 [OF True]) (simp_all add: no_uuid_def)
  qed (simp add: preserves_rules)
qed (simp_all add: preserves_rules)

lemma process_reach_no_uuid: "process_reach env b \<Longrightarrow> no_uuid (children b)"
proof (induction rule: process_reach.induct)
  case (spawn b rt d p stopped config r b')
  then show ?case using preservesD [OF Spawn_no_uuid] by blast
next
  case (reap b ws r b')
  then show ?case using preservesD [OF wait_no_uuid] by blast
qed (simp add: process_NewBox_def no_uuid_def)

section \<open>Unpacking stays in the spool directory\<close>

text \<open>The file an event of unpacking touches, unless it only looks at it.\<close>

fun touches :: "xevent \<Rightarrow> string option" where
  "touches (XRemoveAll p) = Some p"
| "touches (XMkdir p) = Some p"
| "touches (XMkdirAll p) = Some p"
| "touches (XOpenFile p) = Some p"
| "touches (XCopy p) = Some p"
| "touches e = None"

definition confined :: "string \<Rightarrow> xevent \<Rightarrow> bool" where
  "confined d e \<longleftrightarrow> (\<forall>p. touches e = Some p \<longrightarrow> below d p)"

text \<open>An entry without two dots that names something, unless it is a directory.\<close>

fun safe_item :: "tarItem \<Rightarrow> bool" where
  "safe_item (TarErr e) \<longleftrightarrow> True"
| "safe_item (TarEntry name isdir) \<longleftrightarrow> no_dotdot name \<and> (isdir \<or> names name \<noteq> [])"

lemma Join_names:
  assumes "clean_dir d" "no_dotdot n"
  shows "Join [d, n] = (if names n = [] then d else d @ ''/'' @ join ''/'' (names n))"
  using assms Clean_join [of d n] by (simp add: Join_pair clean_dir_def)

lemma make_parent_confined:
  assumes "below d (Dir path)"
  shows "calls (confined d) (make_parent env path)"
  unfolding make_parent_def xack_def Let_def using assms
  by (intro calls_rules; (auto intro!: calls_rules simp: confined_def split: gerr.split derr.split sum.split)?)

lemma unpack_confined:
  "clean_dir d \<Longrightarrow> list_all safe_item items \<Longrightarrow> calls (confined d) (unpack env d items)"
proof (induction env d items rule: unpack.induct)
  case (3 env d name isdir items)
  from 3(4) have n: "no_dotdot name" "isdir \<or> names name \<noteq> []" "list_all safe_item items" by auto
  have b: "below d (Join [d, name])"
    using names_free [of name] by (auto simp: Join_names [OF 3(3) n(1)] below_def)
  show ?case
  proof (cases isdir)
    case True
    then show ?thesis using 3(1) [OF refl True 3(3) n(3)] b
      by (auto intro!: calls_rules simp: xack_def confined_def Let_def)
  next
    case False
    then have "below d (Dir (Join [d, name]))"
      using Dir_below [OF 3(3) _ names_free, of name] n(2) by (simp add: Join_names [OF 3(3) n(1)])
    note parent = make_parent_confined [OF this, of env]
    have "confined d (XOpenFile (Join [d, name]))" "confined d (XCopy (Join [d, name]))" using b by (simp_all add: confined_def)
    then show ?thesis using 3(2) [OF refl False 3(3) n(3)] parent False
      by (auto intro!: calls_rules simp: xack_def Let_def)
  qed
qed (simp_all add: calls_rules)

lemma unpackArchive_confined:
  assumes "clean_dir d" "list_all safe_item (untar env (archive_reader env data))"
  shows "calls (confined d) (unpackArchive env data d)"
  unfolding unpackArchive_def xack_def
  by (intro calls_rules unpack_confined assms) (simp_all add: confined_def below_def)

section \<open>What the storage sends is what is unpacked\<close>

lemma ReadBytesZC_back: "length d < 2 ^ 32 \<Longrightarrow> ReadBytesZC (AppendBytes [] d @ bs) = (Inr d, bs)"
  by (auto simp: ReadBytesZC_def AppendBytes_def back_simps Let_def)

lemma storage_payload_back:
  assumes "length d < 2 ^ 32"
  shows "storage_payload (AppendBytes [] d) = Inr d"
proof -
  have "\<exists>a as. AppendBytes [] d = a # as \<and> getType a = BinType"
    by (simp add: AppendBytes_def Let_def) (simp add: getType_def sizes_def)
  then obtain a as where a: "AppendBytes [] d = a # as" "getType a = BinType" by blast
  have "ReadBytesZC (a # as) = (Inr d, [])" using ReadBytesZC_back [OF assms, of "[]"] a(1) by simp
  moreover have "NextType (a # as) = BinType" using NextType_lead [of a as] a(2) by simp
  ultimately show ?thesis by (simp add: storage_payload_def a(1))
qed

end
