(* ===== verification/Daemon.thy ===== *)
theory Daemon
  imports Host
begin

text \<open>
  The configuration (\<^verbatim>\<open>src/isolate/isolate.go\<close>), the table of isolations (\<^verbatim>\<open>src/isolate/plugins.go\<close>), the
  daemon (\<^verbatim>\<open>src/daemon/daemon.go\<close>), its health checks (\<^verbatim>\<open>metrics.go\<close>) and what \<^verbatim>\<open>main\<close> makes of the
  configuration.  A box is a value of any type, made by its constructor.
\<close>

section \<open>Configuration\<close>

text \<open>
  The entries of the \<^verbatim>\<open>isolate\<close> section, in the order the runtime ranges over them.  What JSON
  decoding makes of the file is a parameter.
\<close>

record 'arg Config =
  cfVersion :: int
  cfEndpoints :: "string list"
  cfDebugServer :: string
  cfLevel :: nat
  cfLogOutput :: string
  cfMetricsType :: string
  cfPeriod :: int
  cfIsolate :: "(string \<times> string \<times> 'arg) list"
  cfMtn :: MtnConfig
  cfAllowLocalState :: bool

definition Validate :: "'arg Config \<Rightarrow> gerr option" where
  "Validate c =
     (if length (cfIsolate c) = 0 then Some (Errorf ''`isolate` section must containe at least one item'')
      else if length (cfEndpoints c) = 0 then Some (Errorf ''`endpoints` section must containe at least one item'')
      else None)"

definition Parse :: "('data \<Rightarrow> derr + 'arg Config) \<Rightarrow> 'data \<Rightarrow> gerr + 'arg Config" where
  "Parse unmarshal data = (case unmarshal data of
      Inl e \<Rightarrow> Inl (Reported e)
    | Inr config \<Rightarrow> (case Validate config of Some e \<Rightarrow> Inl e | None \<Rightarrow> Inr config))"

section \<open>Isolations\<close>

type_synonym ('arg, 's, 'box) constructor = "'arg \<Rightarrow> 's \<Rightarrow> (gerr + 'box) \<times> 's"
type_synonym ('arg, 's, 'box) plugins = "string \<rightharpoonup> ('arg, 's, 'box) constructor"

definition RegisterBox ::
  "string \<Rightarrow> ('arg, 's, 'box) constructor \<Rightarrow> ('arg, 's, 'box) plugins \<Rightarrow> ('arg, 's, 'box) plugins" where
  "RegisterBox name constructor plugins = plugins(name \<mapsto> constructor)"

definition ConstructBox ::
  "('arg, 's, 'box) plugins \<Rightarrow> string \<Rightarrow> 'arg \<Rightarrow> 's \<Rightarrow> (gerr + 'box) \<times> 's" where
  "ConstructBox plugins name cfg s = (case plugins name of
      None \<Rightarrow> (Inl (Errorf (''isolation '' @ name @ '' is not available'')), s)
    | Some constructor \<Rightarrow> constructor cfg s)"

section \<open>The daemon\<close>

text \<open>
  The boxes by name, and the listeners.  \<open>closedBoxes\<close> and \<open>closedListeners\<close> record what has been closed.
\<close>

record ('box, 'ln) Daemon =
  boxes :: "(string \<times> 'box) list"
  listeners :: "'ln list"
  closedBoxes :: "'box list"
  closedListeners :: "'ln list"

definition daemon_empty :: "('box, 'ln) Daemon" where
  "daemon_empty = \<lparr>boxes = [], listeners = [], closedBoxes = [], closedListeners = []\<rparr>"

definition close_listeners :: "'ln list \<Rightarrow> ('box, 'ln) Daemon \<Rightarrow> ('box, 'ln) Daemon" where
  "close_listeners lns d = d\<lparr>closedListeners := closedListeners d @ lns\<rparr>"

definition closeBoxes :: "('box, 'ln) Daemon \<Rightarrow> ('box, 'ln) Daemon" where
  "closeBoxes d = d\<lparr>closedBoxes := closedBoxes d @ map snd (boxes d)\<rparr>"

definition daemon_Close :: "('box, 'ln) Daemon \<Rightarrow> ('box, 'ln) Daemon" where
  "daemon_Close d = closeBoxes (close_listeners (listeners d) d)"

text \<open>The loop of \<^verbatim>\<open>New\<close> over the configured isolations; \<open>boxTypes\<close> are the types met so far.\<close>

fun new_boxes ::
  "('arg, 's, 'box) plugins \<Rightarrow> (string \<times> string \<times> 'arg) list \<Rightarrow> string list \<Rightarrow> ('box, 'ln) Daemon \<Rightarrow> 's \<Rightarrow>
   gerr option \<times> ('box, 'ln) Daemon \<times> 's" where
  "new_boxes plugins [] boxTypes d s = (None, d, s)"
| "new_boxes plugins ((name, type, args) # cfgs) boxTypes d s =
     (if type \<in> set boxTypes then (Some (Errorf (''duplicated box type '' @ type)), daemon_Close d, s)
      else case ConstructBox plugins type args s of
          (Inl e, s1) \<Rightarrow> (Some e, daemon_Close d, s1)
        | (Inr box, s1) \<Rightarrow> new_boxes plugins cfgs (type # boxTypes) (d\<lparr>boxes := boxes d @ [(name, box)]\<rparr>) s1)"

text \<open>
  The pool as \<^verbatim>\<open>New\<close> needs it: initialised, or served from the local database when the allocator
  cannot be reached and the configuration allows it.
\<close>

definition pool_ready :: "bool \<Rightarrow> merr + unit \<Rightarrow> gerr option" where
  "pool_ready allowLocalState r = (case r of
      Inr _ \<Rightarrow> None
    | Inl (MtnError e errno) \<Rightarrow>
        if errno = 1 \<and> allowLocalState then None else Some (Errorf ''Cant do poolInit() inside daemon.New() for MTN'')
    | Inl Panic \<Rightarrow> Some Panicked
    | Inl _ \<Rightarrow> Some Panicked)"

definition daemon_New ::
  "('arg, 'db MtnState, 'box) plugins \<Rightarrow> 'db cfg_env \<Rightarrow> ('db, 'tx) bolt \<Rightarrow>
   ((string \<rightharpoonup> Allocation list) \<Rightarrow> string list) \<Rightarrow> RawAlloc list http \<Rightarrow> 'arg Config \<Rightarrow> files \<Rightarrow> 'db MtnState \<Rightarrow>
   (gerr option \<times> ('box, 'ln) Daemon \<times> 'db MtnState) \<times> files" where
  "daemon_New plugins cenv bt ord resp configuration fs c = (case CfgInit cenv (cfMtn configuration) fs c of
      (CfgFailed, c1, fs1) \<Rightarrow> ((Some (Errorf ''Cant do cfgInit() inside daemon.New() for MTN''), daemon_empty, c1), fs1)
    | (CfgPanic, c1, fs1) \<Rightarrow> ((Some Panicked, daemon_empty, c1), fs1)
    | (CfgOk, c1, fs1) \<Rightarrow> (case PoolInit bt ord resp c1 of
         (r, c2) \<Rightarrow> (case pool_ready (cfAllowLocalState configuration) r of
            Some e \<Rightarrow> ((Some e, daemon_empty, c2), fs1)
          | None \<Rightarrow> (new_boxes plugins (cfIsolate configuration) [] daemon_empty c2, fs1))))"

section \<open>Serving\<close>

text \<open>\<^verbatim>\<open>net.Listen\<close> on every endpoint; the listeners made are closed when one cannot be.\<close>

fun listen_all :: "(string \<Rightarrow> derr + 'ln) \<Rightarrow> string list \<Rightarrow> 'ln list \<Rightarrow> (gerr \<times> 'ln list) + 'ln list" where
  "listen_all listen [] lns = Inr lns"
| "listen_all listen (endpoint # eps) lns = (case listen endpoint of
      Inl e \<Rightarrow> Inl (Reported e, lns)
    | Inr lis \<Rightarrow> listen_all listen eps (lns @ [lis]))"

definition ServeOnListeners :: "'ln list \<Rightarrow> ('box, 'ln) Daemon \<Rightarrow> ('box, 'ln) Daemon" where
  "ServeOnListeners lns d = (close_listeners (listeners d) d)\<lparr>listeners := lns\<rparr>"

definition Serve ::
  "(string \<Rightarrow> derr + 'ln) \<Rightarrow> 'arg Config \<Rightarrow> ('box, 'ln) Daemon \<Rightarrow> gerr option \<times> ('box, 'ln) Daemon" where
  "Serve listen cfg d = (case listen_all listen (cfEndpoints cfg) [] of
      Inl (e, lns) \<Rightarrow> (Some e, close_listeners lns d)
    | Inr lns \<Rightarrow> (None, ServeOnListeners lns d))"

text \<open>The handler of \<^verbatim>\<open>/inspect/<name>\<close>: the status and the body of its answer.\<close>

definition inspect_handler ::
  "('box \<Rightarrow> string \<Rightarrow> gerr + string) \<Rightarrow> ('box, 'ln) Daemon \<Rightarrow> string \<Rightarrow> string \<Rightarrow> string option \<Rightarrow> nat \<times> string" where
  "inspect_handler inspect d name httpMethod uuid =
     (if httpMethod \<noteq> ''GET'' \<and> httpMethod \<noteq> ''HEAD'' then (405, '''')
      else case map_of (boxes d) name of
          None \<Rightarrow> (400, ''Box '' @ name @ '' is unavailable'')
        | Some box \<Rightarrow>
            let workerid = (case uuid of None \<Rightarrow> '''' | Some u \<Rightarrow> u) in
            if workerid = '''' then (400, ''query arg uuid is not set'' @ [CHR 0x0A])
            else (case inspect box workerid of
                Inl e \<Rightarrow> (500, ''Box.Inspect '' @ name @ '' failed'' @ [CHR 0x0A])
              | Inr data \<Rightarrow> (200, data)))"

section \<open>Health checks (metrics.go)\<close>

text \<open>Both sides of the comparison are 64-bit unsigned integers.\<close>

definition fdHealthCheck :: "derr + u64 \<Rightarrow> u64 \<Rightarrow> bool" where
  "fdHealthCheck rlimit openFDs = (case rlimit of
      Inl _ \<Rightarrow> False
    | Inr cur \<Rightarrow> \<not> (openFDs \<ge> cur - 100))"

definition threadHealthCheck :: "int \<Rightarrow> bool" where
  "threadHealthCheck threads = (\<not> threads \<ge> 5000)"

section \<open>main\<close>

text \<open>The metrics are sent no more often than every five seconds, in nanoseconds here.\<close>

definition metrics_period :: "int \<Rightarrow> int" where
  "metrics_period period = (if period < 5000000000 then 5000000000 else period)"

definition read_config :: "('data \<Rightarrow> derr + 'arg Config) \<Rightarrow> derr + 'data \<Rightarrow> gerr + 'arg Config" where
  "read_config unmarshal file = (case file of
      Inl e \<Rightarrow> Inl (Reported e)
    | Inr data \<Rightarrow> (case Parse unmarshal data of
         Inl e \<Rightarrow> Inl e
       | Inr config \<Rightarrow> if cfVersion config \<noteq> 2 then Inl (Errorf ''invalid config version'') else Inr config))"

section \<open>Lemmas\<close>

text \<open>What \<^verbatim>\<open>New\<close> has built is either kept or closed, box by box.\<close>

lemma new_boxes_fails:
  "new_boxes plugins cfgs tys d s = (Some e, d', s') \<Longrightarrow>
   \<exists>bs. boxes d' = boxes d @ bs \<and> closedBoxes d' = closedBoxes d @ map snd (boxes d') \<and>
        map fst bs = map fst (take (length bs) cfgs) \<and> length bs < length cfgs"
proof (induction plugins cfgs tys d s rule: new_boxes.induct)
  case (2 plugins name ty args cfgs tys d s)
  show ?case
  proof (cases "ty \<in> set tys")
    case False
    obtain r s1 where r: "ConstructBox plugins ty args s = (r, s1)" by force
    show ?thesis
    proof (cases r)
      case (Inr box)
      from 2(1) [OF False r [symmetric] Inr] 2(2) False r Inr
      obtain bs where "boxes d' = boxes d @ (name, box) # bs" "closedBoxes d' = closedBoxes d @ map snd (boxes d')"
        "map fst bs = map fst (take (length bs) cfgs)" "length bs < length cfgs" by auto
      then show ?thesis by (intro exI [of _ "(name, box) # bs"]) simp
    qed (use 2(2) False r in \<open>auto simp: daemon_Close_def closeBoxes_def close_listeners_def intro!: exI [of _ "[]"]\<close>)
  qed (use 2(2) in \<open>auto simp: daemon_Close_def closeBoxes_def close_listeners_def intro!: exI [of _ "[]"]\<close>)
qed simp

lemma new_boxes_works:
  "new_boxes plugins cfgs tys d s = (None, d', s') \<Longrightarrow>
   \<exists>bs. boxes d' = boxes d @ bs \<and> map fst bs = map fst cfgs \<and> closedBoxes d' = closedBoxes d \<and>
     (distinct tys \<longrightarrow> distinct (rev (map (\<lambda>c. fst (snd c)) cfgs) @ tys)) \<and> set (map (\<lambda>c. fst (snd c)) cfgs) \<subseteq> dom plugins"
proof (induction plugins cfgs tys d s rule: new_boxes.induct)
  case (2 plugins name ty args cfgs tys d s)
  obtain r s1 where r: "ConstructBox plugins ty args s = (r, s1)" by force
  show ?case
  proof (cases r)
    case (Inr box)
    from 2(2) have n: "ty \<notin> set tys" by (auto split: if_splits)
    from 2(1) [OF n r [symmetric] Inr] 2(2) n r Inr
    obtain bs where "boxes d' = boxes d @ (name, box) # bs" "map fst bs = map fst cfgs" "closedBoxes d' = closedBoxes d"
      "distinct (ty # tys) \<longrightarrow> distinct (rev (map (\<lambda>c. fst (snd c)) cfgs) @ ty # tys)" "set (map (\<lambda>c. fst (snd c)) cfgs) \<subseteq> dom plugins"
      by auto
    moreover have "ty \<in> dom plugins" using r Inr by (auto simp: ConstructBox_def split: option.splits)
    ultimately show ?thesis using n by (intro exI [of _ "(name, box) # bs"]) auto
  qed (use 2(2) r in \<open>auto split: if_splits\<close>)
qed (auto)

lemma listen_all_Inr: "listen_all listen eps lns = Inr l \<Longrightarrow> \<exists>new. l = lns @ new \<and> map listen eps = map Inr new"
proof (induction listen eps lns rule: listen_all.induct)
  case (2 listen ep eps lns)
  then show ?case by (cases "listen ep") fastforce+
qed simp

lemma listen_all_Inl: "listen_all listen eps lns = Inl (e, l) \<Longrightarrow>
  \<exists>new. l = lns @ new \<and> map listen (take (length new) eps) = map Inr new \<and> length new < length eps"
proof (induction listen eps lns rule: listen_all.induct)
  case (2 listen ep eps lns)
  show ?case
  proof (cases "listen ep")
    case (Inr lis)
    from 2(1) [OF Inr] 2(2) Inr obtain new where "l = lns @ lis # new" "map listen (take (length new) eps) = map Inr new"
      "length new < length eps" by auto
    with Inr show ?thesis by (intro exI [of _ "lis # new"]) simp
  qed (use 2(2) in auto)
qed simp

end
