(* ===== verification/Mtn_Pool.thy ===== *)
theory Mtn_Pool
  imports Mtn "HOL-Library.AList"
begin

text \<open>
  The pool of allocations over a database that behaves as bolt documents it: what the operations
  of \<^verbatim>\<open>src/isolate/mtn.go\<close> do to the contents, and a database in memory that satisfies the
  hypothesis.
\<close>

section \<open>Transactions\<close>

definition pool :: "('db \<Rightarrow> contents) \<Rightarrow> 'db MtnState \<Rightarrow> contents option" where
  "pool dc c = map_option dc (Db c)"

lemma bolt_okD:
  assumes "bolt_ok bt dc tc"
  shows "Begin bt db = Inr tx \<Longrightarrow> tc tx = dc db"
    "distinct (Buckets bt tx)" "set (Buckets bt tx) = dom (tc tx)"
    "HasBucket bt tx n \<longleftrightarrow> tc tx n \<noteq> None"
    "CreateBucketIfNotExists bt tx n = Inr tx' \<Longrightarrow> tc tx' = (tc tx)(n \<mapsto> bucket_of (tc tx n))"
    "tc tx n = Some b \<Longrightarrow> distinct (map fst (Entries bt tx n))"
    "tc tx n = Some b \<Longrightarrow> map_of (Entries bt tx n) = b"
    "tc tx n = Some b \<Longrightarrow> BGet bt tx n k = b k"
    "tc tx n = Some b \<Longrightarrow> Put bt tx n k v = Inr tx' \<Longrightarrow> tc tx' = (tc tx)(n \<mapsto> b(k \<mapsto> v))"
    "Commit bt db tx = (None, db') \<Longrightarrow> dc db' = tc tx"
    "Commit bt db tx = (Some e, db') \<Longrightarrow> dc db' = dc db"
proof -
  note D = assms [unfolded bolt_ok_def]
  note D2 = D [THEN conjunct2]
  note D3 = D2 [THEN conjunct2]
  note D4 = D3 [THEN conjunct2]
  note D5 = D4 [THEN conjunct2]
  note D6 = D5 [THEN conjunct2]
  note D7 = D6 [THEN conjunct2]
  note D8 = D7 [THEN conjunct2]
  show "Begin bt db = Inr tx \<Longrightarrow> tc tx = dc db"
    by (rule D [THEN conjunct1, rule_format])
  show "distinct (Buckets bt tx)" "set (Buckets bt tx) = dom (tc tx)"
    using D2 [THEN conjunct1] by simp_all
  show "HasBucket bt tx n \<longleftrightarrow> tc tx n \<noteq> None"
    by (rule D3 [THEN conjunct1, rule_format])
  show "CreateBucketIfNotExists bt tx n = Inr tx' \<Longrightarrow> tc tx' = (tc tx)(n \<mapsto> bucket_of (tc tx n))"
    by (rule D4 [THEN conjunct1, rule_format])
  show "tc tx n = Some b \<Longrightarrow> distinct (map fst (Entries bt tx n))"
    "tc tx n = Some b \<Longrightarrow> map_of (Entries bt tx n) = b"
    using D5 [THEN conjunct1] by simp_all
  show "tc tx n = Some b \<Longrightarrow> BGet bt tx n k = b k"
    by (rule D6 [THEN conjunct1, rule_format])
  show "tc tx n = Some b \<Longrightarrow> Put bt tx n k v = Inr tx' \<Longrightarrow> tc tx' = (tc tx)(n \<mapsto> b(k \<mapsto> v))"
    by (rule D7 [THEN conjunct1, rule_format])
  show "Commit bt db tx = (None, db') \<Longrightarrow> dc db' = tc tx"
    by (rule D8 [THEN conjunct1, rule_format])
  show "Commit bt db tx = (Some e, db') \<Longrightarrow> dc db' = dc db"
    by (rule D8 [THEN conjunct2, rule_format])
qed

lemma create_Inr:
  "bolt_ok bt dc tc \<Longrightarrow> create bt n tx = (Inr u, tx') \<Longrightarrow> tc tx' = (tc tx)(n \<mapsto> bucket_of (tc tx n))"
  by (auto simp: create_def split: sum.splits dest: bolt_okD(5))

lemma put_Inr:
  "bolt_ok bt dc tc \<Longrightarrow> put bt n k v tx = (Inr u, tx') \<Longrightarrow> tc tx n = Some b \<Longrightarrow>
   tc tx' = (tc tx)(n \<mapsto> b(k \<mapsto> v))"
  by (auto simp: put_def split: sum.splits dest: bolt_okD(9))

lemma with_tx_Inr:
  assumes "bolt_ok bt dc tc" "with_tx bt f c = (Inr x, c')"
  obtains tx tx' where "pool dc c = Some (tc tx)" "f tx = (Inr x, tx')" "pool dc c' = Some (tc tx')" "Cfg c' = Cfg c"
proof -
  from assms(2) obtain db tx tx' db' where h: "Db c = Some db" "Begin bt db = Inr tx" "f tx = (Inr x, tx')"
      "Commit bt db tx' = (None, db')" "c' = c\<lparr>Db := Some db'\<rparr>"
    by (auto simp: with_tx_def split: option.splits sum.splits prod.splits)
  show thesis
    using h bolt_okD(1) [OF assms(1) h(2)] bolt_okD(10) [OF assms(1) h(4)] by (intro that [of tx tx']) (simp_all add: pool_def)
qed

lemma with_tx_Inl:
  assumes "bolt_ok bt dc tc" "with_tx bt f c = (Inl e, c')"
  shows "pool dc c' = pool dc c" "Cfg c' = Cfg c"
  using assms(2)
  by (auto simp: with_tx_def pool_def split: option.splits sum.splits prod.splits dest: bolt_okD(11) [OF assms(1)])

section \<open>What is stored\<close>

text \<open>The entries of a bucket are allocations under their own id.\<close>

definition bucket_ok :: "bucket \<Rightarrow> bool" where
  "bucket_ok b \<longleftrightarrow> (\<forall>k v. b k = Some v \<longrightarrow> (\<exists>a. v = Json a \<and> aId a = k))"

definition pool_ok :: "contents \<Rightarrow> bool" where
  "pool_ok m \<longleftrightarrow> (\<forall>n b. m n = Some b \<longrightarrow> bucket_ok b)"

definition is_used :: "stored option \<Rightarrow> bool" where
  "is_used o' = (case o' of Some (Json a) \<Rightarrow> aUsed a | _ \<Rightarrow> False)"

lemma is_used_Json [simp]: "is_used (Some (Json a)) = aUsed a" "\<not> is_used None"
  by (simp_all add: is_used_def)

definition in_use :: "contents \<Rightarrow> string \<Rightarrow> string \<Rightarrow> bool" where
  "in_use m n k = is_used (bucket_of (m n) k)"

lemma request_loop_ids:
  assumes "request_loop resp n i j r = Inr r'" "\<forall>k a. r k = Some a \<longrightarrow> aId a = k \<and> aNetId a = n \<and> \<not> aUsed a"
  shows "\<forall>k a. r' k = Some a \<longrightarrow> aId a = k \<and> aNetId a = n \<and> \<not> aUsed a"
  using assms
proof (induction j arbitrary: i r)
  case 0
  then show ?case by simp
next
  case (Suc j)
  from Suc.prems(1) obtain a where a: "resp i = Response (Some a)"
    by (auto split: http.splits option.splits)
  show ?case by (rule Suc.IH [OF Suc.prems(1) [simplified a request_loop.simps http.case option.case]])
    (use Suc.prems(2) in auto)
qed

lemma RequestAllocs_ids:
  assumes "RequestAllocs resp cfg n = Inr r" "r k = Some a"
  shows "aId a = k" "aNetId a = n" "\<not> aUsed a"
  using request_loop_ids [OF assms(1) [unfolded RequestAllocs_def]] assms(2) by auto

text \<open>Writing a list of allocations into a bucket.\<close>

definition stores :: "bucket \<Rightarrow> (string \<times> Allocation) list \<Rightarrow> bucket" where
  "stores b ps = b ++ map_of (rev (map (\<lambda>(k, a). (k, Json a)) ps))"

lemma stores_Cons: "stores b ((k, a) # ps) = stores (b(k \<mapsto> Json a)) ps"
  by (simp add: stores_def map_add_def fun_eq_iff split: option.split)

lemma put_allocs_Inr:
  assumes "bolt_ok bt dc tc"
  shows "put_allocs bt n ps tx = (Inr u, tx') \<Longrightarrow> tc tx n = Some b \<Longrightarrow> tc tx' = (tc tx)(n \<mapsto> stores b ps)"
proof (induction ps arbitrary: tx b)
  case Nil
  then show ?case by (auto simp: rd_return_def stores_def)
next
  case (Cons p ps)
  obtain k a where p: "p = (k, a)" by (cases p)
  from Cons.prems(1) obtain tx1 where "put bt n k (Json a) tx = (Inr (), tx1)" "put_allocs bt n ps tx1 = (Inr u, tx')"
    by (auto simp: p rd_bind_eq_Inr)
  note t = this
  have t1: "tc tx1 = (tc tx)(n \<mapsto> b(k \<mapsto> Json a))" by (rule put_Inr [OF assms t(1) Cons.prems(2)])
  then have "tc tx1 n = Some (b(k \<mapsto> Json a))" by simp
  from Cons.IH [OF t(2) this] show ?case by (simp only: t1 p stores_Cons fun_upd_upd)
qed

text \<open>\<^verbatim>\<open>range\<close> visits every key of a map once.\<close>

definition visits :: "alloc_order \<Rightarrow> (string \<rightharpoonup> Allocation) \<Rightarrow> bool" where
  "visits ord m \<longleftrightarrow> distinct (ord m) \<and> set (ord m) = dom m"

lemma map_of_listing:
  assumes "visits ord m"
  shows "map_of (listing ord m) = m" "distinct (map fst (listing ord m))"
proof -
  have "map_of (map (\<lambda>k. (k, the (m k))) ks) = (\<lambda>k. if k \<in> set ks then Some (the (m k)) else None)" for ks
    by (induction ks) auto
  then show "map_of (listing ord m) = m"
    using assms by (auto simp: listing_def visits_def fun_eq_iff domIff)
  show "distinct (map fst (listing ord m))"
    using assms by (simp add: listing_def visits_def comp_def)
qed

lemma stores_distinct:
  "distinct (map fst ps) \<Longrightarrow>
   stores b ps k = (case map_of ps k of None \<Rightarrow> b k | Some a \<Rightarrow> Some (Json a))"
proof (induction ps arbitrary: b)
  case Nil
  then show ?case by (simp add: stores_def)
next
  case (Cons p ps)
  obtain k' a where p: "p = (k', a)" by (cases p)
  then have "map_of ps k' = None" using Cons.prems by (simp add: map_of_eq_None_iff)
  then show ?case using Cons by (simp add: p stores_Cons split: option.split)
qed

section \<open>Taking an allocation\<close>

text \<open>What the allocator gives out now is not in use in the pool.\<close>

definition fresh_response :: "contents \<Rightarrow> (nat \<Rightarrow> RawAlloc http) \<Rightarrow> MtnCfg \<Rightarrow> string \<Rightarrow> bool" where
  "fresh_response m resp cfg netId \<longleftrightarrow>
     (\<forall>allocs k. RequestAllocs resp cfg netId = Inr allocs \<longrightarrow> allocs k \<noteq> None \<longrightarrow> \<not> in_use m netId k)"

text \<open>A bucket after an allocation was taken from it: one more in use, none lost.\<close>

definition taken :: "bucket \<Rightarrow> bucket \<Rightarrow> string \<Rightarrow> Allocation \<Rightarrow> bool" where
  "taken b b' box a \<longleftrightarrow> aUsed a \<and> aBox a = box \<and> b' (aId a) = Some (Json a) \<and> \<not> is_used (b (aId a)) \<and>
     (\<forall>k. k \<noteq> aId a \<longrightarrow> is_used (b' k) = is_used (b k)) \<and> (\<forall>k. b k \<noteq> None \<longrightarrow> b' k \<noteq> None)"

lemma find_free:
  assumes "bolt_ok bt dc tc" "tc tx n = Some b" "find (\<lambda>(k, v). DbAllocIsFree v) (Entries bt tx n) = Some (k, v)"
  shows "b k = Some v" "DbAllocIsFree v"
proof -
  from assms(3) obtain i where "i < length (Entries bt tx n)" "Entries bt tx n ! i = (k, v)" and f: "DbAllocIsFree v"
    by (auto simp: find_Some_iff)
  then have "(k, v) \<in> set (Entries bt tx n)" by (metis nth_mem)
  then have "map_of (Entries bt tx n) k = Some v"
    using bolt_okD(6) [OF assms(1,2)] by simp
  then show "b k = Some v" using bolt_okD(7) [OF assms(1,2)] by simp
  show "DbAllocIsFree v" by (rule f)
qed

lemma find_none:
  assumes "bolt_ok bt dc tc" "tc tx n = Some b" "find (\<lambda>(k, v). DbAllocIsFree v) (Entries bt tx n) = None"
    "b k = Some (Json a)"
  shows "aUsed a"
proof -
  have "(k, Json a) \<in> set (Entries bt tx n)"
    using assms(4) bolt_okD(7) [OF assms(1,2)] map_of_SomeD by metis
  then have "\<not> DbAllocIsFree (Json a)" using assms(3) by (auto simp: find_None_iff)
  then show ?thesis by (simp add: DbAllocIsFree_def)
qed

lemma GetDbAlloc_found:
  assumes ok: "bolt_ok bt dc tc" and b: "tc tx n = Some b" "bucket_ok b"
    and f: "find (\<lambda>(k, v). DbAllocIsFree v) (Entries bt tx n) = Some (k, v)"
    and g: "GetDbAlloc bt ord resp cfg n box tx = (Inr a, tx')"
  shows "tc tx' = (tc tx)(n \<mapsto> b(aId a \<mapsto> Json a))" "taken b (b(aId a \<mapsto> Json a)) box a"
proof -
  note kv = find_free [OF ok b(1) f]
  obtain a0 where v: "v = Json a0" "aId a0 = k" using kv(1) b(2) unfolding bucket_ok_def by blast
  have u: "\<not> aUsed a0" using kv(2) v(1) by (simp add: DbAllocIsFree_def)
  have h: "HasBucket bt tx n" using bolt_okD(4) [OF ok] b(1) by simp
  from g have p: "put bt n k (Json a) tx = (Inr (), tx')" and a: "a = a0\<lparr>aUsed := True, aBox := box\<rparr>"
    by (auto simp: GetDbAlloc_def h f v Let_def rd_bind_eq_Inr rd_return_def)
  have "aId a = k" using a v(2) by simp
  then show "tc tx' = (tc tx)(n \<mapsto> b(aId a \<mapsto> Json a))" using put_Inr [OF ok p b(1)] by simp
  show "taken b (b(aId a \<mapsto> Json a)) box a"
    using kv(1) v u a by (auto simp: taken_def is_used_def)
qed

text \<open>The other path: the pool has nothing free and the allocator is asked.\<close>

lemma create_known:
  assumes "bolt_ok bt dc tc" "tc tx n = Some b" "create bt n tx = (res, tx')"
  shows "tc tx' = tc tx"
proof (cases res)
  case (Inl e)
  then show ?thesis using assms(3) by (auto simp: create_def split: sum.splits)
next
  case (Inr u)
  then show ?thesis using create_Inr [OF assms(1)] assms(2,3) by (simp add: bucket_of_def fun_upd_idem)
qed

lemma ignore_count:
  assumes "bolt_ok bt dc tc" "tc tx n = Some b" "ignore (CountFreeAllocs bt n) tx = (Inr u, tx1)"
  shows "tc tx1 = tc tx"
  using assms(3) create_known [OF assms(1,2)]
  by (auto simp: ignore_def CountFreeAllocs_def rd_bind_def look_def split: prod.splits sum.splits)

lemma taken_requested:
  assumes "visits ord allocs" "\<And>k a. allocs k = Some a \<Longrightarrow> aId a = k \<and> \<not> aUsed a \<and> \<not> is_used (b k)"
    "take_first box (listing ord allocs) = (k, a) # ps"
  shows "taken b (stores b ((k, a) # ps)) box a" "aId a = k"
proof -
  obtain a0 where l: "listing ord allocs = (k, a0) # ps" and a: "a = a0\<lparr>aUsed := True, aBox := box\<rparr>"
    using assms(3) by (auto simp: take_first_def split: list.splits)
  note m = map_of_listing [OF assms(1), unfolded l]
  have "allocs k = Some a0" using fun_cong [OF m(1), of k] by simp
  then have k: "aId a = k" "\<not> is_used (b k)" using assms(2) a by auto
  have st: "stores b ((k, a) # ps) k' = (if k' = k then Some (Json a) else
      case allocs k' of None \<Rightarrow> b k' | Some x \<Rightarrow> Some (Json x))" for k'
    using stores_distinct [of "(k, a) # ps" b k'] m(2) fun_cong [OF m(1), of k'] by auto
  show "aId a = k" by (rule k(1))
  show "taken b (stores b ((k, a) # ps)) box a"
    unfolding taken_def k(1) st using k a assms(2) by (auto split: option.splits)
qed

lemma GetDbAlloc_requested:
  assumes ok: "bolt_ok bt dc tc" and b: "tc tx n = Some b"
    and v: "\<And>allocs. RequestAllocs resp cfg n = Inr allocs \<Longrightarrow> visits ord allocs"
    and fr: "fresh_response (tc tx) resp cfg n"
    and f: "find (\<lambda>(k, v). DbAllocIsFree v) (Entries bt tx n) = None"
    and g: "GetDbAlloc bt ord resp cfg n box tx = (Inr a, tx')"
  obtains b' where "tc tx' = (tc tx)(n \<mapsto> b')" "taken b b' box a"
proof -
  have h: "HasBucket bt tx n" using bolt_okD(4) [OF ok] b(1) by simp
  from g obtain allocs tx1 tx2 k ps u
    where r: "RequestAllocs resp cfg n = Inr allocs" and t1: "ignore (CountFreeAllocs bt n) tx = (Inr u, tx1)"
    and t2: "create bt n tx1 = (Inr (), tx2)"
    and t3: "put_allocs bt n ((k, a) # ps) tx2 = (Inr (), tx')"
    and l: "take_first box (listing ord allocs) = (k, a) # ps"
    by (auto simp: GetDbAlloc_def h f Let_def rd_bind_eq_Inr rd_return_def rd_fail_def
        simp del: put_allocs.simps split: sum.splits list.splits)
  have c1: "tc tx1 = tc tx" using ignore_count [OF ok b t1] .
  have c2: "tc tx2 = tc tx" using create_known [OF ok _ t2] b c1 by simp
  have "tc tx' = (tc tx)(n \<mapsto> stores b ((k, a) # ps))"
    using put_allocs_Inr [OF ok t3] b c2 by simp
  moreover have "taken b (stores b ((k, a) # ps)) box a"
    using RequestAllocs_ids [OF r] fr r b v [OF r] l
    by (intro taken_requested(1)) (auto simp: fresh_response_def in_use_def bucket_of_def)
  ultimately show thesis by (rule that)
qed

text \<open>Both paths together.\<close>

lemma GetDbAlloc_taken:
  assumes ok: "bolt_ok bt dc tc" and m: "pool_ok (tc tx)"
    and v: "\<And>allocs. RequestAllocs resp cfg n = Inr allocs \<Longrightarrow> visits ord allocs"
    and fr: "fresh_response (tc tx) resp cfg n"
    and g: "GetDbAlloc bt ord resp cfg n box tx = (Inr a, tx')"
  obtains b b' where "tc tx n = Some b" "tc tx' = (tc tx)(n \<mapsto> b')" "taken b b' box a"
proof -
  have "HasBucket bt tx n" using g by (auto simp: GetDbAlloc_def split: if_splits)
  then obtain b where b: "tc tx n = Some b" using bolt_okD(4) [OF ok] by auto
  then have "bucket_ok b" using m by (simp add: pool_ok_def)
  show thesis
  proof (cases "find (\<lambda>(k, v). DbAllocIsFree v) (Entries bt tx n)")
    case None
    show thesis by (rule GetDbAlloc_requested [OF ok b v fr None g]) (auto intro: that [OF b])
  next
    case (Some kv)
    obtain k v where "kv = (k, v)" by (cases kv)
    then show thesis using GetDbAlloc_found [OF ok b \<open>bucket_ok b\<close> _ g] Some that [OF b] by blast
  qed
qed

lemma taken_in_use:
  assumes "m n = Some b" "taken b b' box a" "m' = m(n \<mapsto> b')"
  shows "\<not> in_use m n (aId a)" "in_use m' n' k \<longleftrightarrow> in_use m n' k \<or> n' = n \<and> k = aId a"
  using assms by (cases "k = aId a"; auto simp: in_use_def bucket_of_def taken_def)+

section \<open>Giving an allocation back\<close>

lemma free_alloc_Inr:
  assumes ok: "bolt_ok bt dc tc" and f: "free_alloc bt n k tx = (Inr u, tx')"
  obtains b a where "tc tx n = Some b" "b k = Some (Json a)" "tc tx' = (tc tx)(n \<mapsto> b(k \<mapsto> Json (a\<lparr>aUsed := False\<rparr>)))"
proof -
  have "HasBucket bt tx n" using f by (auto simp: free_alloc_def split: if_splits)
  then obtain b where b: "tc tx n = Some b" using bolt_okD(4) [OF ok] by auto
  obtain a where a: "b k = Some (Json a)" and p: "put bt n k (Json (a\<lparr>aUsed := False\<rparr>)) tx = (Inr u, tx')"
    using f bolt_okD(8) [OF ok b, of k] by (auto simp: free_alloc_def split: if_splits option.splits stored.splits)
  show thesis using put_Inr [OF ok p b] by (rule that [OF b a])
qed

lemma freed_in_use:
  assumes "m n = Some b" "b k = Some (Json a)" "m' = m(n \<mapsto> b(k \<mapsto> Json (a\<lparr>aUsed := False\<rparr>)))"
  shows "in_use m' n' k' \<longleftrightarrow> in_use m n' k' \<and> (n', k') \<noteq> (n, k)"
  using assms by (auto simp: in_use_def bucket_of_def)

section \<open>Counting\<close>

lemma used_entries_count:
  assumes "used_entries es allocs stat = (None, allocs', stat')"
  shows "Total stat' = Total stat + int (length es)"
    "Total stat' - Free stat' - UsedCount stat' = Total stat - Free stat - UsedCount stat"
    "UsedCount stat' = UsedCount stat + int (length allocs') - int (length allocs)"
    "allocs' = allocs @ [a. (k, Json a) \<leftarrow> es, aUsed a]" "MtnEnabled stat' = MtnEnabled stat"
  using assms
  by (induction es allocs stat rule: used_entries.induct)
    (auto simp: DbAllocIsFree_def Let_def split: if_splits stored.splits)

lemma used_buckets_count:
  assumes "used_buckets bt tx ns allocs stat = (None, allocs', stat')"
  shows "Total stat' - Free stat' - UsedCount stat' = Total stat - Free stat - UsedCount stat"
    "UsedCount stat' = UsedCount stat + int (length allocs') - int (length allocs)"
    "allocs' = allocs @ [a. n \<leftarrow> ns, (k, Json a) \<leftarrow> Entries bt tx n, aUsed a]"
  using assms
proof (induction ns arbitrary: allocs stat)
  case (Cons n ns)
  case 1
  then show ?case using Cons(1) used_entries_count(2) by (fastforce split: prod.splits option.splits)
next
  case (Cons n ns)
  case 2
  then show ?case using Cons(2) used_entries_count(3) by (fastforce split: prod.splits option.splits)
next
  case (Cons n ns)
  case 3
  then show ?case using Cons(3) used_entries_count(4) by (fastforce split: prod.splits option.splits)
qed simp_all

lemma used_listed:
  assumes "bolt_ok bt dc tc"
  shows "set [a. n \<leftarrow> Buckets bt tx, (k, Json a) \<leftarrow> Entries bt tx n, aUsed a] =
    {a. \<exists>n b k. tc tx n = Some b \<and> b k = Some (Json a) \<and> aUsed a}"
proof -
  have "(k, v) \<in> set (Entries bt tx n) \<longleftrightarrow> b k = Some v" if "tc tx n = Some b" for n b k v
    using bolt_okD(6,7) [OF assms that] by (metis map_of_eq_Some_iff)
  then show ?thesis
    using bolt_okD(3) [OF assms, of tx] by (auto split: stored.splits if_splits; fastforce)
qed

section \<open>Refilling\<close>

lemma UseAlloc_exclusive:
  assumes "bolt_ok bt dc tc" "pool dc c = Some m" "pool_ok m"
    "\<And>allocs. RequestAllocs resp (Cfg c) netId = Inr allocs \<Longrightarrow> visits ord allocs"
    "fresh_response m resp (Cfg c) netId"
    "UseAlloc bt ord resp netId box c = (Inr a, c')"
  shows "\<exists>m'. pool dc c' = Some m' \<and> aUsed a \<and> aBox a = box \<and> \<not> in_use m netId (aId a) \<and>
    bucket_of (m' netId) (aId a) = Some (Json a) \<and>
    (\<forall>n k. in_use m' n k \<longleftrightarrow> in_use m n k \<or> n = netId \<and> k = aId a)"
proof -
  obtain tx tx' where t: "pool dc c = Some (tc tx)" "GetDbAlloc bt ord resp (Cfg c) netId box tx = (Inr a, tx')"
      "pool dc c' = Some (tc tx')"
    using with_tx_Inr [OF assms(1) assms(6) [unfolded UseAlloc_def]] by metis
  then have m: "m = tc tx" using assms(2) by simp
  obtain b b' where b: "tc tx netId = Some b" "tc tx' = (tc tx)(netId \<mapsto> b')" "taken b b' box a"
    by (rule GetDbAlloc_taken [OF assms(1) _ assms(4) _ t(2)]) (use assms(3,5) m in auto)
  then show ?thesis
    using t(3) taken_in_use [OF b(1,3,2)] by (auto simp: m taken_def bucket_of_def)
qed

lemma FreeDbAlloc_releases:
  assumes "bolt_ok bt dc tc" "pool dc c = Some m" "FreeDbAlloc bt netId i c = (Inr u, c')"
  shows "\<exists>m'. pool dc c' = Some m' \<and> (\<forall>n k. in_use m' n k \<longleftrightarrow> in_use m n k \<and> (n, k) \<noteq> (netId, i))"
proof -
  obtain tx tx' where t: "pool dc c = Some (tc tx)" "free_alloc bt netId i tx = (Inr u, tx')" "pool dc c' = Some (tc tx')"
    using with_tx_Inr [OF assms(1) assms(3) [unfolded FreeDbAlloc_def]] by metis
  obtain b a where b: "tc tx netId = Some b" "b i = Some (Json a)"
      "tc tx' = (tc tx)(netId \<mapsto> b(i \<mapsto> Json (a\<lparr>aUsed := False\<rparr>)))"
    by (rule free_alloc_Inr [OF assms(1) t(2)])
  then show ?thesis using t assms(2) freed_in_use [OF b] by auto
qed

lemma UsedAllocations_exact:
  assumes "bolt_ok bt dc tc" "Enable (Cfg c)" "pool dc c = Some m" "UsedAllocations bt c = ((None, allocs, stat), c')"
  shows "Total stat = Free stat + UsedCount stat \<and> UsedCount stat = int (length allocs) \<and>
    set allocs = {a. \<exists>n b k. m n = Some b \<and> b k = Some (Json a) \<and> aUsed a} \<and> pool dc c' = Some m"
proof -
  obtain db tx db' where h: "Db c = Some db" "Begin bt db = Inr tx" "Commit bt db tx = (None, db')" "c' = c\<lparr>Db := Some db'\<rparr>"
      "used_buckets bt tx (Buckets bt tx) [] \<lparr>Total = 0, Free = 0, UsedCount = 0, MtnEnabled = True\<rparr> = (None, allocs, stat)"
    using assms(2,4) by (auto simp: UsedAllocations_def Let_def split: option.splits sum.splits prod.splits)
  have m: "m = tc tx" using assms(3) h(1) bolt_okD(1) [OF assms(1) h(2)] by (simp add: pool_def)
  then have "pool dc c' = Some m" using h(4) bolt_okD(10) [OF assms(1) h(3)] by (simp add: pool_def)
  then show ?thesis
    using used_buckets_count [OF h(5)] used_listed [OF assms(1), of tx] by (simp add: m)
qed

definition free_keys :: "bucket \<Rightarrow> string set" where
  "free_keys b = {k. \<exists>a. b k = Some (Json a) \<and> \<not> aUsed a}"

lemma free_entries:
  assumes "bolt_ok bt dc tc" "tc tx n = Some b"
  shows "length (filter (\<lambda>(k, v). DbAllocIsFree v) (Entries bt tx n)) = card (free_keys b)" "finite (free_keys b)"
proof -
  let ?es = "filter (\<lambda>(k, v). DbAllocIsFree v) (Entries bt tx n)"
  note d = bolt_okD(6) [OF assms] and m = bolt_okD(7) [OF assms]
  have iff: "(k, v) \<in> set (Entries bt tx n) \<longleftrightarrow> b k = Some v" for k v using d m by (metis map_of_eq_Some_iff)
  have "DbAllocIsFree v \<longleftrightarrow> (\<exists>a. v = Json a \<and> \<not> aUsed a)" for v by (cases v) (auto simp: DbAllocIsFree_def)
  then have s: "set (map fst ?es) = free_keys b" using iff by (force simp: free_keys_def)
  have "distinct (map fst ?es)" using d by (simp add: distinct_map_filter)
  then show "length ?es = card (free_keys b)" using s distinct_card by fastforce
  show "finite (free_keys b)" using s by (metis List.finite_set)
qed

definition response_id :: "(nat \<Rightarrow> RawAlloc http) \<Rightarrow> nat \<Rightarrow> string" where
  "response_id resp i = (case resp i of Response (Some a) \<Rightarrow> rId a | _ \<Rightarrow> '''')"

lemma request_loop_dom:
  "request_loop resp n i j r = Inr r' \<Longrightarrow> dom r' = dom r \<union> set (map (response_id resp) [i..<i + j])"
proof (induction j arbitrary: i r)
  case (Suc j)
  from Suc.prems obtain a where a: "resp i = Response (Some a)"
    by (auto split: http.splits option.splits)
  have "[i..<i + Suc j] = i # [Suc i..<Suc i + j]" by (simp add: upt_conv_Cons)
  then show ?case
    using Suc.IH [OF Suc.prems [simplified a request_loop.simps http.case option.case]]
    by (auto simp: response_id_def a)
qed simp

text \<open>The ids of the answers to one call; the map the call returns has each of them once.\<close>

definition response_ids :: "(nat \<Rightarrow> RawAlloc http) \<Rightarrow> MtnCfg \<Rightarrow> string list" where
  "response_ids resp cfg = map (response_id resp) [0..<nat (Allocbuffer cfg)]"

lemma RequestAllocs_dom: "RequestAllocs resp cfg n = Inr allocs \<Longrightarrow> dom allocs = set (response_ids resp cfg)"
  using request_loop_dom unfolding RequestAllocs_def response_ids_def by fastforce

text \<open>The body of \<^verbatim>\<open>BindAllocs\<close> finds a buffer of free allocations or records what it asks for.\<close>

lemma bind_body_Inr:
  assumes ok: "bolt_ok bt dc tc" and f: "bind_body bt ord resp cfg n tx = (Inr u, tx')"
    and v: "\<And>allocs. RequestAllocs resp cfg n = Inr allocs \<Longrightarrow> visits ord allocs"
  obtains b where "b = bucket_of (tc tx n)" "tc tx' = (tc tx)(n \<mapsto> b)" "Allocbuffer cfg \<le> int (card (free_keys b))"
  | b allocs where "b = bucket_of (tc tx n)" "RequestAllocs resp cfg n = Inr allocs"
      "tc tx' = (tc tx)(n \<mapsto> (\<lambda>k. case allocs k of None \<Rightarrow> b k | Some a \<Rightarrow> Some (Json a)))"
proof -
  let ?b = "bucket_of (tc tx n)"
  from f obtain tx1 where t1: "create bt n tx = (Inr (), tx1)"
    by (auto simp: bind_body_def CountFreeAllocs_def rd_bind_eq_Inr)
  have c1: "tc tx1 = (tc tx)(n \<mapsto> ?b)" by (rule create_Inr [OF ok t1])
  then have b1: "tc tx1 n = Some ?b" by simp
  have cnt: "CountFreeAllocs bt n tx = (Inr (int (card (free_keys ?b))), tx1)"
    using t1 free_entries(1) [OF ok b1] by (simp add: CountFreeAllocs_def rd_bind_def look_def)
  show thesis
  proof (cases "Allocbuffer cfg > int (card (free_keys ?b))")
    case False
    then show thesis using f cnt c1 that(1) [of ?b] by (simp add: bind_body_def rd_bind_def rd_return_def)
  next
    case True
    then obtain allocs tx2 where r: "RequestAllocs resp cfg n = Inr allocs" and t2: "create bt n tx1 = (Inr (), tx2)"
      and t3: "put_allocs bt n (listing ord allocs) tx2 = (Inr u, tx')"
      using f cnt by (auto simp: bind_body_def rd_bind_eq_Inr rd_fail_def split: sum.splits)
    have c2: "tc tx2 = tc tx1" by (rule create_known [OF ok b1 t2])
    have l: "map_of (listing ord allocs) = allocs" "distinct (map fst (listing ord allocs))"
      using map_of_listing [OF v [OF r]] by auto
    have "tc tx' = (tc tx2)(n \<mapsto> stores ?b (listing ord allocs))"
      by (rule put_allocs_Inr [OF ok t3]) (simp add: c2 b1)
    moreover have "stores ?b (listing ord allocs) = (\<lambda>k. case allocs k of None \<Rightarrow> ?b k | Some a \<Rightarrow> Some (Json a))"
      using stores_distinct [OF l(2)] l(1) by auto
    ultimately show thesis using that(2) [OF refl r] by (simp only: c2 c1 fun_upd_upd)
  qed
qed

lemma refilled_free:
  assumes "RequestAllocs resp cfg n = Inr allocs" "finite (free_keys b)"
    "b' = (\<lambda>k. case allocs k of None \<Rightarrow> b k | Some a \<Rightarrow> Some (Json a))"
  shows "set (response_ids resp cfg) \<subseteq> free_keys b'" "card (set (response_ids resp cfg)) \<le> card (free_keys b')"
proof -
  note d = RequestAllocs_dom [OF assms(1)]
  show sub: "set (response_ids resp cfg) \<subseteq> free_keys b'"
    using RequestAllocs_ids(3) [OF assms(1)] assms(3) unfolding d [symmetric] by (auto simp: free_keys_def)
  have "free_keys b' \<subseteq> free_keys b \<union> dom allocs"
    using assms(3) by (auto simp: free_keys_def split: option.splits)
  then have "finite (free_keys b')" using finite_subset assms(2) d by (metis finite_Un finite_set)
  then show "card (set (response_ids resp cfg)) \<le> card (free_keys b')" using sub by (rule card_mono)
qed

lemma empty_free [simp]: "free_keys Map.empty = {}"
  by (simp add: free_keys_def)

lemma bucket_finite: "bolt_ok bt dc tc \<Longrightarrow> finite (free_keys (bucket_of (tc tx n)))"
  by (cases "tc tx n") (auto simp: bucket_of_def free_entries(2))

section \<open>Recording what the allocator already gave out\<close>

definition extends :: "contents \<Rightarrow> contents \<Rightarrow> bool" where
  "extends m m' \<longleftrightarrow>
     (\<forall>n k v. bucket_of (m n) k = Some v \<longrightarrow> bucket_of (m' n) k = Some v) \<and>
     (\<forall>n k. in_use m' n k \<longleftrightarrow> in_use m n k) \<and> (pool_ok m \<longrightarrow> pool_ok m')"

lemma extends_refl: "extends m m"
  by (simp add: extends_def)

lemma extends_trans: "extends m1 m2 \<Longrightarrow> extends m2 m3 \<Longrightarrow> extends m1 m3"
  by (auto simp: extends_def)

lemma extends_create: "extends m (m(n \<mapsto> bucket_of (m n)))"
  by (auto simp: extends_def in_use_def bucket_of_def pool_ok_def bucket_ok_def split: option.splits)

lemma extends_put:
  assumes "m n = Some b" "b (aId a) = None" "\<not> aUsed a"
  shows "extends m (m(n \<mapsto> b(aId a \<mapsto> Json a)))"
  using assms by (auto simp: extends_def in_use_def bucket_of_def pool_ok_def bucket_ok_def)

lemma pool_net_Inr:
  assumes ok: "bolt_ok bt dc tc"
  shows "pool_net bt n as tx = (Inr u, tx') \<Longrightarrow>
    extends (tc tx) (tc tx') \<and> (\<forall>a\<in>set as. bucket_of (tc tx' n) (aId a) \<noteq> None)"
proof (induction as arbitrary: tx)
  case Nil
  then show ?case by (simp add: rd_return_def extends_refl)
next
  case (Cons a as)
  let ?a = "a\<lparr>aNetId := n, aBox := [], aUsed := False\<rparr>" and ?b = "bucket_of (tc tx n)"
  from Cons.prems obtain tx1 tx2 where t1: "create bt n tx = (Inr (), tx1)"
    and t2: "(if BGet bt tx1 n (aId a) = None then put bt n (aId a) (Json ?a) else rd_return ()) tx1 = (Inr (), tx2)"
    and t3: "pool_net bt n as tx2 = (Inr u, tx')"
    by (auto simp: rd_bind_eq_Inr look_def)
  have c1: "tc tx1 = (tc tx)(n \<mapsto> ?b)" by (rule create_Inr [OF ok t1])
  have b1: "tc tx1 n = Some ?b" using c1 by simp
  have g: "BGet bt tx1 n (aId a) = ?b (aId a)" by (rule bolt_okD(8) [OF ok b1])
  have e2: "extends (tc tx1) (tc tx2) \<and> bucket_of (tc tx2 n) (aId a) \<noteq> None"
  proof (cases "?b (aId a)")
    case None
    then have "put bt n (aId a) (Json ?a) tx1 = (Inr (), tx2)" using t2 g by simp
    from put_Inr [OF ok this b1] have "tc tx2 = (tc tx1)(n \<mapsto> ?b(aId a \<mapsto> Json ?a))" .
    then show ?thesis using extends_put [where m = "tc tx1" and n = n and b = ?b and a = ?a] b1 None by (simp add: bucket_of_def)
  next
    case (Some v)
    then show ?thesis using t2 g b1 by (simp add: rd_return_def extends_refl bucket_of_def)
  qed
  have "extends (tc tx) (tc tx1)" using extends_create c1 by simp
  with e2 Cons.IH [OF t3] show ?case
    using extends_trans by (fastforce simp: extends_def)
qed

lemma pool_nets_Inr:
  assumes ok: "bolt_ok bt dc tc"
  shows "pool_nets bt ps tx = (Inr u, tx') \<Longrightarrow>
    extends (tc tx) (tc tx') \<and> (\<forall>(n, as)\<in>set ps. \<forall>a\<in>set as. bucket_of (tc tx' n) (aId a) \<noteq> None)"
proof (induction ps arbitrary: tx)
  case Nil
  then show ?case by (simp add: rd_return_def extends_refl)
next
  case (Cons p ps)
  obtain n as where p: "p = (n, as)" by (cases p)
  from Cons.prems obtain tx1 where t1: "pool_net bt n as tx = (Inr (), tx1)" and t2: "pool_nets bt ps tx1 = (Inr u, tx')"
    by (auto simp: p rd_bind_eq_Inr)
  show ?case
    using pool_net_Inr [OF ok t1] Cons.IH [OF t2] extends_trans p by (fastforce simp: extends_def)
qed

section \<open>A database in memory\<close>

text \<open>
  A database that satisfies \<^const>\<open>bolt_ok\<close>: association lists of buckets, with the refusal of empty
  keys and names that bolt documents.
\<close>

type_synonym mem = "(string \<times> (string \<times> stored) list) list"

definition mem_contents :: "mem \<Rightarrow> contents" where
  "mem_contents db n = map_option map_of (map_of db n)"

definition mem_bucket :: "mem \<Rightarrow> string \<Rightarrow> (string \<times> stored) list" where
  "mem_bucket db n = (case map_of db n of None \<Rightarrow> [] | Some b \<Rightarrow> b)"

definition mem_bolt :: "(mem, mem) bolt" where
  "mem_bolt = \<lparr>Begin = (\<lambda>db. Inr db),
     Buckets = (\<lambda>tx. map fst (AList.clearjunk tx)),
     HasBucket = (\<lambda>tx n. map_of tx n \<noteq> None),
     CreateBucketIfNotExists = (\<lambda>tx n. if n = [] then Inl ''bucket name required''
       else Inr (AList.update n (mem_bucket tx n) tx)),
     Entries = (\<lambda>tx n. AList.clearjunk (mem_bucket tx n)),
     BGet = (\<lambda>tx n k. map_of (mem_bucket tx n) k),
     Put = (\<lambda>tx n k v. if k = [] then Inl ''key required''
       else Inr (AList.update n (AList.update k v (mem_bucket tx n)) tx)),
     Commit = (\<lambda>db tx. (None, tx))\<rparr>"

lemma mem_contents_update: "mem_contents (AList.update n b db) = (mem_contents db)(n \<mapsto> map_of b)"
  by (auto simp: mem_contents_def update_conv')

lemma mem_bucket_of: "map_of (mem_bucket db n) = bucket_of (mem_contents db n)"
  by (cases "map_of db n") (auto simp: mem_bucket_def mem_contents_def bucket_of_def)

lemma mem_bolt_ok: "bolt_ok mem_bolt mem_contents mem_contents"
proof -
  have "dom (mem_contents tx) = fst ` set tx" for tx
    using dom_map_of_conv_image_fst [of tx] by (simp add: mem_contents_def dom_def)
  then show ?thesis
    by (auto simp: bolt_ok_def mem_bolt_def mem_contents_update mem_bucket_of update_conv' map_of_clearjunk
        dom_clearjunk clearjunk_keys_set mem_contents_def [of _ "_ :: string"] bucket_of_def split: if_splits)
qed

end
