(* ===== verification/Mtn_Props.thy ===== *)
theory Mtn_Props
  imports Mtn_Pool
begin

text \<open>
  The properties of the network allocations: an allocation is handed out to one box at a time, a
  failed operation leaves the pool, refilling refills, and what \<^verbatim>\<open>CfgInit\<close> sets up.
\<close>

section \<open>A concrete pool\<close>

definition raw :: "string \<Rightarrow> RawAlloc" where
  "raw i = \<lparr>rId = i, rPorto = \<lparr>pHostname = ''h'', pIp = ''10.0.0.1'', pNet = ''L3 veth'', pId = ''''\<rparr>, rNetwork = ''net''\<rparr>"

definition alloc :: "string \<Rightarrow> bool \<Rightarrow> Allocation" where
  "alloc i u = \<lparr>aNet = ''L3 veth'', aHostname = ''h'', aIp = ''10.0.0.1'', aId = i, aNetId = ''net'', aBox = '''', aUsed = u\<rparr>"

definition sample_db :: mem where
  "sample_db = [(''net'', [(''a'', Json (alloc ''a'' True)), (''b'', Json (alloc ''b'' False))])]"

definition sample_mtn :: "mem MtnState" where
  "sample_mtn = \<lparr>Cfg = \<lparr>Enable = True, Allocbuffer = 2, Url = ''u'', Ident = ''i'', SchedLabel = ''l'',
     Headers = Map.empty, DbPath = ''/db''\<rparr>, Db = Some sample_db\<rparr>"

definition two_responses :: "nat \<Rightarrow> RawAlloc http" where
  "two_responses i = Response (Some (raw (if i = 0 then ''c'' else ''d'')))"

definition cd_order :: alloc_order where
  "cd_order m = filter (\<lambda>k. m k \<noteq> None) [''c'', ''d'']"

lemma requested: "RequestAllocs two_responses (Cfg sample_mtn) ''net'' = Inr [''c'' \<mapsto> alloc ''c'' False, ''d'' \<mapsto> alloc ''d'' False]"
  by (simp add: RequestAllocs_def sample_mtn_def two_responses_def raw_def alloc_def numeral_2_eq_2)

lemma cd_visits: "RequestAllocs two_responses (Cfg sample_mtn) ''net'' = Inr m \<Longrightarrow> visits cd_order m"
  by (auto simp: requested visits_def cd_order_def split: if_splits)

lemma sample_contents: "mem_contents sample_db = [''net'' \<mapsto> [''a'' \<mapsto> Json (alloc ''a'' True), ''b'' \<mapsto> Json (alloc ''b'' False)]]"
  by (auto simp: mem_contents_def sample_db_def fun_eq_iff)

lemma sample_pool: "pool mem_contents sample_mtn = Some (mem_contents sample_db)" "pool_ok (mem_contents sample_db)"
  by (auto simp: pool_def sample_mtn_def sample_contents pool_ok_def bucket_ok_def alloc_def split: if_splits)

lemma sample_fresh: "fresh_response (mem_contents sample_db) two_responses (Cfg sample_mtn) ''net''"
  by (auto simp: fresh_response_def requested in_use_def bucket_of_def sample_contents split: if_splits)

section \<open>Properties\<close>

text \<open>
  C5. \<^verbatim>\<open>UseAlloc\<close> hands out an allocation that nobody uses: before the call it was not in use, after
  the call it is stored as used by the box, and the allocations in use are exactly the old ones
  and this one.
\<close>

theorem use_alloc_exclusive:
  assumes "bolt_ok bt dc tc" "pool dc c = Some m" "pool_ok m"
    "\<And>allocs. RequestAllocs resp (Cfg c) netId = Inr allocs \<Longrightarrow> visits ord allocs"
    "fresh_response m resp (Cfg c) netId"
    "UseAlloc bt ord resp netId box c = (Inr a, c')"
  shows "\<exists>m'. pool dc c' = Some m' \<and> aUsed a \<and> aBox a = box \<and> \<not> in_use m netId (aId a) \<and>
    bucket_of (m' netId) (aId a) = Some (Json a) \<and>
    (\<forall>n k. in_use m' n k \<longleftrightarrow> in_use m n k \<or> n = netId \<and> k = aId a)"
  by (rule UseAlloc_exclusive [OF assms])

theorem use_alloc_exclusive_witness:
  "\<exists>m'. pool mem_contents (snd (UseAlloc mem_bolt cd_order two_responses ''net'' ''box'' sample_mtn)) = Some m' \<and>
    in_use m' ''net'' ''b''"
proof -
  obtain a c' where u: "UseAlloc mem_bolt cd_order two_responses ''net'' ''box'' sample_mtn = (Inr a, c')" "aId a = ''b''"
    by (simp add: UseAlloc_def with_tx_def GetDbAlloc_def mem_bolt_def mem_bucket_def sample_mtn_def sample_db_def
        DbAllocIsFree_def alloc_def put_def rd_bind_def rd_return_def Let_def)
  show ?thesis
    using use_alloc_exclusive [OF mem_bolt_ok sample_pool cd_visits sample_fresh u(1)] u by auto
qed

text \<open>
  An operation on the pool that reports an error leaves the contents of the pool as they were.
\<close>

theorem failed_operations_change_nothing:
  assumes "bolt_ok bt dc tc"
  shows "(\<forall>e c'. UseAlloc bt ord resp netId box c = (Inl e, c') \<longrightarrow> pool dc c' = pool dc c) \<and>
    (\<forall>e c'. FreeDbAlloc bt netId i c = (Inl e, c') \<longrightarrow> pool dc c' = pool dc c) \<and>
    (\<forall>e c'. BindAllocs bt ord resp netId c = (Inl e, c') \<longrightarrow> pool dc c' = pool dc c)"
  by (auto simp: UseAlloc_def FreeDbAlloc_def BindAllocs_def split: if_splits dest: with_tx_Inl(1) [OF assms])

theorem failed_operations_change_nothing_witness:
  "pool mem_contents (snd (FreeDbAlloc mem_bolt ''other'' ''a'' sample_mtn)) = pool mem_contents sample_mtn"
proof -
  have "\<exists>e. fst (FreeDbAlloc mem_bolt ''other'' ''a'' sample_mtn) = Inl e"
    by (simp add: FreeDbAlloc_def with_tx_def free_alloc_def mem_bolt_def sample_mtn_def sample_db_def)
  then obtain e c' where "FreeDbAlloc mem_bolt ''other'' ''a'' sample_mtn = (Inl e, c')" by (metis prod.collapse)
  then show ?thesis using failed_operations_change_nothing [OF mem_bolt_ok] by fastforce
qed

text \<open>
  Giving an allocation back makes exactly that allocation free; every other one keeps its state.
\<close>

theorem free_releases_one:
  assumes "bolt_ok bt dc tc" "pool dc c = Some m" "FreeDbAlloc bt netId i c = (Inr u, c')"
  shows "\<exists>m'. pool dc c' = Some m' \<and> (\<forall>n k. in_use m' n k \<longleftrightarrow> in_use m n k \<and> (n, k) \<noteq> (netId, i))"
  by (rule FreeDbAlloc_releases [OF assms])

theorem free_releases_one_witness:
  "\<exists>m'. pool mem_contents (snd (FreeDbAlloc mem_bolt ''net'' ''a'' sample_mtn)) = Some m' \<and> \<not> in_use m' ''net'' ''a''"
proof -
  have "fst (FreeDbAlloc mem_bolt ''net'' ''a'' sample_mtn) = Inr ()"
    by (simp add: FreeDbAlloc_def with_tx_def free_alloc_def put_def mem_bolt_def mem_bucket_def sample_mtn_def sample_db_def)
  then obtain c' where f: "FreeDbAlloc mem_bolt ''net'' ''a'' sample_mtn = (Inr (), c')" by (metis prod.collapse)
  show ?thesis using free_releases_one [OF mem_bolt_ok sample_pool(1) f] f by auto
qed

text \<open>
  The statistics of \<^verbatim>\<open>UsedAllocations\<close> add up, the listed allocations are exactly the used ones of
  the pool, and looking does not change the pool.
\<close>

theorem used_allocations_exact:
  assumes "bolt_ok bt dc tc" "Enable (Cfg c)" "pool dc c = Some m" "UsedAllocations bt c = ((None, allocs, stat), c')"
  shows "Total stat = Free stat + UsedCount stat \<and> UsedCount stat = int (length allocs) \<and>
    set allocs = {a. \<exists>n b k. m n = Some b \<and> b k = Some (Json a) \<and> aUsed a} \<and> pool dc c' = Some m"
  by (rule UsedAllocations_exact [OF assms])

theorem used_allocations_exact_witness:
  "\<exists>allocs stat. fst (UsedAllocations mem_bolt sample_mtn) = (None, allocs, stat) \<and> set allocs = {alloc ''a'' True}"
proof -
  obtain allocs stat c' where u: "UsedAllocations mem_bolt sample_mtn = ((None, allocs, stat), c')"
    by (simp add: UsedAllocations_def mem_bolt_def mem_bucket_def sample_mtn_def sample_db_def DbAllocIsFree_def alloc_def)
  have "{a. \<exists>n b k. mem_contents sample_db n = Some b \<and> b k = Some (Json a) \<and> aUsed a} = {alloc ''a'' True}"
    by (auto simp: sample_contents alloc_def split: if_splits)
  then show ?thesis
    using used_allocations_exact [OF mem_bolt_ok _ sample_pool(1) u] u by (simp add: sample_mtn_def)
qed

text \<open>
  C20. After \<^verbatim>\<open>BindAllocs\<close> succeeded the network has as many free allocations as the buffer asks for, or, where
  the allocator repeated itself, as many as its answers had different ids: \<^verbatim>\<open>RequestAllocs\<close> gathers them in a
  map.  With different ids the buffer is always full.
\<close>

theorem bind_refills:
  assumes "bolt_ok bt dc tc" "BindAllocs bt ord resp netId c = (Inr u, c')"
    "\<And>allocs. RequestAllocs resp (Cfg c) netId = Inr allocs \<Longrightarrow> visits ord allocs"
  shows "\<exists>m' b'. pool dc c' = Some m' \<and> m' netId = Some b' \<and>
    (Allocbuffer (Cfg c) \<le> int (card (free_keys b')) \<or>
     set (response_ids resp (Cfg c)) \<subseteq> free_keys b' \<and> card (set (response_ids resp (Cfg c))) \<le> card (free_keys b')) \<and>
    (distinct (response_ids resp (Cfg c)) \<longrightarrow> Allocbuffer (Cfg c) \<le> int (card (free_keys b')))"
proof -
  let ?ids = "response_ids resp (Cfg c)"
  have w: "with_tx bt (bind_body bt ord resp (Cfg c) netId) c = (Inr u, c')"
    using assms(2) by (auto simp: BindAllocs_def split: if_splits)
  obtain tx tx' where t: "bind_body bt ord resp (Cfg c) netId tx = (Inr u, tx')" "pool dc c' = Some (tc tx')"
    using with_tx_Inr [OF assms(1) w] by metis
  show ?thesis
  proof (rule bind_body_Inr [OF assms(1) t(1) assms(3)])
    fix b assume "tc tx' = (tc tx)(netId \<mapsto> b)" "Allocbuffer (Cfg c) \<le> int (card (free_keys b))"
    then show ?thesis using t(2) by auto
  next
    fix b allocs
    assume h: "b = bucket_of (tc tx netId)" "RequestAllocs resp (Cfg c) netId = Inr allocs"
      "tc tx' = (tc tx)(netId \<mapsto> (\<lambda>k. case allocs k of None \<Rightarrow> b k | Some a \<Rightarrow> Some (Json a)))"
    then have "finite (free_keys b)" using bucket_finite [OF assms(1)] by simp
    note f = refilled_free [OF h(2) this refl]
    have "Allocbuffer (Cfg c) \<le> int (card (set ?ids))" if "distinct ?ids"
      using distinct_card [OF that] by (simp add: response_ids_def)
    then show ?thesis using t(2) h(3) f by fastforce
  qed
qed

theorem bind_refills_witness:
  "\<exists>m' b'. pool mem_contents (snd (BindAllocs mem_bolt cd_order two_responses ''net'' sample_mtn)) = Some m' \<and>
    m' ''net'' = Some b' \<and> 2 \<le> int (card (free_keys b'))"
proof -
  have "fst (BindAllocs mem_bolt cd_order two_responses ''net'' sample_mtn) = Inr ()"
    by code_simp
  then obtain c' where b: "BindAllocs mem_bolt cd_order two_responses ''net'' sample_mtn = (Inr (), c')" by (metis prod.collapse)
  have "distinct (response_ids two_responses (Cfg sample_mtn))"
    by (simp add: response_ids_def sample_mtn_def response_id_def two_responses_def raw_def numeral_2_eq_2)
  with bind_refills [OF mem_bolt_ok b cd_visits] show ?thesis using b by (auto simp: sample_mtn_def)
qed

text \<open>
  C30. \<^verbatim>\<open>PoolInit\<close> only adds: every stored allocation keeps its value, no allocation changes between
  used and free, and everything the allocator reports is in the pool afterwards.
\<close>

theorem pool_init_only_adds:
  assumes "bolt_ok bt dc tc" "Enable (Cfg c)" "pool dc c = Some m" "PoolInit bt ord resp c = (Inr u, c')"
    "GetAllocations resp = Inr all" "set (ord all) = dom all"
  shows "\<exists>m'. pool dc c' = Some m' \<and> (pool_ok m \<longrightarrow> pool_ok m') \<and>
    (\<forall>n k v. bucket_of (m n) k = Some v \<longrightarrow> bucket_of (m' n) k = Some v) \<and>
    (\<forall>n k. in_use m' n k \<longleftrightarrow> in_use m n k) \<and>
    (\<forall>n as a. all n = Some as \<longrightarrow> a \<in> set as \<longrightarrow> bucket_of (m' n) (aId a) \<noteq> None)"
proof -
  let ?ps = "map (\<lambda>n. (n, the (all n))) (ord all)"
  obtain x c1 where w: "with_tx bt (pool_nets bt ?ps) c = (x, c1)" by (rule prod.exhaust)
  have "x = Inr u \<and> c1 = c'"
  proof (cases x)
    case (Inl e)
    then show ?thesis using assms(2,4,5) w by (cases e) (simp_all add: PoolInit_def)
  next
    case (Inr y)
    then show ?thesis using assms(2,4,5) w by (simp add: PoolInit_def)
  qed
  with w have w': "with_tx bt (pool_nets bt ?ps) c = (Inr u, c')" by simp
  obtain tx tx' where t: "pool dc c = Some (tc tx)" "pool_nets bt ?ps tx = (Inr u, tx')" "pool dc c' = Some (tc tx')"
    by (rule with_tx_Inr [OF assms(1) w'])
  have m: "m = tc tx" using t(1) assms(3) by simp
  have "\<forall>n as a. all n = Some as \<longrightarrow> a \<in> set as \<longrightarrow> bucket_of (tc tx' n) (aId a) \<noteq> None"
  proof (intro allI impI)
    fix n as a assume "all n = Some as" "a \<in> set as"
    moreover from this have "(n, as) \<in> set ?ps" using assms(6) by force
    ultimately show "bucket_of (tc tx' n) (aId a) \<noteq> None" using pool_nets_Inr [OF assms(1) t(2)] by blast
  qed
  then show ?thesis
    using t(3) pool_nets_Inr [OF assms(1) t(2)] unfolding extends_def m by blast
qed

definition pool_response :: "RawAlloc list http" where
  "pool_response = Response (Some [raw ''a'', raw ''e''])"

definition net_order :: "(string \<rightharpoonup> Allocation list) \<Rightarrow> string list" where
  "net_order m = filter (\<lambda>k. m k \<noteq> None) [''net'']"

theorem pool_init_only_adds_witness:
  "\<exists>m'. pool mem_contents (snd (PoolInit mem_bolt net_order pool_response sample_mtn)) = Some m' \<and> in_use m' ''net'' ''a'' \<and>
    bucket_of (m' ''net'') ''e'' \<noteq> None"
proof -
  have g: "GetAllocations pool_response = Inr [''net'' \<mapsto> [alloc ''a'' False, alloc ''e'' False]]"
    by (simp add: GetAllocations_def pool_response_def raw_def alloc_def)
  have "fst (PoolInit mem_bolt net_order pool_response sample_mtn) = Inr ()" by code_simp
  then obtain c' where p: "PoolInit mem_bolt net_order pool_response sample_mtn = (Inr (), c')" by (metis prod.collapse)
  have u: "in_use (mem_contents sample_db) ''net'' ''a''" by (simp add: in_use_def bucket_of_def sample_contents alloc_def)
  have "set (net_order [''net'' \<mapsto> [alloc ''a'' False, alloc ''e'' False]]) = dom [''net'' \<mapsto> [alloc ''a'' False, alloc ''e'' False]]"
    by (simp add: net_order_def)
  from pool_init_only_adds [OF mem_bolt_ok _ sample_pool(1) p g this] obtain m' where m: "pool mem_contents c' = Some m'"
      "\<forall>n k. in_use m' n k \<longleftrightarrow> in_use (mem_contents sample_db) n k"
      "\<forall>n as a. [''net'' \<mapsto> [alloc ''a'' False, alloc ''e'' False]] n = Some as \<longrightarrow> a \<in> set as \<longrightarrow> bucket_of (m' n) (aId a) \<noteq> None"
    by (auto simp: sample_mtn_def)
  have "bucket_of (m' ''net'') (aId (alloc ''e'' False)) \<noteq> None"
    by (rule m(3) [rule_format, of _ "[alloc ''a'' False, alloc ''e'' False]"]) simp_all
  then show ?thesis using m(1,2) u p by (simp add: alloc_def)
qed

section \<open>Opening the database\<close>

lemma check_db_result:
  "check_db env db c = (res, c') \<Longrightarrow>
   Cfg c' = Cfg c \<and> (res = CfgOk \<longrightarrow> Db c' \<noteq> None) \<and> (res = CfgPanic \<longleftrightarrow> db = None)"
  by (auto simp: check_db_def split: option.splits if_splits)

lemma recover_db_result:
  assumes "recover_db env fs c = (res, c', fs')"
  shows "Cfg c' = Cfg c \<and> (res = CfgOk \<longrightarrow> Db c' \<noteq> None) \<and> (res = CfgPanic \<longleftrightarrow> stat_denied env (DbPath (Cfg c)))"
proof (cases "stat_denied env (DbPath (Cfg c))")
  case True
  then show ?thesis using assms by (auto simp: recover_db_def check_db_def)
next
  case False
  show ?thesis
  proof (cases "fs (DbPath (Cfg c))")
    case None
    then show ?thesis using assms False by (auto simp: recover_db_def)
  next
    case (Some data)
    then show ?thesis using assms False
      by (auto simp: recover_db_def Let_def split: prod.splits bool.splits option.splits dest: check_db_result)
  qed
qed

text \<open>
  \<^verbatim>\<open>CfgInit\<close> with the feature enabled, when it reports success, has an open database, a buffer of
  at least one allocation, a label and a path; it panics exactly when the database cannot be opened
  and its file cannot be examined.
\<close>

theorem cfg_init_ready:
  assumes "CfgInit env cfg fs c = (res, c', fs')" "cEnable cfg" "hostname env \<noteq> Some ''''"
  shows "(res = CfgOk \<longrightarrow> Db c' \<noteq> None \<and> 1 \<le> Allocbuffer (Cfg c') \<and> SchedLabel (Cfg c') \<noteq> '''' \<and>
      Ident (Cfg c') \<noteq> '''' \<and> DbPath (Cfg c') \<noteq> '''' \<and> Enable (Cfg c')) \<and>
    (res = CfgPanic \<longleftrightarrow> (cLabel cfg \<noteq> '''' \<or> hostname env \<noteq> None) \<and> stat_denied env (DbPath (Cfg c')) \<and>
      open_db env (DbPath (Cfg c')) fs = None)"
  using assms
  by (auto simp: CfgInit_def Let_def split: if_splits option.splits dest!: recover_db_result)

definition open_env :: "mem cfg_env" where
  "open_env = \<lparr>hostname = Some ''host'', open_db = (\<lambda>_ _. Some []), stat_denied = (\<lambda>_. False),
     creatable = (\<lambda>_. True), removable = (\<lambda>_. True), check_error = (\<lambda>_. False)\<rparr>"

definition open_cfg :: MtnConfig where
  "open_cfg = \<lparr>cEnable = True, cAllocbuffer = 0, cUrl = ''u'', cLabel = [], cIdent = [], cDbPath = [],
     cHeaders = Map.empty\<rparr>"

theorem cfg_init_ready_witness:
  "1 \<le> Allocbuffer (Cfg (fst (snd (CfgInit open_env open_cfg Map.empty sample_mtn))))"
proof -
  obtain res c' fs' where c: "CfgInit open_env open_cfg Map.empty sample_mtn = (res, c', fs')" by (metis prod.exhaust)
  moreover have "res = CfgOk" using c by (auto simp: CfgInit_def open_env_def open_cfg_def Let_def)
  ultimately show ?thesis using cfg_init_ready [OF c] by (simp add: open_env_def open_cfg_def)
qed

text \<open>
  Moving a corrupted database aside loses it: after \<^verbatim>\<open>SaveRename\<close> succeeded the source is gone and
  the backup is empty, because the two files are passed to \<^verbatim>\<open>io.Copy\<close> in the wrong order.
\<close>

theorem save_rename_loses_data:
  assumes "SaveRename cr rm src dst fs = (None, fs')" "src \<noteq> dst"
  shows "fs' src = None \<and> fs' dst = Some []"
  using assms by (auto simp: SaveRename_def Let_def io_Copy_readonly_def split: if_splits)

theorem save_rename_loses_data_witness:
  "snd (SaveRename (\<lambda>_. True) (\<lambda>_. True) ''/db'' ''/bak'' [''/db'' \<mapsto> [1, 2, 3]]) ''/bak'' = Some []"
  using save_rename_loses_data [of "\<lambda>_. True" "\<lambda>_. True" "''/db''" "''/bak''" "[''/db'' \<mapsto> [1, 2, 3]]"]
  by (simp add: SaveRename_def io_Copy_readonly_def)

end
