(* ===== verification/Box_Props.thy ===== *)
theory Box_Props
  imports Docker_Box Process_Box Daemon Mtn_Props
begin

text \<open>
  The properties of the docker box, of the process box and of the daemon that starts the boxes, and the
  admission of spawns that the boxes share.
\<close>

section \<open>Admission\<close>

lemma step_cap: "spawn_step early s s' \<Longrightarrow> smCap (ssem s') = smCap (ssem s)"
  by (erule spawn_step.cases) (auto simp: goto_def sem_Acquire_def sem_Release_def split: if_splits)

lemma reachable_cap: "spawns_reachable early n s \<Longrightarrow> smCap (ssem s) = n"
  by (induction rule: spawns_reachable.induct) (auto simp: spawns_init_def dest: step_cap)

lemma step_work: "spawn_step early s s' \<Longrightarrow> length (pcs s') = length (pcs s) \<Longrightarrow> work s' < work s"
  by (erule spawn_step.cases) (auto intro!: work_goto)

definition one_waits :: spawns where
  "one_waits = \<lparr>pcs = [Passed], squeue = 1, ssem = \<lparr>smCap = 1, smHeld = 0\<rparr>, abandoned = 0\<rparr>"

lemma one_waits_reachable: "spawns_reachable False 1 one_waits"
proof -
  let ?s = "spawns_init 1"
  let ?a = "?s\<lparr>pcs := pcs ?s @ [Counted], squeue := squeue ?s + 1\<rparr>"
  have "spawn_step False ?s ?a" by (rule spawn_step.inc)
  moreover have "spawn_step False ?a (goto 0 Passed ?a)" by (rule spawn_step.pass) (simp_all add: spawns_init_def)
  ultimately have "spawns_reachable False 1 (goto 0 Passed ?a)"
    by (meson spawns_reachable.start spawns_reachable.step)
  then show ?thesis by (simp add: one_waits_def goto_def spawns_init_def)
qed

text \<open>
  C9. However many goroutines spawn at once, at most ten are past the check of the queue and before
  the semaphore is theirs and counted, at most as many as configured hold the semaphore, and the
  counter is the number of goroutines that are counted, where no spawn returns early.
\<close>

theorem admission_bounds:
  assumes "spawns_reachable early n s" "0 < n"
  shows "spawns_at waiting s \<le> 10 \<and> spawns_at holding s \<le> n \<and>
    (\<not> early \<longrightarrow> squeue s = int (spawns_at {Counted, Refused} s + spawns_at waiting s))"
  using spawns_reachable_ok [OF assms] reachable_cap [OF assms(1)] abandoned_none [of n s] assms(1)
  by (cases early) (auto simp: spawns_ok_def sem_ok_def)

theorem admission_bounds_witness:
  "spawns_at waiting one_waits \<le> 10 \<and> spawns_at holding one_waits \<le> 1 \<and> squeue one_waits = 1 \<and> spawns_at waiting one_waits = 1"
  using admission_bounds [OF one_waits_reachable] by (simp add: one_waits_def spawns_at_def)

text \<open>
  C19. The gate drains, in the boxes that return early between the check and the semaphore and in those
  that do not: as long as a spawn has not returned some goroutine can take a step, and every step that is
  not the arrival of a new spawn brings the end closer.  At the end the semaphore is free and the counter
  is the number of early returns, at most ten, which never took themselves off it: zero in a box that
  does not return early, but not in porto.
\<close>

theorem admission_drains:
  assumes "spawns_reachable early n s" "0 < n"
  shows "(\<not> all_returned s \<longrightarrow> (\<exists>s'. spawn_step early s s' \<and> work s' < work s)) \<and>
    (\<forall>s'. spawn_step early s s' \<longrightarrow> length (pcs s') = length (pcs s) \<longrightarrow> work s' < work s) \<and>
    (all_returned s \<longrightarrow> smHeld (ssem s) = 0 \<and> squeue s = int (abandoned s) \<and> abandoned s \<le> 10 \<and>
      (\<not> early \<longrightarrow> squeue s = 0))"
proof (intro conjI impI)
  have ok: "spawns_ok s" by (rule spawns_reachable_ok [OF assms])
  show "\<exists>s'. spawn_step early s s' \<and> work s' < work s" if live: "\<not> all_returned s"
  proof -
    obtain i where "i < length (pcs s)" "pcs s ! i \<noteq> Returned"
      using live by (auto simp: all_returned_def list_all_length)
    then show ?thesis by (rule spawn_progress [OF ok])
  qed
  show "\<forall>s'. spawn_step early s s' \<longrightarrow> length (pcs s') = length (pcs s) \<longrightarrow> work s' < work s"
    using step_work by blast
  show "smHeld (ssem s) = 0" and q: "squeue s = int (abandoned s)" and "abandoned s \<le> 10" if "all_returned s"
    using ok returned_at [OF that] by (simp_all add: spawns_ok_def)
  show "squeue s = 0" if "all_returned s" "\<not> early"
    using q [OF that(1)] abandoned_none [of n s] assms(1) that(2) by simp
qed

theorem admission_drains_witness: "\<exists>s'. spawn_step False one_waits s' \<and> work s' < 3"
proof -
  have "\<not> all_returned one_waits" "work one_waits = 3" by (simp_all add: one_waits_def all_returned_def work_def)
  then show ?thesis using admission_drains [OF one_waits_reachable] by auto
qed

section \<open>Docker\<close>

text \<open>
  C27. What is collected of the output of a container is what it wrote, frame by frame and in order,
  however the stream is cut into reads, several frames in one read or a payload over many, provided no
  read begins inside the eight bytes of a header.
\<close>

theorem docker_output_back:
  assumes "list_all (\<lambda>(k, payload). length payload < 2 ^ 32) fs" "[] \<notin> set pieces" "concat pieces = frames fs"
    "headers_whole 0 fs pieces"
  shows "collectOutput pieces = concat (map snd fs)"
  unfolding collectOutput_def by (rule collect_frames [OF _ assms]) simp

theorem docker_output_back_witness:
  "collectOutput [[1, 0, 0, 0, 0, 0, 0, 2, 65], [66, 2, 0, 0, 0, 0, 0, 0, 1, 67, 1, 0, 0, 0, 0, 0, 0, 1, 68]] = [65, 66, 67, 68]"
  using docker_output_back [of "[(1, [65, 66]), (2, [67]), (1, [68])]"
      "[[1, 0, 0, 0, 0, 0, 0, 2, 65], [66, 2, 0, 0, 0, 0, 0, 0, 1, 67, 1, 0, 0, 0, 0, 0, 0, 1, 68]]"]
  by (simp add: frames_def headers_whole_def frame_def be32_def)

text \<open>
  C28. The answer to a pull is decoded as if it were split into lines first: the pull fails with the
  first error any line reports, and succeeds when there is none.
\<close>

theorem docker_pull_by_lines:
  "decodeImagePull items None body = first_error (map (decodePullLine items) (text_lines body))"
  by (rule decodeImagePull_text)

text \<open>
  C21. Whatever kills and events of deaths follow each other, also when docker reports a death again: a
  container the box knows and has not removed is removed once when it is killed or reported dead, and
  once more for every further report of its death, which the box takes for that of an unknown container;
  otherwise it is not removed.
\<close>

theorem docker_removals:
  assumes "docker_ok b" "i < length (dprocs b)" "dpID (dprocs b ! i) = cid" "\<not> dpRemoved (dprocs b ! i)"
    "dcontainers b cid = Some i" "list_all (valid_op b) ops"
  shows "\<exists>b' es. each (run_op env) ops b = (Inr (), b') \<and> hist b' = hist b @ es \<and>
    removals cid es = (if OpKill i \<in> set ops \<or> OpDied cid \<in> set ops then 1 else 0) + (count_list ops (OpDied cid) - 1)"
  using run_ops_removals [of b i cid ops env] assms by simp

definition sample_denv :: denv where
  "sample_denv = \<lparr>dacks = (\<lambda>h e. Inr ()), dtexts = (\<lambda>h e. Inr ''c1''), dpulls = (\<lambda>h e. Inl (SysErr ''''))\<rparr>"

definition sample_dbox :: dbox where
  "sample_dbox = \<lparr>hist = [], dgate = \<lparr>gSem = \<lparr>smCap = 1, smHeld = 0\<rparr>, gQueue = 0\<rparr>, dauth = Map.empty,
     dcontainers = [''c1'' \<mapsto> 0], dprocs = [\<lparr>dpID = ''c1'', dpRemoved = False, dpCancelled = False, dpUuid = ''u''\<rparr>]\<rparr>"

theorem docker_removals_witness:
  "\<exists>b' es. each (run_op sample_denv) [OpKill 0, OpDied ''c1'', OpKill 0, OpDied ''c1''] sample_dbox = (Inr (), b') \<and>
    hist b' = es \<and> removals ''c1'' es = 2"
proof -
  have "docker_ok sample_dbox" by (auto simp: sample_dbox_def docker_ok_def split: if_splits)
  moreover have "hist sample_dbox = []" by (simp add: sample_dbox_def)
  ultimately show ?thesis
    using docker_removals [of sample_dbox 0 "''c1''" "[OpKill 0, OpDied ''c1'', OpKill 0, OpDied ''c1'']" sample_denv]
    by (simp add: sample_dbox_def numeral_2_eq_2 del: each.simps run_op.simps)
qed

text \<open>
  C22. A spawn of docker or of the process box that returns leaves the gate as it found it: whatever the
  daemon or the operating system answers and wherever it stops, it is off the queue and the semaphore is back.
\<close>

theorem spawn_leaves_gate:
  assumes "docker_Spawn denv rt d p config b = (r, b')" "\<forall>e. r = Inl e \<longrightarrow> \<not> fatal e"
    "process_Spawn xenv rt d p stopped config x = (q, x')" "\<forall>e. q = Inl e \<longrightarrow> \<not> fatal e"
  shows "dgate b' = dgate b \<and> xgate x' = xgate x"
  using docker_Spawn_gate [OF assms(1,2)] process_Spawn_gate [OF assms(3,4)] by simp

definition sample_runtime :: runtime where
  "sample_runtime = \<lparr>rdChunk = (\<lambda>n. n), rdCap = (\<lambda>_. 4096), map_range = (\<lambda>m. []), cnt_range = (\<lambda>m. [])\<rparr>"

definition sample_spawn :: SpawnConfig where
  "sample_spawn = \<lparr>scOpts = Some [0x80], scName = ''app'', scExecutable = ''run'', scArgs = Map.empty, scEnv = Map.empty\<rparr>"

definition sample_xenv :: xenv where
  "sample_xenv = \<lparr>xacks = (\<lambda>h e. Inr ()), xpids = (\<lambda>h e. Inr 7), xreplies = (\<lambda>h e. Inl (SysErr '''')),
     gunzip = (\<lambda>d. None), inflate = (\<lambda>d. None), untar = (\<lambda>d. [TarEntry ''bin/run'' False])\<rparr>"

definition sample_xbox :: xbox where
  "sample_xbox = process_NewBox None 0 []"

text \<open>The empty map of msgpack leaves a profile at its defaults.\<close>

lemma empty_profile:
  "decode_profile rt (DockerProfile_DecodeMsg z) (Some [0x80]) = Inr z"
  "decode_profile rt (ProcessProfile_DecodeMsg y) (Some [0x80]) = Inr y"
proof -
  have h: "AppendMapHeader [] 0 = [0x80]" by (simp add: AppendMapHeader_def wfixmap_def)
  have "rMapHeader reader_src (bytes_reader ch cp [0x80]) = (Inr 0, bytes_reader ch cp [])" for ch cp
    using reader.map_header [where n = 0 and bs = "[]" and s = "bytes_reader ch cp []"] by (simp add: h bytes_reader_def)
  then show "decode_profile rt (DockerProfile_DecodeMsg z) (Some [0x80]) = Inr z"
    "decode_profile rt (ProcessProfile_DecodeMsg y) (Some [0x80]) = Inr y"
    by (simp_all add: decode_profile_def DecodeTo_def DockerProfile_DecodeMsg_def ProcessProfile_DecodeMsg_def
        decode_fields_def rd_bind_def rd_return_def)
qed

lemmas run_simps = rd_bind_def on_part_def gate_enter_def gate_acquire_def gate_release_def through_def
  sem_Acquire_def sem_Release_def attempt_def logged_def gets_def modify_def rd_return_def rd_fail_def call_def Let_def

lemma sample_spawns:
  "fst (docker_Spawn sample_denv sample_runtime False False sample_spawn sample_dbox) = Inr 1"
  "fst (process_Spawn sample_xenv sample_runtime False False False sample_spawn sample_xbox) = Inr 7"
  by (simp_all add: docker_Spawn_def decodeProfile_def sample_spawn_def empty_profile sample_dbox_def sample_denv_def
      docker_newContainer_def docker_started_def startContainer_def put_dgate_def dack_def
      process_Spawn_def decode_process_def process_started_def newProcess_def xack_def put_xgate_def sample_xbox_def
      process_NewBox_def sample_xenv_def run_simps)

theorem spawn_leaves_gate_witness:
  "gQueue (dgate (snd (docker_Spawn sample_denv sample_runtime False False sample_spawn sample_dbox))) = 0 \<and>
   gQueue (xgate (snd (process_Spawn sample_xenv sample_runtime False False False sample_spawn sample_xbox))) = 0"
proof -
  obtain b' where b: "docker_Spawn sample_denv sample_runtime False False sample_spawn sample_dbox = (Inr 1, b')"
    using sample_spawns(1) by (metis prod.collapse)
  obtain x' where x: "process_Spawn sample_xenv sample_runtime False False False sample_spawn sample_xbox = (Inr 7, x')"
    using sample_spawns(2) by (metis prod.collapse)
  show ?thesis using spawn_leaves_gate [OF b _ x] b x by (simp add: sample_dbox_def sample_xbox_def process_NewBox_def)
qed

section \<open>Processes\<close>

text \<open>
  C25. Unpacking an archive into the directory of an application touches nothing outside of it, provided
  no entry has two dots in its name and every entry that is no directory names something below the root
  (its name is not empty and not made of slashes and single dots only).
\<close>

theorem unpack_stays_below:
  assumes "clean_dir target" "list_all safe_item (untar env (archive_reader env data))"
    "unpackArchive env data target b = (r, b')"
  shows "\<exists>es. hist b' = hist b @ es \<and> list_all (\<lambda>(e, ok). confined target e) es"
  by (rule callsD [OF unpackArchive_confined [OF assms(1,2)] assms(3)])

theorem unpack_stays_below_witness:
  "\<exists>b' es. unpackArchive sample_xenv [] ''/spool/app'' sample_xbox = (Inr (), b') \<and> hist b' = es \<and>
    list_all (\<lambda>(e, ok). confined ''/spool/app'' e) es \<and> XOpenFile ''/spool/app/bin/run'' \<in> fst ` set es"
proof -
  let ?d = "''/spool/app''"
  have j: "Join [?d, ''bin/run''] = ''/spool/app/bin/run''" "Dir ''/spool/app/bin/run'' = ''/spool/app/bin''"
    by code_simp+
  have items: "untar sample_xenv (archive_reader sample_xenv []) = [TarEntry ''bin/run'' False]" by (simp add: sample_xenv_def)
  obtain b' where b': "unpackArchive sample_xenv [] ?d sample_xbox = (Inr (), b')"
      "XOpenFile ''/spool/app/bin/run'' \<in> fst ` set (hist b')"
    unfolding unpackArchive_def items by (simp add: j make_parent_def xack_def run_simps) (simp add: run_simps sample_xenv_def sample_xbox_def process_NewBox_def)
  have "clean_dir ?d" "list_all safe_item (untar sample_xenv (archive_reader sample_xenv []))"
    unfolding items by code_simp+
  from unpack_stays_below [OF this b'(1)] show ?thesis using b' by (auto simp: sample_xbox_def process_NewBox_def)
qed

text \<open>
  C24. Reaping removes every child \<^verbatim>\<open>Wait4\<close> reports from the table and no other, and for each that was in
  the table it kills the rest of the process group and then waits for the command, in the order reported.
\<close>

theorem reaping_complete:
  assumes "distinct (reaped ws)"
  shows "\<exists>b' es. wait_children env ws b = (Inr (), b') \<and> children b' = (children b) |` (- set (reaped ws)) \<and>
    hist b' = hist b @ es \<and>
    map fst es = concat (map reap_calls (filter (\<lambda>pid. children b pid \<noteq> None) (reaped ws)))"
  by (rule wait_children_reaps [OF assms])

definition sample_child :: workerInfo where
  "sample_child = \<lparr>wiCmd = \<lparr>xPath = ''run'', xArgs = [], xEnviron = [], xDir = ''/''\<rparr>, wiUuid = ''''\<rparr>"

theorem reaping_complete_witness:
  "\<exists>b'. wait_children sample_xenv [EINTR, Reaped 7, Reaped 9, NoChild, Reaped 8]
     (sample_xbox\<lparr>children := [7 \<mapsto> sample_child, 8 \<mapsto> sample_child]\<rparr>) = (Inr (), b') \<and>
     children b' 7 = None \<and> children b' 8 \<noteq> None \<and> map fst (hist b') = [XKill (- 7), XWait 7]"
proof -
  let ?ws = "[EINTR, Reaped 7, Reaped 9, NoChild, Reaped 8]" and ?b = "sample_xbox\<lparr>children := [7 \<mapsto> sample_child, 8 \<mapsto> sample_child]\<rparr>"
  have "distinct (reaped ?ws)" by simp
  from reaping_complete [OF this, of sample_xenv ?b] obtain b' es where
    b': "wait_children sample_xenv ?ws ?b = (Inr (), b')" "children b' = (children ?b) |` (- set (reaped ?ws))" "hist b' = hist ?b @ es"
      "map fst es = concat (map reap_calls (filter (\<lambda>pid. children ?b pid \<noteq> None) (reaped ?ws)))" by blast
  have "children b' 7 = None" "children b' 8 \<noteq> None" unfolding b'(2) by simp_all
  moreover have "map fst (hist b') = [XKill (- 7), XWait 7]"
    unfolding b'(3) map_append b'(4) by (simp add: sample_xbox_def process_NewBox_def reap_calls_def)
  ultimately show ?thesis using b'(1) by (intro exI [of _ b']) simp
qed

text \<open>
  C40. A worker of the process box is never found: whatever was spawned and reaped, \<^verbatim>\<open>Inspect\<close> of a worker with a
  name answers with the empty object.
\<close>

theorem workers_not_found:
  assumes "process_reach env b" "worker \<noteq> ''''"
  shows "process_Inspect ord worker b = ''{}''"
proof -
  have "\<not> (case children b pid of None \<Rightarrow> False | Some pr \<Rightarrow> wiUuid pr = worker)" for pid
    using process_reach_no_uuid [OF assms(1)] assms(2) by (auto simp: no_uuid_def split: option.splits)
  then have "find (\<lambda>pid. case children b pid of None \<Rightarrow> False | Some pr \<Rightarrow> wiUuid pr = worker) (ord (children b)) = None"
    by (simp add: find_None_iff)
  then show ?thesis by (simp add: process_Inspect_def)
qed

theorem workers_not_found_witness:
  "process_Inspect (\<lambda>m. [7]) ''u''
     (snd (process_Spawn sample_xenv sample_runtime False False False
        (sample_spawn\<lparr>scArgs := [''--uuid'' \<mapsto> ''u'']\<rparr>) sample_xbox)) = ''{}''"
proof -
  let ?c = "sample_spawn\<lparr>scArgs := [''--uuid'' \<mapsto> ''u'']\<rparr>"
  obtain r b where b: "process_Spawn sample_xenv sample_runtime False False False ?c sample_xbox = (r, b)" by force
  have "process_reach sample_xenv sample_xbox" unfolding sample_xbox_def by (rule process_reach.start)
  then have "process_reach sample_xenv b" by (rule process_reach.spawn [OF _ b])
  from workers_not_found [OF this, of "''u''" "\<lambda>m. [7]"] show ?thesis by (simp add: b)
qed

section \<open>The daemon\<close>

text \<open>
  C26. Starting the daemon keeps all boxes or none: when it succeeds there is one box for every configured
  isolation, of distinct and known types, and none is closed; when it fails every box that had been made is
  closed.
\<close>

theorem daemon_all_or_nothing:
  assumes "daemon_New plugins cenv bt ord resp configuration fs c = ((res, d, c'), fs')"
  shows "(res = None \<longrightarrow> map fst (boxes d) = map fst (cfIsolate configuration) \<and> closedBoxes d = [] \<and>
      distinct (map (\<lambda>x. fst (snd x)) (cfIsolate configuration)) \<and>
      set (map (\<lambda>x. fst (snd x)) (cfIsolate configuration)) \<subseteq> dom plugins) \<and>
    (res \<noteq> None \<longrightarrow> closedBoxes d = map snd (boxes d))"
proof (cases "CfgInit cenv (cfMtn configuration) fs c")
  case (fields cr c1 fs1)
  show ?thesis
  proof (cases cr)
    case CfgOk
    obtain r c2 where p: "PoolInit bt ord resp c1 = (r, c2)" by force
    show ?thesis
    proof (cases "pool_ready (cfAllowLocalState configuration) r")
      case None
      then have n: "new_boxes plugins (cfIsolate configuration) [] daemon_empty c2 = (res, d, c')"
        using assms fields CfgOk p by (simp add: daemon_New_def)
      show ?thesis
      proof (cases res)
        case None
        from new_boxes_works [OF n [unfolded None]] show ?thesis using None by (auto simp: daemon_empty_def)
      next
        case (Some e)
        from new_boxes_fails [OF n [unfolded Some]] show ?thesis using Some by (auto simp: daemon_empty_def)
      qed
    qed (use assms fields CfgOk p in \<open>auto simp: daemon_New_def daemon_empty_def\<close>)
  qed (use assms fields in \<open>auto simp: daemon_New_def daemon_empty_def\<close>)
qed

definition sample_config :: "nat Config" where
  "sample_config = \<lparr>cfVersion = 2, cfEndpoints = [''0.0.0.0:29042''], cfDebugServer = '''', cfLevel = 0, cfLogOutput = '''',
     cfMetricsType = '''', cfPeriod = 0, cfIsolate = [(''docker'', ''docker'', 1), (''process'', ''process'', 2)],
     cfMtn = open_cfg\<lparr>cEnable := False\<rparr>, cfAllowLocalState = False\<rparr>"

definition sample_plugins :: "(nat, mem MtnState, nat) plugins" where
  "sample_plugins = RegisterBox ''process'' (\<lambda>n s. (Inl (Errorf ''no spool''), s))
     (RegisterBox ''docker'' (\<lambda>n s. (Inr n, s)) Map.empty)"

theorem daemon_all_or_nothing_witness:
  "\<exists>e d c' fs'. daemon_New sample_plugins open_env mem_bolt (\<lambda>m. []) (Response None) sample_config Map.empty sample_mtn =
     ((Some e, d :: (nat, nat) Daemon, c'), fs') \<and> map snd (boxes d) = [1] \<and> closedBoxes d = [1]"
proof -
  obtain e d c' fs' where n: "daemon_New sample_plugins open_env mem_bolt (\<lambda>m. []) (Response None) sample_config Map.empty sample_mtn =
      ((Some e, d :: (nat, nat) Daemon, c'), fs')" "map snd (boxes d) = [1]"
    by (simp add: daemon_New_def sample_config_def CfgInit_def PoolInit_def pool_ready_def sample_plugins_def RegisterBox_def
        ConstructBox_def daemon_empty_def daemon_Close_def closeBoxes_def close_listeners_def Let_def)
  then show ?thesis using daemon_all_or_nothing [OF n(1)] by auto
qed

end
