(* ===== verification/Json.thy ===== *)
theory Json
  imports Prelude "HOL-Library.List_Lexorder" "HOL-Library.Char_ord"
begin

text \<open>
  The part of \<^verbatim>\<open>encoding/json\<close> the journal is written and read with: quoting of strings, objects of strings, and
  the decoder's reading of one value.  A string is a list of bytes.  Go's encoder and decoder replace every
  byte that does not belong to a UTF-8 sequence by U+FFFD; \<open>coerce\<close> is what is left of a string afterwards.
\<close>

section \<open>UTF-8\<close>

text \<open>The number of bytes of a sequence by its first byte, and the range of the second byte.\<close>

definition utf8_first :: "nat \<Rightarrow> (nat \<times> nat \<times> nat) option" where
  "utf8_first b =
     (if 0xC2 \<le> b \<and> b \<le> 0xDF then Some (2, 0x80, 0xBF)
      else if b = 0xE0 then Some (3, 0xA0, 0xBF)
      else if b = 0xED then Some (3, 0x80, 0x9F)
      else if 0xE1 \<le> b \<and> b \<le> 0xEF then Some (3, 0x80, 0xBF)
      else if b = 0xF0 then Some (4, 0x90, 0xBF)
      else if 0xF1 \<le> b \<and> b \<le> 0xF3 then Some (4, 0x80, 0xBF)
      else if b = 0xF4 then Some (4, 0x80, 0x8F)
      else None)"

text \<open>How many bytes the first character of a string has, if it is one (\<^verbatim>\<open>utf8.DecodeRuneInString\<close>).\<close>

definition rune_size :: "string \<Rightarrow> nat option" where
  "rune_size s = (case s of
      [] \<Rightarrow> None
    | c # _ \<Rightarrow>
        if of_char c < (0x80 :: nat) then Some 1
        else (case utf8_first (of_char c) of
            None \<Rightarrow> None
          | Some (n, lo, hi) \<Rightarrow>
              if n \<le> length s \<and> lo \<le> of_char (s ! 1) \<and> of_char (s ! 1) \<le> hi \<and>
                 list_all (\<lambda>d. 0x80 \<le> (of_char d :: nat) \<and> of_char d \<le> (0xBF :: nat)) (take (n - 2) (drop 2 s))
              then Some n else None))"

definition replacement :: string where
  "replacement = [CHR 0xEF, CHR 0xBF, CHR 0xBD]"

definition encode_rune :: "nat \<Rightarrow> string" where
  "encode_rune r =
     (if r < 0x80 then [char_of r]
      else if r < 0x800 then [char_of (0xC0 + r div 64), char_of (0x80 + r mod 64)]
      else if 0xD800 \<le> r \<and> r \<le> 0xDFFF \<or> 0x10FFFF < r then replacement
      else if r < 0x10000 then
        [char_of (0xE0 + r div 4096), char_of (0x80 + r div 64 mod 64), char_of (0x80 + r mod 64)]
      else [char_of (0xF0 + r div 262144), char_of (0x80 + r div 4096 mod 64), char_of (0x80 + r div 64 mod 64),
            char_of (0x80 + r mod 64)])"

lemma rune_size_bounds: "rune_size s = Some n \<Longrightarrow> 0 < n \<and> n \<le> length s"
  by (auto simp: rune_size_def utf8_first_def split: list.splits if_splits)

lemma rune_size_local:
  assumes "rune_size s = Some n"
  shows "rune_size (take n s @ t) = Some n"
proof -
  obtain c cs where s: "s = c # cs" using assms by (cases s) (simp_all add: rune_size_def)
  show ?thesis
  proof (cases "of_char c < (0x80 :: nat)")
    case True
    then have "n = 1" using assms by (simp add: s rune_size_def)
    then show ?thesis using True by (simp add: s rune_size_def)
  next
    case False
    then obtain lo hi where f: "utf8_first (of_char c) = Some (n, lo, hi)" and n: "n \<le> length s"
      "lo \<le> of_char (s ! 1)" "of_char (s ! 1) \<le> hi"
      "list_all (\<lambda>d. 0x80 \<le> (of_char d :: nat) \<and> of_char d \<le> (0xBF :: nat)) (take (n - 2) (drop 2 s))"
      using assms by (auto simp: s rune_size_def split: option.splits if_splits)
    have two: "2 \<le> n" using f by (auto simp: utf8_first_def split: if_splits)
    let ?u = "take n s @ t"
    obtain ds where u: "?u = c # ds" using two by (cases n) (simp_all add: s)
    have "?u ! 1 = s ! 1" "take (n - 2) (drop 2 ?u) = take (n - 2) (drop 2 s)" "n \<le> length ?u"
      using two n(1) by (simp_all add: nth_append take_drop)
    then show ?thesis using False f n unfolding rune_size_def u by simp
  qed
qed

function coerce :: "string \<Rightarrow> string" where
  "coerce [] = []"
| "coerce (c # cs) = (case rune_size (c # cs) of
      None \<Rightarrow> replacement @ coerce cs
    | Some n \<Rightarrow> take n (c # cs) @ coerce (drop (n - 1) cs))"
  by pat_completeness auto

termination coerce
  by (relation "measure length") auto

function valid_utf8 :: "string \<Rightarrow> bool" where
  "valid_utf8 [] = True"
| "valid_utf8 (c # cs) = (case rune_size (c # cs) of None \<Rightarrow> False | Some n \<Rightarrow> valid_utf8 (drop (n - 1) cs))"
  by pat_completeness auto

termination valid_utf8
  by (relation "measure length") auto

lemma coerce_valid: "valid_utf8 s \<Longrightarrow> coerce s = s"
proof (induction s rule: valid_utf8.induct)
  case (2 c cs)
  then obtain n where n: "rune_size (c # cs) = Some n" "coerce (drop (n - 1) cs) = drop (n - 1) cs"
    by (auto split: option.splits)
  then have "0 < n" using rune_size_bounds by blast
  then show ?case using n by (cases n) simp_all
qed simp

section \<open>Strings\<close>

definition hex_char :: "nat \<Rightarrow> char" where
  "hex_char n = ''0123456789abcdef'' ! n"

definition unhex :: "char \<Rightarrow> nat option" where
  "unhex c = (let n = of_char c :: nat in
     if 0x30 \<le> n \<and> n \<le> 0x39 then Some (n - 0x30)
     else if 0x61 \<le> n \<and> n \<le> 0x66 then Some (n - 0x61 + 10)
     else if 0x41 \<le> n \<and> n \<le> 0x46 then Some (n - 0x41 + 10)
     else None)"

text \<open>How the encoder writes an ASCII character inside a string.\<close>

definition json_escape :: "char \<Rightarrow> string" where
  "json_escape c = (let n = of_char c :: nat in
     if 0x20 \<le> n \<and> c \<notin> {CHR 0x22, CHR 0x5C, CHR 0x3C, CHR 0x3E, CHR 0x26} then [c]
     else if c = CHR 0x22 \<or> c = CHR 0x5C then [CHR 0x5C, c]
     else if c = CHR 0x0A then CHR 0x5C # ''n''
     else if c = CHR 0x0D then CHR 0x5C # ''r''
     else if c = CHR 0x09 then CHR 0x5C # ''t''
     else CHR 0x5C # ''u00'' @ [hex_char (n div 16), hex_char (n mod 16)])"

text \<open>The characters U+2028 and U+2029, which the encoder escapes too.\<close>

definition line_separator :: "string \<Rightarrow> bool" where
  "line_separator s \<longleftrightarrow> take 3 s = [CHR 0xE2, CHR 0x80, CHR 0xA8] \<or> take 3 s = [CHR 0xE2, CHR 0x80, CHR 0xA9]"

function json_quote :: "string \<Rightarrow> string" where
  "json_quote [] = []"
| "json_quote (c # cs) =
     (if of_char c < (0x80 :: nat) then json_escape c @ json_quote cs
      else (case rune_size (c # cs) of
          None \<Rightarrow> CHR 0x5C # ''ufffd'' @ json_quote cs
        | Some n \<Rightarrow>
            (if line_separator (c # cs)
             then CHR 0x5C # ''u202'' @ [hex_char (of_char ((c # cs) ! 2) mod 16)]
             else take n (c # cs)) @ json_quote (drop (n - 1) cs)))"
  by pat_completeness auto

termination json_quote
  by (relation "measure length") auto

definition hex4 :: "string \<Rightarrow> nat option" where
  "hex4 s = (case s of
      a # b # c # d # _ \<Rightarrow> (case (unhex a, unhex b, unhex c, unhex d) of
         (Some w, Some x, Some y, Some z) \<Rightarrow> Some (((w * 16 + x) * 16 + y) * 16 + z)
       | _ \<Rightarrow> None)
    | _ \<Rightarrow> None)"

definition unescape :: "char \<Rightarrow> char option" where
  "unescape e = map_of [(CHR 0x22, CHR 0x22), (CHR 0x5C, CHR 0x5C), (CHR 0x2F, CHR 0x2F), (CHR ''b'', CHR 0x08),
     (CHR ''f'', CHR 0x0C), (CHR ''n'', CHR 0x0A), (CHR ''r'', CHR 0x0D), (CHR ''t'', CHR 0x09)] e"

text \<open>
  The second half of a surrogate pair: the character it makes with the first half, which is no
  character by itself.
\<close>

definition surrogate_pair :: "nat \<Rightarrow> string \<Rightarrow> nat option" where
  "surrogate_pair r s = (case s of
      b # u # es \<Rightarrow> if b = CHR 0x5C \<and> u = CHR ''u'' then (case hex4 es of
          Some r1 \<Rightarrow> if 0xD800 \<le> r \<and> r < 0xDC00 \<and> 0xDC00 \<le> r1 \<and> r1 < 0xE000
            then Some ((r - 0xD800) * 1024 + (r1 - 0xDC00) + 0x10000) else None
        | None \<Rightarrow> None) else None
    | _ \<Rightarrow> None)"

abbreviation push :: "string \<Rightarrow> (string \<times> 'r) option \<Rightarrow> (string \<times> 'r) option" where
  "push x \<equiv> map_option (apfst ((@) x))"

text \<open>What the decoder reads of a string up to its closing quote: the bytes it stores and the rest of the input.\<close>

function read_string :: "string \<Rightarrow> (string \<times> string) option" where
  "read_string [] = None"
| "read_string (c # cs) =
     (if c = CHR 0x22 then Some ([], cs)
      else if c = CHR 0x5C then (case cs of
          [] \<Rightarrow> None
        | e # es \<Rightarrow>
            if e = CHR ''u'' then (case hex4 es of
                None \<Rightarrow> None
              | Some r \<Rightarrow>
                  if 0xD800 \<le> r \<and> r < 0xE000 then (case surrogate_pair r (drop 4 es) of
                      Some d \<Rightarrow> push (encode_rune d) (read_string (drop 10 es))
                    | None \<Rightarrow> push replacement (read_string (drop 4 es)))
                  else push (encode_rune r) (read_string (drop 4 es)))
            else (case unescape e of None \<Rightarrow> None | Some x \<Rightarrow> push [x] (read_string es)))
      else if of_char c < (0x20 :: nat) then None
      else (case rune_size (c # cs) of
          None \<Rightarrow> push replacement (read_string cs)
        | Some n \<Rightarrow> push (take n (c # cs)) (read_string (drop (n - 1) cs))))"
  by pat_completeness auto

termination read_string
  by (relation "measure length") auto

declare coerce.simps [simp del] json_quote.simps [simp del] read_string.simps [simp del]

lemma read_string_shrinks: "read_string s = Some (x, r) \<Longrightarrow> length r < length s"
proof (induction s arbitrary: x r rule: measure_induct_rule [where f = length])
  case (less s)
  have IH: "length r < length s" if "read_string t = Some (z, r)" "length t < length s" for t z
    using less(1) [OF that(2,1)] that(2) by simp
  show ?case
  proof (cases s)
    case (Cons c cs)
    show ?thesis using less(2) unfolding Cons read_string.simps(2)
      by (auto split: if_splits option.splits list.splits dest!: IH simp: Cons)
  qed (use less(2) in \<open>simp add: read_string.simps\<close>)
qed

section \<open>Values\<close>

datatype json = JNull | JBool bool | JNum string | JStr string | JArr "json list" | JObj "(string \<times> json) list"

definition skip_ws :: "string \<Rightarrow> string" where
  "skip_ws s = dropWhile (\<lambda>c. c \<in> {CHR 0x20, CHR 0x09, CHR 0x0D, CHR 0x0A}) s"

definition is_digit :: "char \<Rightarrow> bool" where
  "is_digit c \<longleftrightarrow> 0x30 \<le> (of_char c :: nat) \<and> of_char c \<le> (0x39 :: nat)"

definition digits :: "string \<Rightarrow> (string \<times> string) option" where
  "digits s = (case takeWhile is_digit s of [] \<Rightarrow> None | ds \<Rightarrow> Some (ds, dropWhile is_digit s))"

text \<open>A number is read as its text: a sign, digits without a leading zero, a fraction and an exponent.\<close>

definition integer_part :: "string \<Rightarrow> (string \<times> string) option" where
  "integer_part s = (case s of
      [] \<Rightarrow> None
    | c # cs \<Rightarrow> if c = CHR ''0'' then Some ([c], cs) else digits s)"

definition fraction_part :: "string \<Rightarrow> (string \<times> string) option" where
  "fraction_part s = (case s of
      [] \<Rightarrow> Some ([], [])
    | c # cs \<Rightarrow> if c = CHR 0x2E then push [c] (digits cs) else Some ([], s))"

definition exponent_part :: "string \<Rightarrow> (string \<times> string) option" where
  "exponent_part s = (case s of
      [] \<Rightarrow> Some ([], [])
    | c # cs \<Rightarrow> if c = CHR ''e'' \<or> c = CHR ''E'' then push [c] (case cs of
          [] \<Rightarrow> None
        | g # ds \<Rightarrow> if g = CHR 0x2B \<or> g = CHR 0x2D then push [g] (digits ds) else digits cs)
      else Some ([], s))"

definition read_number :: "string \<Rightarrow> (string \<times> string) option" where
  "read_number s =
     (let (sign, s1) = (case s of c # cs \<Rightarrow> if c = CHR 0x2D then ([c], cs) else ([], s) | [] \<Rightarrow> ([], s)) in
      case integer_part s1 of None \<Rightarrow> None | Some (i, s2) \<Rightarrow>
      (case fraction_part s2 of None \<Rightarrow> None | Some (f, s3) \<Rightarrow>
       push (sign @ i @ f) (exponent_part s3)))"

text \<open>A literal or a number.\<close>

definition read_scalar :: "string \<Rightarrow> (json \<times> string) option" where
  "read_scalar s =
     (if take 4 s = ''null'' then Some (JNull, drop 4 s)
      else if take 4 s = ''true'' then Some (JBool True, drop 4 s)
      else if take 5 s = ''false'' then Some (JBool False, drop 5 s)
      else map_option (apfst JNum) (read_number s))"

lemma skip_ws_shrinks: "length (skip_ws s) \<le> length s"
  by (simp add: skip_ws_def length_dropWhile_le)

lemma digits_shrinks: "digits s = Some (d, r) \<Longrightarrow> length r \<le> length s"
  by (auto simp: digits_def length_dropWhile_le split: list.splits)

lemma read_scalar_shrinks: "read_scalar s = Some (v, r) \<Longrightarrow> length r \<le> length s"
  by (auto simp: read_scalar_def read_number_def integer_part_def fraction_part_def exponent_part_def Let_def
      split: if_splits list.splits option.splits dest!: digits_shrinks)

function (sequential) read_value :: "string \<Rightarrow> (json \<times> string) option"
  and read_elems :: "string \<Rightarrow> (json list \<times> string) option"
  and read_members :: "string \<Rightarrow> ((string \<times> json) list \<times> string) option" where
  "read_value s = (case skip_ws s of
      [] \<Rightarrow> None
    | c # cs \<Rightarrow>
        if c = CHR 0x22 then map_option (apfst JStr) (read_string cs)
        else if c = CHR 0x7B then (case skip_ws cs of
            [] \<Rightarrow> None
          | d # ds \<Rightarrow> if d = CHR 0x7D then Some (JObj [], ds) else map_option (apfst JObj) (read_members (d # ds)))
        else if c = CHR 0x5B then (case skip_ws cs of
            [] \<Rightarrow> None
          | d # ds \<Rightarrow> if d = CHR 0x5D then Some (JArr [], ds) else map_option (apfst JArr) (read_elems (d # ds)))
        else read_scalar (c # cs))"
| "read_elems s = (case read_value s of
      None \<Rightarrow> None
    | Some (v, r) \<Rightarrow> (case skip_ws r of
        [] \<Rightarrow> None
      | c # cs \<Rightarrow>
          if c = CHR 0x2C then map_option (apfst ((#) v)) (read_elems cs)
          else if c = CHR 0x5D then Some ([v], cs) else None))"
| "read_members s = (case skip_ws s of
      [] \<Rightarrow> None
    | q # qs \<Rightarrow> if q \<noteq> CHR 0x22 then None else (case read_string qs of
        None \<Rightarrow> None
      | Some (k, r) \<Rightarrow> (case skip_ws r of
          [] \<Rightarrow> None
        | d # ds \<Rightarrow> if d \<noteq> CHR 0x3A then None else (case read_value ds of
            None \<Rightarrow> None
          | Some (v, t) \<Rightarrow> (case skip_ws t of
              [] \<Rightarrow> None
            | c # cs \<Rightarrow>
                if c = CHR 0x2C then map_option (apfst ((#) (k, v))) (read_members cs)
                else if c = CHR 0x7D then Some ([(k, v)], cs) else None)))))"
  by pat_completeness auto

lemma skip_ws_Cons: "skip_ws s = c # cs \<Longrightarrow> length cs < length s"
  using skip_ws_shrinks [of s] by simp

lemma read_dom_shrinks:
  "read_value_read_elems_read_members_dom (Inl s) \<Longrightarrow> read_value s = Some (v, r) \<Longrightarrow> length r \<le> length s"
  "read_value_read_elems_read_members_dom (Inr (Inl s)) \<Longrightarrow> read_elems s = Some (vs, r) \<Longrightarrow> length r \<le> length s"
  "read_value_read_elems_read_members_dom (Inr (Inr s)) \<Longrightarrow> read_members s = Some (ms, r) \<Longrightarrow> length r \<le> length s"
proof (induction s and s and s arbitrary: v r and vs r and ms r rule: read_value_read_elems_read_members.pinduct)
  case (1 s)
  then show ?case
    by (fastforce simp: read_value.psimps dest: skip_ws_Cons read_string_shrinks read_scalar_shrinks
        split: list.splits if_splits)
next
  case (2 s)
  then show ?case
    by (fastforce simp: read_elems.psimps dest: skip_ws_Cons split: list.splits if_splits option.splits)
next
  case (3 s)
  then show ?case
    by (fastforce simp: read_members.psimps dest: skip_ws_Cons read_string_shrinks
        split: list.splits if_splits option.splits)
qed

termination read_value
proof (relation "measures [case_sum length (case_sum length length), case_sum (\<lambda>_. 0) (case_sum (\<lambda>_. 1) (\<lambda>_. 1))]")
qed (auto dest!: skip_ws_Cons read_string_shrinks dest: read_dom_shrinks(1) [rotated])

declare read_value.simps [simp del] read_elems.simps [simp del] read_members.simps [simp del]

section \<open>What the encoder writes\<close>

definition json_string :: "string \<Rightarrow> string" where
  "json_string s = CHR 0x22 # json_quote s @ [CHR 0x22]"

text \<open>An object of members whose values are written already.\<close>

fun json_fields :: "(string \<times> string) list \<Rightarrow> string" where
  "json_fields [] = []"
| "json_fields [(k, t)] = json_string k @ CHR 0x3A # t"
| "json_fields ((k, t) # m # ms) = json_string k @ CHR 0x3A # t @ CHR 0x2C # json_fields (m # ms)"

definition json_object :: "(string \<times> string) list \<Rightarrow> string" where
  "json_object ms = CHR 0x7B # json_fields ms @ [CHR 0x7D]"

text \<open>A map of strings: its keys are collected in the order of the runtime and sorted.\<close>

definition json_map :: "range_order \<Rightarrow> strmap \<Rightarrow> string" where
  "json_map ord m = json_object (map (\<lambda>k. (k, json_string (the (m k)))) (sort (ord m)))"

section \<open>What was written is read back\<close>

lemma unhex_hex: "n < 16 \<Longrightarrow> unhex (hex_char n) = Some n"
proof -
  have "list_all (\<lambda>n. unhex (hex_char n) = Some n) [0..<16]" by code_simp
  then show "n < 16 \<Longrightarrow> unhex (hex_char n) = Some n" by (simp add: list_all_iff)
qed

lemma read_escape:
  assumes "of_char c < (0x80 :: nat)"
  shows "read_string (json_escape c @ t) = push [c] (read_string t)"
proof -
  let ?n = "of_char c :: nat"
  consider (plain) "json_escape c = [c]" "0x20 \<le> ?n" "c \<noteq> CHR 0x22" "c \<noteq> CHR 0x5C"
    | (short) e where "json_escape c = [CHR 0x5C, e]" "unescape e = Some c" "e \<noteq> CHR ''u''"
    | (long) "json_escape c = CHR 0x5C # ''u00'' @ [hex_char (?n div 16), hex_char (?n mod 16)]"
    by (cases "0x20 \<le> ?n \<and> c \<notin> {CHR 0x22, CHR 0x5C, CHR 0x3C, CHR 0x3E, CHR 0x26}";
        cases "c \<in> {CHR 0x22, CHR 0x5C, CHR 0x0A, CHR 0x0D, CHR 0x09}")
       (auto simp: json_escape_def unescape_def Let_def)
  then show ?thesis
  proof cases
    case plain
    then show ?thesis using assms by (simp add: read_string.simps(2) rune_size_def)
  next
    case short
    then show ?thesis by (simp add: read_string.simps(2))
  next
    case long
    have "unhex (CHR ''0'') = Some 0" by code_simp
    moreover have "unhex (hex_char (?n div 16)) = Some (?n div 16)" "unhex (hex_char (?n mod 16)) = Some (?n mod 16)"
      by (rule unhex_hex, use assms in simp)+
    ultimately have "hex4 (''00'' @ [hex_char (?n div 16), hex_char (?n mod 16)] @ t) = Some ?n" by (simp add: hex4_def)
    then show ?thesis using long assms by (simp add: read_string.simps(2) encode_rune_def)
  qed
qed

lemma encode_rune_special:
  "encode_rune 0x2028 = [CHR 0xE2, CHR 0x80, CHR 0xA8]" "encode_rune 0x2029 = [CHR 0xE2, CHR 0x80, CHR 0xA9]"
  "encode_rune 0xFFFD = replacement"
  by (simp_all add: encode_rune_def replacement_def char_of_def bit_0)

lemma hex4_special:
  "hex4 (''2028'' @ t) = Some 0x2028" "hex4 (''2029'' @ t) = Some 0x2029" "hex4 (''fffd'' @ t) = Some 0xFFFD"
  by (simp_all add: hex4_def unhex_def)

lemma read_unicode:
  assumes "hex4 (ds @ t) = Some r" "length ds = 4" "r < 0xD800 \<or> 0xE000 \<le> r"
  shows "read_string (CHR 0x5C # CHR ''u'' # ds @ t) = push (encode_rune r) (read_string t)"
  using assms by (auto simp: read_string.simps(2))

lemma read_separator:
  assumes "line_separator s"
  shows "read_string (CHR 0x5C # ''u202'' @ hex_char (of_char (s ! 2) mod 16) # t) = push (take 3 s) (read_string t)"
proof -
  have h: "hex_char 8 = CHR ''8''" "hex_char 9 = CHR ''9''" by (simp_all add: hex_char_def)
  consider "take 3 s = [CHR 0xE2, CHR 0x80, CHR 0xA8]" | "take 3 s = [CHR 0xE2, CHR 0x80, CHR 0xA9]"
    using assms by (auto simp: line_separator_def)
  then show ?thesis
  proof cases
    case 1
    then have "s ! 2 = CHR 0xA8" using nth_take [of 2 3 s] by simp
    then have "hex_char (of_char (s ! 2) mod 16) = CHR ''8''" by (simp add: h)
    then show ?thesis using read_unicode [OF hex4_special(1), of t] unfolding 1 encode_rune_special by simp
  next
    case 2
    then have "s ! 2 = CHR 0xA9" using nth_take [of 2 3 s] by simp
    then have "hex_char (of_char (s ! 2) mod 16) = CHR ''9''" by (simp add: h)
    then show ?thesis using read_unicode [OF hex4_special(2), of t] unfolding 2 encode_rune_special by simp
  qed
qed

lemma rune_size_separator:
  assumes "line_separator s"
  shows "rune_size s = Some 3"
proof -
  have "take 3 s @ drop 3 s = s" by (rule append_take_drop_id)
  then obtain t where "s = CHR 0xE2 # CHR 0x80 # CHR 0xA8 # t \<or> s = CHR 0xE2 # CHR 0x80 # CHR 0xA9 # t"
    using assms unfolding line_separator_def by (metis append_Cons append_Nil)
  then show ?thesis by (elim disjE) (simp_all add: rune_size_def utf8_first_def)
qed

lemma read_rune:
  assumes "rune_size s = Some n" "\<not> of_char (hd s) < (0x80 :: nat)"
  shows "read_string (take n s @ t) = push (take n s) (read_string t)"
proof -
  have n: "0 < n" "n \<le> length s" using rune_size_bounds [OF assms(1)] by simp_all
  obtain us where u: "take n s @ t = hd s # us" using n by (cases s; cases n) simp_all
  have "take n (take n s @ t) = take n s" "drop n (take n s @ t) = t" using n(2) by simp_all
  then have "take n (hd s # us) = take n s" "drop (n - 1) us = t" unfolding u using n(1) by (simp_all add: drop_Cons')
  moreover have "rune_size (hd s # us) = Some n" using rune_size_local [OF assms(1), of t] by (simp add: u)
  moreover have "hd s \<noteq> CHR 0x22" "hd s \<noteq> CHR 0x5C" "\<not> of_char (hd s) < (0x20 :: nat)" using assms(2) by auto
  ultimately show ?thesis unfolding u by (simp add: read_string.simps(2))
qed

lemma read_quote: "read_string (json_quote s @ CHR 0x22 # r) = Some (coerce s, r)"
proof (induction s rule: json_quote.induct)
  case 1
  then show ?case by (simp add: json_quote.simps coerce.simps read_string.simps)
next
  case (2 c cs)
  show ?case
  proof (cases "of_char c < (0x80 :: nat)")
    case True
    then have "rune_size (c # cs) = Some 1" by (simp add: rune_size_def)
    then show ?thesis using True 2(1) read_escape [OF True] by (simp add: json_quote.simps(2) coerce.simps(2))
  next
    case False
    show ?thesis
    proof (cases "rune_size (c # cs)")
      case None
      then show ?thesis
        using False 2(2) [OF False None] read_unicode [OF hex4_special(3), of "json_quote cs @ CHR 0x22 # r"]
        by (simp add: json_quote.simps(2) coerce.simps(2) encode_rune_special)
    next
      case (Some n)
      note IH = 2(3) [OF False Some]
      show ?thesis
      proof (cases "line_separator (c # cs)")
        case True
        then have "n = 3" using rune_size_separator Some by simp
        then show ?thesis using True False Some IH read_separator [OF True]
          by (simp add: json_quote.simps(2) coerce.simps(2))
      next
        case plain: False
        then show ?thesis using False Some IH read_rune [OF Some] by (simp add: json_quote.simps(2) coerce.simps(2))
      qed
    qed
  qed
qed

text \<open>\<open>reads t v\<close>: the decoder reads the value \<open>v\<close> from the text \<open>t\<close>, whatever follows.\<close>

definition reads :: "string \<Rightarrow> json \<Rightarrow> bool" where
  "reads t v \<longleftrightarrow> (\<forall>r. read_value (t @ r) = Some (v, r))"

lemma skip_ws_Nws [simp]: "c \<notin> {CHR 0x20, CHR 0x09, CHR 0x0D, CHR 0x0A} \<Longrightarrow> skip_ws (c # cs) = c # cs"
  by (simp add: skip_ws_def)

lemma reads_string: "reads (json_string s) (JStr (coerce s))"
  by (simp add: reads_def json_string_def read_value.simps read_quote)

lemma read_fields:
  "list_all2 (\<lambda>(k, t) (k', v). k' = coerce k \<and> reads t v) ts ms \<Longrightarrow> ts \<noteq> [] \<Longrightarrow>
   read_members (json_fields ts @ CHR 0x7D # r) = Some (ms, r)"
proof (induction ts arbitrary: ms rule: json_fields.induct)
  case (2 k t)
  then obtain v where "ms = [(coerce k, v)]" "reads t v" by (auto simp: list_all2_Cons1)
  then show ?case by (simp add: read_members.simps json_string_def read_quote reads_def)
next
  case (3 k t m ts)
  then obtain v ms' where ms: "ms = (coerce k, v) # ms'" "reads t v"
    "list_all2 (\<lambda>(k, t) (k', v). k' = coerce k \<and> reads t v) (m # ts) ms'" by (auto simp: list_all2_Cons1)
  from 3(1) [OF ms(3)] show ?case using ms(1,2)
    by (simp add: read_members.simps [of "CHR 0x22 # u" for u] json_string_def read_quote reads_def)
qed simp

lemma json_fields_quote: "ts \<noteq> [] \<Longrightarrow> \<exists>u. json_fields ts = CHR 0x22 # u"
  by (cases ts rule: json_fields.cases) (simp_all add: json_string_def)

lemma reads_object:
  assumes "list_all2 (\<lambda>(k, t) (k', v). k' = coerce k \<and> reads t v) ts ms"
  shows "reads (json_object ts) (JObj ms)"
proof (cases "ts = []")
  case True
  then show ?thesis using assms by (simp add: reads_def json_object_def read_value.simps)
next
  case False
  obtain u where "json_fields ts = CHR 0x22 # u" using json_fields_quote [OF False] by blast
  then show ?thesis using read_fields [OF assms False]
    by (simp add: reads_def json_object_def read_value.simps)
qed

lemma reads_map:
  "reads (json_map ord m) (JObj (map (\<lambda>k. (coerce k, JStr (coerce (the (m k))))) (sort (ord m))))"
  unfolding json_map_def by (rule reads_object) (simp add: list_all2_map1 list_all2_map2 list.rel_refl_strong reads_string)

end
