(* ===== verification/Porto_Journal.thy ===== *)
theory Porto_Journal
  imports Json
begin

text \<open>
  The journal of layers (\<^verbatim>\<open>src/isolate/porto/journal.go\<close>) with Go's binary search, and the order of
  the layers of an image (\<^verbatim>\<open>utils.go\<close>).  Strings are compared byte by byte, as Go does.
\<close>

section \<open>Searching a sorted list of strings\<close>

text \<open>\<^verbatim>\<open>sort.Search\<close>: the smallest index between \<open>i\<close> and \<open>j\<close> at which \<open>f\<close> holds.\<close>

function search :: "(nat \<Rightarrow> bool) \<Rightarrow> nat \<Rightarrow> nat \<Rightarrow> nat" where
  "search f i j = (if i < j then
      let h = (i + j) div 2 in if \<not> f h then search f (Suc h) j else search f i h
    else i)"
  by pat_completeness auto

termination search
  by (relation "measure (\<lambda>(f, i, j). j - i)") auto

declare search.simps [simp del]

definition SearchStrings :: "string list \<Rightarrow> string \<Rightarrow> nat" where
  "SearchStrings a x = search (\<lambda>i. a ! i \<ge> x) 0 (length a)"

definition in_sorted :: "string list \<Rightarrow> string \<Rightarrow> bool" where
  "in_sorted a x = (let i = SearchStrings a x in i < length a \<and> a ! i = x)"

section \<open>The journal\<close>

record journal =
  UUID :: string
  LayersMap :: strmap
  Manifests :: strmap

definition newJournal :: "string \<Rightarrow> journal" where
  "newJournal uuid = \<lparr>UUID = uuid, LayersMap = Map.empty, Manifests = Map.empty\<rparr>"

text \<open>
  \<^verbatim>\<open>String\<close> and \<^verbatim>\<open>Dump\<close>: the journal as JSON text.  The members stand in the order of the fields, the keys of a
  map are sorted; \<^verbatim>\<open>Encode\<close> ends the text with a newline.
\<close>

definition journal_String :: "range_order \<Rightarrow> journal \<Rightarrow> string" where
  "journal_String ord j = json_object [(''uuid'', json_string (UUID j)), (''layers'', json_map ord (LayersMap j)),
     (''manifests'', json_map ord (Manifests j))]"

definition Dump :: "range_order \<Rightarrow> journal \<Rightarrow> string" where
  "Dump ord j = journal_String ord j @ [CHR 0x0A]"

text \<open>
  \<^verbatim>\<open>Load\<close> decodes the first value of the text into the journal that is there.  A member is the field whose
  name it has but for the case of its letters (to which U+017F, the long s, belongs as well); other
  members are ignored.  A value of the wrong type is left out and reported at the end, a \<^verbatim>\<open>null\<close> empties a map
  and leaves a string alone.  The entries of an object are added to the map that is there, one after the
  other; an entry that is no string is stored as an empty one.
\<close>

datatype json_err = JsonSyntax | JsonType

definition fold_case :: "char \<Rightarrow> char" where
  "fold_case c = (if 0x41 \<le> (of_char c :: nat) \<and> of_char c \<le> (0x5A :: nat) then char_of (of_char c + 32 :: nat) else c)"

fun fold_key :: "string \<Rightarrow> string" where
  "fold_key [] = []"
| "fold_key [c] = [fold_case c]"
| "fold_key (c # d # cs) =
     (if c = CHR 0xC5 \<and> d = CHR 0xBF then CHR ''s'' # fold_key cs else fold_case c # fold_key (d # cs))"

definition save_err :: "json_err option \<Rightarrow> json_err option" where
  "save_err e = (case e of None \<Rightarrow> Some JsonType | Some _ \<Rightarrow> e)"

fun load_entry :: "string \<times> json \<Rightarrow> json_err option \<times> strmap \<Rightarrow> json_err option \<times> strmap" where
  "load_entry (k, JStr s) (e, m) = (e, m(k \<mapsto> s))"
| "load_entry (k, JNull) (e, m) = (e, m(k \<mapsto> ''''))"
| "load_entry (k, _) (e, m) = (save_err e, m(k \<mapsto> ''''))"

fun load_map :: "json \<Rightarrow> json_err option \<times> strmap \<Rightarrow> json_err option \<times> strmap" where
  "load_map (JObj ms) (e, m) = fold load_entry ms (e, m)"
| "load_map JNull (e, m) = (e, Map.empty)"
| "load_map _ (e, m) = (save_err e, m)"

fun load_string :: "json \<Rightarrow> json_err option \<times> string \<Rightarrow> json_err option \<times> string" where
  "load_string (JStr t) (e, s) = (e, t)"
| "load_string JNull (e, s) = (e, s)"
| "load_string _ (e, s) = (save_err e, s)"

definition load_field :: "string \<times> json \<Rightarrow> json_err option \<times> journal \<Rightarrow> json_err option \<times> journal" where
  "load_field = (\<lambda>(k, v) (e, j). let f = fold_key k in
     if f = ''uuid'' then apsnd (\<lambda>s. j\<lparr>UUID := s\<rparr>) (load_string v (e, UUID j))
     else if f = ''layers'' then apsnd (\<lambda>m. j\<lparr>LayersMap := m\<rparr>) (load_map v (e, LayersMap j))
     else if f = ''manifests'' then apsnd (\<lambda>m. j\<lparr>Manifests := m\<rparr>) (load_map v (e, Manifests j))
     else (e, j))"

definition Load :: "string \<Rightarrow> journal \<Rightarrow> json_err option \<times> journal" where
  "Load doc j = (case read_value doc of
      None \<Rightarrow> (Some JsonSyntax, j)
    | Some (v, _) \<Rightarrow> (case v of
        JObj ms \<Rightarrow> fold load_field ms (None, j)
      | JNull \<Rightarrow> (None, j)
      | _ \<Rightarrow> (Some JsonType, j)))"

definition InsertManifestLayers :: "string \<Rightarrow> string \<Rightarrow> journal \<Rightarrow> journal" where
  "InsertManifestLayers manifest layers j = j\<lparr>Manifests := (Manifests j)(manifest \<mapsto> layers)\<rparr>"

definition GetManifestLayers :: "string \<Rightarrow> journal \<Rightarrow> string" where
  "GetManifestLayers manifest j = (case Manifests j manifest of None \<Rightarrow> '''' | Some layers \<Rightarrow> layers)"

definition Insert :: "string \<Rightarrow> string \<Rightarrow> journal \<Rightarrow> journal" where
  "Insert layer digest j = j\<lparr>LayersMap := (LayersMap j)(layer \<mapsto> digest)\<rparr>"

definition In :: "string \<Rightarrow> string \<Rightarrow> journal \<Rightarrow> bool" where
  "In layer digest j = (case LayersMap j layer of None \<Rightarrow> False | Some v \<Rightarrow> v = digest)"

text \<open>The layers porto reports are sorted if need be, then every recorded layer is looked up.\<close>

definition UpdateFromPorto :: "range_order \<Rightarrow> string list \<Rightarrow> journal \<Rightarrow> journal" where
  "UpdateFromPorto ord layers j =
     (if length layers = 0 then j\<lparr>LayersMap := Map.empty\<rparr>
      else
        let layers' = (if sorted layers then layers else sort layers) in
        j\<lparr>LayersMap := fold (\<lambda>k m. if \<not> in_sorted layers' k then m(k := None) else m)
            (ord (LayersMap j)) (LayersMap j)\<rparr>)"

section \<open>The order of layers (utils.go)\<close>

text \<open>\<^verbatim>\<open>layerOrderV2\<close> exchanges the elements from the two ends to the middle.\<close>

definition swap :: "nat \<Rightarrow> nat \<Rightarrow> 'a list \<Rightarrow> 'a list" where
  "swap i k xs = xs[i := xs ! k, k := xs ! i]"

definition layerOrderV2 :: "'a list \<Rightarrow> 'a list" where
  "layerOrderV2 ds =
     (let size = length ds - 1 in fold (\<lambda>i xs. swap i (size - i) xs) [0..<length ds div 2] ds)"

definition layerOrderV1 :: "'a list \<Rightarrow> 'a list" where
  "layerOrderV1 references = references"

section \<open>Lemmas\<close>

lemma search_bounds: "i \<le> j \<Longrightarrow> i \<le> search f i j \<and> search f i j \<le> j"
proof (induction f i j rule: search.induct)
  case (1 f i j)
  show ?case
  proof (cases "i < j")
    case True
    then have h: "i \<le> (i + j) div 2" "Suc ((i + j) div 2) \<le> j" by auto
    show ?thesis
    proof (cases "f ((i + j) div 2)")
      case yes: True
      have "search f i j = search f i ((i + j) div 2)" using True yes by (simp add: search.simps [of f i j] Let_def)
      then show ?thesis using 1(2) [OF True refl _ h(1)] yes h(2) by simp
    next
      case no: False
      have "search f i j = search f (Suc ((i + j) div 2)) j" using True no by (simp add: search.simps [of f i j] Let_def)
      then show ?thesis using 1(1) [OF True refl no h(2)] h(1) by simp
    qed
  next
    case False
    with "1.prems" have "i = j" by simp
    then show ?thesis by (simp add: search.simps [of f j j])
  qed
qed

lemma search_least:
  assumes "i \<le> j" "\<And>a b. a \<le> b \<Longrightarrow> b < j \<Longrightarrow> f a \<Longrightarrow> f b"
  shows "(\<forall>k. i \<le> k \<and> k < search f i j \<longrightarrow> \<not> f k) \<and> (search f i j < j \<longrightarrow> f (search f i j))"
  using assms
proof (induction f i j rule: search.induct)
  case (1 f i j)
  let ?h = "(i + j) div 2"
  show ?case
  proof (cases "i < j")
    case False
    then show ?thesis by (auto simp: search.simps [of f i j])
  next
    case True
    then have h: "i \<le> ?h" "?h < j" by auto
    show ?thesis
    proof (cases "f ?h")
      case yes: True
      have eq: "search f i j = search f i ?h" using True yes by (simp add: search.simps [of f i j] Let_def)
      have "(\<forall>k. i \<le> k \<and> k < search f i ?h \<longrightarrow> \<not> f k) \<and> (search f i ?h < ?h \<longrightarrow> f (search f i ?h))"
        using 1(2) [OF True refl] yes h "1.prems"(2) by auto
      moreover have "search f i ?h \<le> ?h" using search_bounds [OF h(1)] by simp
      ultimately show ?thesis using yes unfolding eq by (metis le_neq_implies_less)
    next
      case no: False
      have eq: "search f i j = search f (Suc ?h) j" using True no by (simp add: search.simps [of f i j] Let_def)
      have IH: "(\<forall>k. Suc ?h \<le> k \<and> k < search f (Suc ?h) j \<longrightarrow> \<not> f k) \<and> (search f (Suc ?h) j < j \<longrightarrow> f (search f (Suc ?h) j))"
        using 1(1) [OF True refl] no h "1.prems"(2) by auto
      have "\<not> f k" if "k \<le> ?h" for k using "1.prems"(2) [OF that h(2)] no by blast
      then show ?thesis using IH unfolding eq by (metis not_less_eq_eq)
    qed
  qed
qed

theorem in_sorted_iff:
  assumes "sorted a"
  shows "in_sorted a x \<longleftrightarrow> x \<in> set a"
proof -
  let ?i = "SearchStrings a x"
  have "(\<forall>k. 0 \<le> k \<and> k < ?i \<longrightarrow> \<not> a ! k \<ge> x) \<and> (?i < length a \<longrightarrow> a ! ?i \<ge> x)"
    unfolding SearchStrings_def
    by (rule search_least) (use assms in \<open>auto dest: sorted_nth_mono order_trans\<close>)
  then have least: "\<And>k. k < ?i \<Longrightarrow> a ! k < x" "?i < length a \<Longrightarrow> a ! ?i \<ge> x" by auto
  have "?i < length a \<and> a ! ?i = x" if k: "k < length a" "a ! k = x" for k
  proof -
    have "?i \<le> k" using least(1) [of k] k by (meson less_irrefl not_le)
    then have "a ! ?i \<le> a ! k" using assms k(1) by (simp add: sorted_nth_mono)
    with \<open>?i \<le> k\<close> k least(2) show ?thesis by simp
  qed
  then show ?thesis by (auto simp: in_sorted_def Let_def in_set_conv_nth)
qed

lemma fold_forget:
  "fold (\<lambda>k m. if \<not> P k then m(k := None) else m) ks m x = (if x \<in> set ks \<and> \<not> P x then None else m x)"
  by (induction ks arbitrary: m) auto

lemma UpdateFromPorto_restrict:
  assumes "ranges ord (LayersMap j)"
  shows "UpdateFromPorto ord layers j = j\<lparr>LayersMap := LayersMap j |` set layers\<rparr>"
proof -
  have "in_sorted (if sorted layers then layers else sort layers) k \<longleftrightarrow> k \<in> set layers" for k
    by (subst in_sorted_iff) auto
  then show ?thesis
    using assms by (auto simp: UpdateFromPorto_def Let_def fold_forget restrict_map_def ranges_def domIff fun_eq_iff
        intro!: arg_cong [where f = "\<lambda>m. LayersMap_update m j"])
qed

text \<open>What a journal reads back as: itself, when its strings are UTF-8.\<close>

definition strings_valid :: "strmap \<Rightarrow> bool" where
  "strings_valid m \<longleftrightarrow> (\<forall>k v. m k = Some v \<longrightarrow> valid_utf8 k \<and> valid_utf8 v)"

definition journal_valid :: "journal \<Rightarrow> bool" where
  "journal_valid j \<longleftrightarrow> valid_utf8 (UUID j) \<and> strings_valid (LayersMap j) \<and> strings_valid (Manifests j)"

lemma load_entries:
  "set ks \<subseteq> dom m \<Longrightarrow> strings_valid m \<Longrightarrow>
   fold load_entry (map (\<lambda>k. (coerce k, JStr (coerce (the (m k))))) ks) (e, n) = (e, n ++ m |` set ks)"
proof (induction ks arbitrary: n)
  case (Cons k ks)
  then obtain v where v: "m k = Some v" "valid_utf8 k" "valid_utf8 v" by (auto simp: strings_valid_def)
  have "n(k \<mapsto> v) ++ m |` set ks = n ++ m |` set (k # ks)"
    using v(1) by (auto simp: map_add_def restrict_map_def fun_eq_iff split: option.splits)
  then show ?case using Cons v by (simp add: coerce_valid)
qed simp

lemma load_whole_map:
  assumes "ranges ord m" "strings_valid m"
  shows "load_map (JObj (map (\<lambda>k. (coerce k, JStr (coerce (the (m k))))) (sort (ord m)))) (e, Map.empty) = (e, m)"
proof -
  have "m |` dom m = m" by (auto simp: restrict_map_def fun_eq_iff domIff)
  then show ?thesis using load_entries [of "sort (ord m)" m e Map.empty] assms by (simp add: ranges_def)
qed

lemma field_names:
  "coerce ''uuid'' = ''uuid''" "coerce ''layers'' = ''layers''" "coerce ''manifests'' = ''manifests''"
  by (simp_all add: coerce.simps rune_size_def)

lemma load_fields:
  "load_field (''uuid'', v) (e, j) = apsnd (\<lambda>s. j\<lparr>UUID := s\<rparr>) (load_string v (e, UUID j))"
  "load_field (''layers'', v) (e, j) = apsnd (\<lambda>m. j\<lparr>LayersMap := m\<rparr>) (load_map v (e, LayersMap j))"
  "load_field (''manifests'', v) (e, j) = apsnd (\<lambda>m. j\<lparr>Manifests := m\<rparr>) (load_map v (e, Manifests j))"
  by (simp_all add: load_field_def fold_case_def)

theorem Load_Dump:
  assumes "ranges ord (LayersMap j)" "ranges ord (Manifests j)" "journal_valid j"
  shows "Load (Dump ord j) (newJournal uuid) = (None, j)"
proof -
  let ?obj = "\<lambda>m. JObj (map (\<lambda>k. (coerce k, JStr (coerce (the (m k))))) (sort (ord m)))"
  have "reads (journal_String ord j) (JObj [(''uuid'', JStr (coerce (UUID j))), (''layers'', ?obj (LayersMap j)),
      (''manifests'', ?obj (Manifests j))])"
    unfolding journal_String_def by (rule reads_object) (simp add: field_names reads_string reads_map)
  then have loads: "Load (Dump ord j) i = fold load_field [(''uuid'', JStr (coerce (UUID j))), (''layers'', ?obj (LayersMap j)),
      (''manifests'', ?obj (Manifests j))] (None, i)" for i
    by (simp add: Load_def Dump_def reads_def)
  have "load_map (?obj (LayersMap j)) (None, Map.empty) = (None, LayersMap j)"
    "load_map (?obj (Manifests j)) (None, Map.empty) = (None, Manifests j)"
    using assms by (simp_all only: load_whole_map journal_valid_def)
  then show ?thesis unfolding loads using assms(3)
    by (simp add: load_fields newJournal_def journal_valid_def coerce_valid del: load_map.simps)
qed

lemma length_swap [simp]: "length (swap i k xs) = length xs"
  by (simp add: swap_def)

lemma nth_swap:
  "i < length xs \<Longrightarrow> k < length xs \<Longrightarrow>
   swap i k xs ! j = (if j = k then xs ! i else if j = i then xs ! k else xs ! j)"
  by (auto simp: swap_def nth_list_update)

lemma length_swaps [simp]: "length (fold (\<lambda>i xs. swap i (g i) xs) ks xs) = length xs"
  by (induction ks arbitrary: xs) simp_all

lemma swaps_nth:
  assumes "n = length xs - 1" "k \<le> length xs div 2" "j < length xs"
  shows "fold (\<lambda>i ys. swap i (n - i) ys) [0..<k] xs ! j =
    (if j < k \<or> length xs - k \<le> j then xs ! (n - j) else xs ! j)"
  using assms(2,3)
proof (induction k arbitrary: j)
  case (Suc k)
  let ?ys = "fold (\<lambda>i ys. swap i (n - i) ys) [0..<k] xs"
  have k: "k < length xs" "n - k < length xs" "k < n - k" using Suc.prems(1) assms(1) by auto
  have IH: "?ys ! i = (if i < k \<or> length xs - k \<le> i then xs ! (n - i) else xs ! i)" if "i < length xs" for i
    using Suc that by simp
  have "fold (\<lambda>i ys. swap i (n - i) ys) [0..<Suc k] xs = swap k (n - k) ?ys" by simp
  then have "fold (\<lambda>i ys. swap i (n - i) ys) [0..<Suc k] xs ! j =
      (if j = n - k then ?ys ! k else if j = k then ?ys ! (n - k) else ?ys ! j)"
    using k by (simp add: nth_swap)
  also have "\<dots> = (if j < Suc k \<or> length xs - Suc k \<le> j then xs ! (n - j) else xs ! j)"
  proof -
    have n: "n = length xs - 1" by (rule assms(1))
    consider "j = n - k" | "j = k" "j \<noteq> n - k" | "j \<noteq> n - k" "j \<noteq> k" by blast
    then show ?thesis
    proof cases
      case 1
      then have "n - j = k" "length xs - Suc k \<le> j" "\<not> length xs - k \<le> k" using k n by linarith+
      then show ?thesis using 1 IH [OF k(1)] by simp
    next
      case 2
      then have "\<not> length xs - k \<le> n - k" "\<not> n - k < k" using k n by linarith+
      then show ?thesis using 2 IH [OF k(2)] by simp
    next
      case 3
      then have "j < Suc k \<longleftrightarrow> j < k" "length xs - Suc k \<le> j \<longleftrightarrow> length xs - k \<le> j" using k n by linarith+
      then show ?thesis using 3 IH [OF Suc.prems(2)] by simp
    qed
  qed
  finally show ?case .
qed simp

theorem layerOrderV2_rev: "layerOrderV2 ds = rev ds"
proof (rule nth_equalityI)
  show "length (layerOrderV2 ds) = length (rev ds)" by (simp add: layerOrderV2_def Let_def)
next
  fix j assume "j < length (layerOrderV2 ds)"
  then have j: "j < length ds" by (simp add: layerOrderV2_def Let_def)
  then have middle: "j = length ds - Suc j" if "\<not> j < length ds div 2" "\<not> length ds - length ds div 2 \<le> j"
    using that by presburger
  show "layerOrderV2 ds ! j = rev ds ! j"
    unfolding layerOrderV2_def Let_def swaps_nth [OF refl le_refl j] using j middle by (auto simp: rev_nth)
qed

end
