(* ===== verification/Porto_Container.thy ===== *)
theory Porto_Container
  imports Host Porto_Codec Porto_Journal
begin

text \<open>
  Volumes and containers of the porto isolation (\<^verbatim>\<open>container_config.go\<close>, \<^verbatim>\<open>container.go\<close> and the
  connection of \<^verbatim>\<open>utils.go\<close> under \<^verbatim>\<open>src/isolate/porto\<close>).  The porto daemon, the file system and the
  allocator are parameters: what they answer is a function of the calls made so far.
\<close>

section \<open>The environment\<close>

datatype pevent =
    PConnect
  | PCreate string
  | PDestroy string
  | PStart string
  | PKill string
  | PWait string
  | PSetProperty string string string
  | PGetProperty string string
  | PGetData string string
  | PCreateVolume string strmap
  | PLinkVolume string string
  | PUnlinkVolume string string
  | PListVolumes
  | PList
  | PListLayers
  | PImportLayer string string
  | PPlist
  | PDlist
  | PGet string "string list"
  | OsMkdirAll string
  | OsRemoveAll string
  | Output string string
  | OsLstat string
  | OsCreate string
  | OsRemove string
  | OsRename string string
  | OsOpen string
  | OsTempFile string
  | JournalWrite string string
  | JournalRead string
  | BlobOpen string
  | IoCopy string
  | Sha256 string
  | RunHelper "string list"
  | RegParse string
  | RegRepository string string "string option"
  | RegTag
  | RegManifests
  | RegGet

datatype dial = Dialled | Temporary | DialErr derr

text \<open>A manifest of the registry by its schema, with the digests of its references.\<close>

datatype manifest = Schema1 "string list" | Schema2 "string list" | OtherManifest

text \<open>The value of a property as porto answers it, with its error.\<close>

record getResponse =
  grValue :: string
  grError :: int
  grErrorMsg :: string

record ('db, 'tx) penv =
  acks :: "pevent history \<Rightarrow> pevent \<Rightarrow> derr + unit"
  texts :: "pevent history \<Rightarrow> pevent \<Rightarrow> derr + string"
  lists :: "pevent history \<Rightarrow> pevent \<Rightarrow> derr + string list"
  vols :: "pevent history \<Rightarrow> pevent \<Rightarrow> derr + (string \<times> strmap) list"
  manifest_of :: "pevent history \<Rightarrow> pevent \<Rightarrow> derr + manifest"
  docs :: "pevent history \<Rightarrow> pevent \<Rightarrow> derr + string"
  datas :: "pevent history \<Rightarrow> pevent \<Rightarrow> derr + (string \<rightharpoonup> (string \<rightharpoonup> getResponse))"
  rands :: "pevent history \<Rightarrow> nat"
  dials :: "pevent history \<Rightarrow> nat \<Rightarrow> dial"
  allocator :: "pevent history \<Rightarrow> nat \<Rightarrow> RawAlloc http"
  boltdb :: "('db, 'tx) bolt"
  alloc_range :: alloc_order
  str_range :: range_order

record 'db pworld = "pevent world" +
  mtn :: "'db MtnState"

definition ack :: "('db, 'tx) penv \<Rightarrow> pevent \<Rightarrow> (gerr, 'db pworld, unit) rd" where
  "ack env = call (acks env)"

definition on_mtn ::
  "('db MtnState \<Rightarrow> (merr + 'a) \<times> 'db MtnState) \<Rightarrow> (gerr, 'db pworld, 'a) rd" where
  "on_mtn f w = (case f (mtn w) of
      (Inl e, c) \<Rightarrow> (Inl (MtnErr e), w\<lparr>mtn := c\<rparr>)
    | (Inr x, c) \<Rightarrow> (Inr x, w\<lparr>mtn := c\<rparr>))"

section \<open>Connecting (utils.go)\<close>

text \<open>
  \<^verbatim>\<open>portoConnect\<close> dials again after every temporary error.  The loop may run forever; then it has no
  value.  The result is the error of the dialling that ended it, if any.
\<close>

partial_function (option) connect_loop :: "(nat \<Rightarrow> dial) \<Rightarrow> nat \<Rightarrow> derr option option" where
  "connect_loop d n = (case d n of
      Dialled \<Rightarrow> Some None
    | Temporary \<Rightarrow> connect_loop d (Suc n)
    | DialErr e \<Rightarrow> Some (Some e))"

definition portoConnect :: "('db, 'tx) penv \<Rightarrow> (gerr, 'db pworld, unit) rd" where
  "portoConnect env w = (case connect_loop (dials env (hist w)) 0 of
      None \<Rightarrow> (Inl Blocked, w)
    | Some None \<Rightarrow> (Inr (), w\<lparr>hist := hist w @ [(PConnect, True)]\<rparr>)
    | Some (Some e) \<Rightarrow> (Inl (Reported e), w\<lparr>hist := hist w @ [(PConnect, False)]\<rparr>))"

definition isEqualPortoError :: "gerr \<Rightarrow> int \<Rightarrow> bool" where
  "isEqualPortoError err expected = (case err of
      Reported (PortoError errno _ _) \<Rightarrow> errno = expected | _ \<Rightarrow> False)"

definition EError_InvalidState :: int where "EError_InvalidState = 8"
definition EError_LayerAlreadyExists :: int where "EError_LayerAlreadyExists = 18"

section \<open>Volumes (container_config.go)\<close>

text \<open>
  A \<^verbatim>\<open>portoVolume\<close>, and a \<^verbatim>\<open>storageVolume\<close> around one when \<open>vstorage\<close> is its storage path.
\<close>

record portoVolume =
  vcID :: string
  vpath :: string
  vlinked :: bool
  vproperties :: strmap
  vstorage :: "string option"

definition Volume_Link ::
  "('db, 'tx) penv \<Rightarrow> portoVolume \<Rightarrow> (gerr, 'db pworld, portoVolume) rd" where
  "Volume_Link env v =
     rd_bind (ack env (PLinkVolume (vpath v) (vcID v))) (\<lambda>_.
     rd_bind (logged (ack env (PUnlinkVolume (vpath v) ''/''))) (\<lambda>_.
     rd_return (v\<lparr>vlinked := True\<rparr>)))"

text \<open>The value is the error of \<^verbatim>\<open>os.RemoveAll\<close>: the earlier ones are overwritten.\<close>

definition portoVolume_Destroy ::
  "('db, 'tx) penv \<Rightarrow> portoVolume \<Rightarrow> (gerr, 'db pworld, gerr + unit) rd" where
  "portoVolume_Destroy env v =
     rd_bind (if vlinked v then
                rd_bind (logged (ack env (PUnlinkVolume (vpath v) (vcID v)))) (\<lambda>_.
                logged (ack env (PUnlinkVolume (vpath v) ''self'')))
              else rd_return ()) (\<lambda>_.
     rd_bind (logged (ack env (PUnlinkVolume (vpath v) ''/''))) (\<lambda>_.
     attempt (ack env (OsRemoveAll (vpath v)))))"

definition Volume_Destroy ::
  "('db, 'tx) penv \<Rightarrow> portoVolume \<Rightarrow> (gerr, 'db pworld, gerr + unit) rd" where
  "Volume_Destroy env v = (case vstorage v of
      None \<Rightarrow> portoVolume_Destroy env v
    | Some storagepath \<Rightarrow>
        rd_bind (portoVolume_Destroy env v) (\<lambda>err.
        rd_bind (if storagepath \<noteq> '''' then logged (ack env (OsRemoveAll storagepath)) else rd_return ()) (\<lambda>_.
        rd_return err)))"

section \<open>The configuration of a container\<close>

record execInfo =
  eProfile :: PortoProfile
  eName :: string
  eExecutable :: string
  eUlimits :: string
  eResolvConf :: string
  eArgs :: strmap
  eEnv :: strmap

record containerConfig = execInfo +
  ccBoxName :: string
  ccRoot :: string
  ccID :: string
  ccLayer :: string
  ccCleanupEnabled :: bool
  ccSetImgURI :: bool
  ccVolumeBackend :: string
  ccMtn :: bool
  ccMtnAllocationId :: string
  ccMtnIp :: string
  ccVolumeLabel :: string

text \<open>\<^verbatim>\<open>for k, v := range m { properties[k] = v }\<close>\<close>

definition set_all :: "range_order \<Rightarrow> strmap \<Rightarrow> strmap \<Rightarrow> strmap" where
  "set_all ord m properties = fold (\<lambda>(k, v) p. p(k \<mapsto> v)) (pairs ord m) properties"

definition CreateRootVolume ::
  "('db, 'tx) penv \<Rightarrow> containerConfig \<Rightarrow> (gerr, 'db pworld, portoVolume) rd" where
  "CreateRootVolume env c =
     (let properties = set_all (str_range env) (PortoProfile.Volume (eProfile c))
            [''backend'' \<mapsto> ccVolumeBackend c, ''layers'' \<mapsto> ccLayer c, ''private'' \<mapsto> ccVolumeLabel c];
          path = Join [ccRoot c, ''volume'']
      in rd_bind (ack env (OsMkdirAll path)) (\<lambda>_.
         let volume = \<lparr>vcID = ccID c, vpath = path, vlinked = False, vproperties = properties, vstorage = None\<rparr> in
         rd_bind (attempt (ack env (PCreateVolume path properties))) (\<lambda>r. case r of
             Inl e \<Rightarrow> rd_bind (Volume_Destroy env volume) (\<lambda>_. rd_fail e)
           | Inr _ \<Rightarrow> rd_return volume)))"

definition cleanUpOnError ::
  "('db, 'tx) penv \<Rightarrow> portoVolume list \<Rightarrow> (gerr, 'db pworld, unit) rd" where
  "cleanUpOnError env volumes = each (\<lambda>v. rd_bind (Volume_Destroy env v) (\<lambda>_. rd_return ())) volumes"

text \<open>The end of the loop body: \<^verbatim>\<open>CreateVolume\<close> with everything made so far cleaned up on its error.\<close>

definition create_extra ::
  "('db, 'tx) penv \<Rightarrow> string \<Rightarrow> strmap \<Rightarrow> portoVolume list \<Rightarrow> (gerr, 'db pworld, unit) rd" where
  "create_extra env path properties volumes =
     rd_bind (attempt (ack env (PCreateVolume path properties))) (\<lambda>r. case r of
         Inl e \<Rightarrow> rd_bind (cleanUpOnError env volumes) (\<lambda>_. rd_fail e)
       | Inr _ \<Rightarrow> rd_return ())"

text \<open>One round of the loop, from the volumes made before to those with the new one.\<close>

definition extra_volume ::
  "('db, 'tx) penv \<Rightarrow> string \<Rightarrow> string \<Rightarrow> portoVolume list \<Rightarrow> VolumeProfile \<Rightarrow>
   (gerr, 'db pworld, portoVolume list) rd" where
  "extra_volume env ID rootvol volumes vp =
     (if Target vp = '''' then
        rd_bind (cleanUpOnError env volumes) (\<lambda>_. rd_fail (Errorf ''can not create volume with empty target''))
      else
        let path = Join [rootvol, Target vp] in
        rd_bind (attempt (ack env (OsMkdirAll path))) (\<lambda>r. case r of
          Inl e \<Rightarrow> rd_bind (cleanUpOnError env volumes) (\<lambda>_. rd_fail e)
        | Inr _ \<Rightarrow>
            let extraVolume = \<lparr>vcID = ID, vpath = path, vlinked = False, vproperties = Properties vp, vstorage = None\<rparr>;
                storage = get_str (Properties vp) ''storage''
            in if storage \<noteq> '''' then
                 let storagepath = Join [storage, ID]; storagevolume = extraVolume\<lparr>vstorage := Some ''''\<rparr> in
                 rd_bind (attempt (ack env (OsMkdirAll storagepath))) (\<lambda>r. case r of
                   Inl e \<Rightarrow> rd_bind (cleanUpOnError env (volumes @ [storagevolume])) (\<lambda>_. rd_fail e)
                 | Inr _ \<Rightarrow>
                     let properties = (Properties vp)(''storage'' \<mapsto> storagepath);
                         volumes' = volumes @ [storagevolume\<lparr>vproperties := properties, vstorage := Some storagepath\<rparr>]
                     in rd_bind (create_extra env path properties volumes') (\<lambda>_. rd_return volumes'))
               else
                 rd_bind (create_extra env path (Properties vp) (volumes @ [extraVolume])) (\<lambda>_.
                   rd_return (volumes @ [extraVolume]))))"

fun extra_volumes ::
  "('db, 'tx) penv \<Rightarrow> string \<Rightarrow> string \<Rightarrow> VolumeProfile list \<Rightarrow> portoVolume list \<Rightarrow>
   (gerr, 'db pworld, portoVolume list) rd" where
  "extra_volumes env ID rootvol [] volumes = rd_return volumes"
| "extra_volumes env ID rootvol (vp # vps) volumes =
     rd_bind (extra_volume env ID rootvol volumes vp) (extra_volumes env ID rootvol vps)"

definition CreateExtraVolumes ::
  "('db, 'tx) penv \<Rightarrow> containerConfig \<Rightarrow> portoVolume \<Rightarrow> (gerr, 'db pworld, portoVolume list) rd" where
  "CreateExtraVolumes env c rootvol =
     extra_volumes env (ccID c) (vpath rootvol) (elems (ExtraVolumes (eProfile c))) []"

section \<open>The properties of a container\<close>

definition formatCommand :: "range_order \<Rightarrow> string \<Rightarrow> strmap \<Rightarrow> string" where
  "formatCommand ord executable args =
     fold (\<lambda>(k, v) buff. buff @ '' '' @ k @ '' '' @ v) (pairs ord args) executable"

definition formatEnv :: "range_order \<Rightarrow> strmap \<Rightarrow> string" where
  "formatEnv ord env =
     fold (\<lambda>(k, v) buff. (if length buff > 0 then buff @ '';'' else buff) @ k @ ''='' @ v) (pairs ord env) ''''"

definition pickNetwork :: "string \<Rightarrow> string" where
  "pickNetwork network = (if network = ''inherited'' then network else ''inherited'')"

text \<open>\<^verbatim>\<open>formatBinds\<close> also rewrites the endpoint among the arguments.\<close>

definition formatBinds :: "('a) execInfo_scheme \<Rightarrow> string \<times> ('a) execInfo_scheme" where
  "formatBinds info =
     (fold (\<lambda>dockerBind buff. buff @ '';'' @ replace_char CHR '':'' CHR '' '' dockerBind)
        (elems (PortoProfile.Binds (eProfile info)))
        (get_str (eArgs info) ''--endpoint'' @ '' '' @ ''/run/cocaine''),
      info\<lparr>eArgs := (eArgs info)(''--endpoint'' \<mapsto> ''/run/cocaine'')\<rparr>)"

definition merge_property :: "string \<Rightarrow> string \<Rightarrow> strmap \<Rightarrow> strmap" where
  "merge_property k v properties = properties(k \<mapsto> (case properties k of None \<Rightarrow> v | Some u \<Rightarrow> u @ '';'' @ v))"

text \<open>From the image address to the protected options of \<^verbatim>\<open>CreateContainer\<close>.\<close>

definition container_properties ::
  "range_order \<Rightarrow> containerConfig \<Rightarrow> string \<Rightarrow> strmap \<times> containerConfig" where
  "container_properties ord c rootvol =
     (let c1 = (if ccSetImgURI c
                then c\<lparr>eEnv := (eEnv c)(''image_uri'' \<mapsto> PortoProfile.Registry (eProfile c) @ ''/'' @ eName c)\<rparr>
                else c);
          p0 = Map.empty;
          p1 = (if eUlimits c1 \<noteq> '''' then p0(''ulimit'' \<mapsto> eUlimits c1) else p0);
          p2 = (if PortoProfile.Cwd (eProfile c1) \<noteq> '''' then p1(''cwd'' \<mapsto> PortoProfile.Cwd (eProfile c1)) else p1);
          p3 = set_all ord (Container (eProfile c1)) p2;
          p4 = merge_property ''env'' (formatEnv ord (eEnv c1)) p3;
          (binds, c2) = formatBinds c1;
          p5 = merge_property ''bind'' binds p4;
          p6 = (if eResolvConf c2 \<noteq> '''' then p5(''resolv_conf'' \<mapsto> eResolvConf c2) else p5)
      in (p6(''command'' \<mapsto> formatCommand ord (eExecutable c2) (eArgs c2), ''root'' \<mapsto> rootvol,
             ''enable_porto'' \<mapsto> ''false''), c2))"

text \<open>The network of the container: the host's, or an allocation of the pool.\<close>

definition pick_network ::
  "('db, 'tx) penv \<Rightarrow> containerConfig \<Rightarrow> strmap \<Rightarrow>
   (gerr, 'db pworld, strmap \<times> containerConfig) rd" where
  "pick_network env c properties w =
     (let network = PortoProfile.Network (eProfile c) in
      if \<not> Enable (Cfg (mtn w)) then
        (Inr (properties(''net'' \<mapsto> pickNetwork (PortoProfile.NetworkMode (eProfile c))), c\<lparr>ccMtn := False\<rparr>), w)
      else if get_str network ''mtn'' = ''enable'' then
        rd_bind (on_mtn (UseAlloc (boltdb env) (alloc_range env) (allocator env (hist w))
            (get_str network ''netid'') (ccBoxName c))) (\<lambda>alloc.
          rd_return (properties(''net'' \<mapsto> aNet alloc, ''hostname'' \<mapsto> aHostname alloc, ''ip'' \<mapsto> aIp alloc),
            c\<lparr>ccMtn := True, ccMtnAllocationId := aId alloc, ccMtnIp := aIp alloc\<rparr>)) w
      else (Inr (properties, c\<lparr>ccMtn := False\<rparr>), w))"

text \<open>Linking the volumes one after the other; the ones linked before an error stay linked.\<close>

fun link_all ::
  "('db, 'tx) penv \<Rightarrow> portoVolume list \<Rightarrow>
   (gerr, 'db pworld, portoVolume list \<times> gerr option) rd" where
  "link_all env [] = rd_return ([], None)"
| "link_all env (v # vs) = rd_bind (attempt (Volume_Link env v)) (\<lambda>r. case r of
      Inl e \<Rightarrow> rd_return (v # vs, Some e)
    | Inr v' \<Rightarrow> rd_bind (link_all env vs) (\<lambda>(vs', err). rd_return (v' # vs', err)))"

text \<open>
  \<^verbatim>\<open>CreateContainer\<close> changes its receiver and the volumes through their pointers: the value is
  what they have become together with the error.
\<close>

type_synonym created = "(containerConfig \<times> portoVolume \<times> portoVolume list) \<times> gerr option"

definition create_body ::
  "('db, 'tx) penv \<Rightarrow> containerConfig \<Rightarrow> portoVolume \<Rightarrow> portoVolume list \<Rightarrow>
   (gerr, 'db pworld, created) rd" where
  "create_body env c rootvol extraVolumes =
     (let (properties, c1) = container_properties (str_range env) c (vpath rootvol) in
      rd_bind (attempt (pick_network env c1 properties)) (\<lambda>r. case r of
        Inl e \<Rightarrow> rd_return ((c1\<lparr>ccMtn := False\<rparr>, rootvol, extraVolumes), Some e)
      | Inr (properties', c2) \<Rightarrow>
          rd_bind (attempt (each (\<lambda>(property, value). ack env (PSetProperty (ccID c2) property value))
              (pairs (str_range env) properties'))) (\<lambda>r. case r of
            Inl e \<Rightarrow> rd_return ((c2, rootvol, extraVolumes), Some e)
          | Inr _ \<Rightarrow>
              rd_bind (attempt (Volume_Link env rootvol)) (\<lambda>r. case r of
                Inl e \<Rightarrow> rd_bind (logged (ack env (PDestroy (ccID c2)))) (\<lambda>_.
                  rd_return ((c2, rootvol, extraVolumes), Some e))
              | Inr root' \<Rightarrow>
                  rd_bind (link_all env extraVolumes) (\<lambda>(extraVolumes', err). case err of
                    Some e \<Rightarrow> rd_bind (logged (ack env (PDestroy (ccID c2)))) (\<lambda>_.
                      rd_return ((c2, root', extraVolumes'), Some e))
                  | None \<Rightarrow> rd_return ((c2, root', extraVolumes'), None))))))"

definition CreateContainer ::
  "('db, 'tx) penv \<Rightarrow> containerConfig \<Rightarrow> portoVolume \<Rightarrow> portoVolume list \<Rightarrow>
   (gerr, 'db pworld, created) rd" where
  "CreateContainer env c rootvol extraVolumes =
     rd_bind (attempt (ack env (PCreate (ccID c)))) (\<lambda>r. case r of
       Inl e \<Rightarrow> rd_return ((c, rootvol, extraVolumes), Some e)
     | Inr _ \<Rightarrow> rd_bind (create_body env c rootvol extraVolumes) (\<lambda>(res, err).
         rd_bind (if err \<noteq> None then logged (ack env (PDestroy (ccID c))) else rd_return ()) (\<lambda>_.
         rd_return (res, err))))"

section \<open>Containers (container.go)\<close>

record container =
  cuuid :: string
  containerID :: string
  cmtnIp :: string
  rootDir :: string
  cleanupEnabled :: bool
  cSetImgURI :: bool
  cvolume :: portoVolume
  cextraVolumes :: "portoVolume list"
  coutput :: bool
  cVolumeLabel :: string
  cmtn :: bool
  cnetId :: string
  cmtnAllocationId :: string
  cmtnAllocCleaned :: bool

definition newContainer ::
  "('db, 'tx) penv \<Rightarrow> containerConfig \<Rightarrow> (gerr, 'db pworld, container) rd" where
  "newContainer env cfg =
     rd_bind (CreateRootVolume env cfg) (\<lambda>volume.
     rd_bind (attempt (CreateExtraVolumes env cfg volume)) (\<lambda>r. case r of
       Inl e \<Rightarrow> rd_bind (Volume_Destroy env volume) (\<lambda>_. rd_fail e)
     | Inr extravolumes \<Rightarrow>
         rd_bind (CreateContainer env cfg volume extravolumes) (\<lambda>((c, volume', extravolumes'), err). case err of
           Some e \<Rightarrow> rd_bind (Volume_Destroy env volume') (\<lambda>_. rd_fail e)
         | None \<Rightarrow> rd_return
             \<lparr>cuuid = get_str (eArgs c) ''--uuid'', containerID = ccID c, cmtnIp = ccMtnIp c, rootDir = ccRoot c,
              cleanupEnabled = ccCleanupEnabled c, cSetImgURI = ccSetImgURI c, cvolume = volume',
              cextraVolumes = extravolumes', coutput = False, cVolumeLabel = ccVolumeLabel c, cmtn = ccMtn c,
              cnetId = get_str (PortoProfile.Network (eProfile c)) ''netid'',
              cmtnAllocationId = ccMtnAllocationId c, cmtnAllocCleaned = (\<not> ccMtn c)\<rparr>)))"

text \<open>Before \<^verbatim>\<open>start\<close> the output is discarded; \<open>coutput\<close> says it is the writer of the spawn.\<close>

definition container_start ::
  "('db, 'tx) penv \<Rightarrow> container \<Rightarrow> (gerr, 'db pworld, container \<times> (gerr + unit)) rd" where
  "container_start env c =
     (let c1 = c\<lparr>coutput := True\<rparr> in
      rd_bind (attempt (ack env (PStart (containerID c1)))) (\<lambda>r. rd_return (c1, r)))"

definition Cleanup ::
  "('db, 'tx) penv \<Rightarrow> container \<Rightarrow> (gerr, 'db pworld, container) rd" where
  "Cleanup env c =
     rd_bind (if cmtn c \<and> \<not> cmtnAllocCleaned c then
                rd_bind (on_mtn (UnuseAlloc (boltdb env) (cnetId c) (cmtnAllocationId c))) (\<lambda>_.
                rd_return (c\<lparr>cmtnAllocCleaned := True\<rparr>))
              else rd_return c) (\<lambda>c1.
     if \<not> cleanupEnabled c1 then rd_return c1
     else
       rd_bind (Volume_Destroy env (cvolume c1)) (\<lambda>_.
       rd_bind (each (\<lambda>v. rd_bind (Volume_Destroy env v) (\<lambda>_. rd_return ())) (cextraVolumes c1)) (\<lambda>_.
       rd_bind (logged (ack env (PDestroy (containerID c1)))) (\<lambda>_.
       rd_bind (logged (ack env (OsRemoveAll (rootDir c1)))) (\<lambda>_.
       rd_return c1)))))"

text \<open>Reading one stream of the container and passing it on; an error leaves the empty text.\<close>

definition send_data ::
  "('db, 'tx) penv \<Rightarrow> container \<Rightarrow> string \<Rightarrow> (gerr, 'db pworld, unit) rd" where
  "send_data env c stream =
     rd_bind (attempt (call (texts env) (PGetData (containerID c) stream))) (\<lambda>r.
       let value = (case r of Inl _ \<Rightarrow> '''' | Inr v \<Rightarrow> v) in
       if coutput c then logged (ack env (Output (containerID c) value)) else rd_return ())"

text \<open>\<^verbatim>\<open>Kill\<close>: the deferred \<^verbatim>\<open>Cleanup\<close> runs on every way out once the connection is there.\<close>

definition container_Kill ::
  "('db, 'tx) penv \<Rightarrow> container \<Rightarrow> (gerr, 'db pworld, container \<times> (gerr + unit)) rd" where
  "container_Kill env c =
     rd_bind (attempt (portoConnect env)) (\<lambda>r. case r of
       Inl e \<Rightarrow> rd_return (c, Inl e)
     | Inr _ \<Rightarrow>
         rd_bind (send_data env c ''stdout'') (\<lambda>_.
         rd_bind (send_data env c ''stderr'') (\<lambda>_.
         rd_bind (attempt (ack env (PKill (containerID c)))) (\<lambda>killed.
         rd_bind (case killed of
             Inl e \<Rightarrow> rd_return (if isEqualPortoError e EError_InvalidState then Inr () else Inl e)
           | Inr _ \<Rightarrow> attempt (ack env (PWait (containerID c)))) (\<lambda>res.
         rd_bind (Cleanup env c) (\<lambda>c1. rd_return (c1, res)))))))"

end
