(* ===== verification/Porto_Laws.thy ===== *)
theory Porto_Laws
  imports Porto_Container
begin

text \<open>
  What the operations on volumes and containers leave behind.  \<open>held\<close> and \<open>existing\<close> read a history as the
  ledger porto keeps: which container holds which volume and which containers exist after the calls,
  where a call counts only when porto answered it with success.  \<open>asked_held\<close> and \<open>asked_existing\<close> are what
  is left when every attempt to give something up counts; the two differ by what porto refused to give up.
\<close>

section \<open>The ledger\<close>

definition asked_held_step :: "pevent \<times> bool \<Rightarrow> (string \<times> string) set \<Rightarrow> (string \<times> string) set" where
  "asked_held_step c S = (case c of
      (PCreateVolume p _, True) \<Rightarrow> insert (p, ''/'') S
    | (PLinkVolume p h, True) \<Rightarrow> insert (p, h) S
    | (PUnlinkVolume p h, _) \<Rightarrow> S - {(p, h)}
    | (PDestroy h, _) \<Rightarrow> S - UNIV \<times> {h}
    | _ \<Rightarrow> S)"

definition asked_held :: "pevent history \<Rightarrow> (string \<times> string) set \<Rightarrow> (string \<times> string) set" where
  "asked_held = fold asked_held_step"

definition asked_existing_step :: "pevent \<times> bool \<Rightarrow> string set \<Rightarrow> string set" where
  "asked_existing_step c S = (case c of
      (PCreate i, True) \<Rightarrow> insert i S
    | (PDestroy i, _) \<Rightarrow> S - {i}
    | _ \<Rightarrow> S)"

definition asked_existing :: "pevent history \<Rightarrow> string set \<Rightarrow> string set" where
  "asked_existing = fold asked_existing_step"

lemma asked_held_simps [simp]:
  "asked_held [] S = S" "asked_held (c # es) S = asked_held es (asked_held_step c S)" "asked_held (es @ fs) S = asked_held fs (asked_held es S)"
  by (simp_all add: asked_held_def)

lemma asked_existing_simps [simp]:
  "asked_existing [] S = S" "asked_existing (c # es) S = asked_existing es (asked_existing_step c S)"
  "asked_existing (es @ fs) S = asked_existing fs (asked_existing es S)"
  by (simp_all add: asked_existing_def)

lemma asked_held_step_simps [simp]:
  "asked_held_step (PCreateVolume p m, True) S = insert (p, ''/'') S" "asked_held_step (PCreateVolume p m, False) S = S"
  "asked_held_step (PLinkVolume p h, True) S = insert (p, h) S" "asked_held_step (PLinkVolume p h, False) S = S"
  "asked_held_step (PUnlinkVolume p h, b) S = S - {(p, h)}" "asked_held_step (PDestroy h, b) S = S - UNIV \<times> {h}"
  "asked_held_step (PCreate h, b) S = S" "asked_held_step (PSetProperty h k v, b) S = S"
  "asked_held_step (OsMkdirAll p, b) S = S" "asked_held_step (OsRemoveAll p, b) S = S"
  by (simp_all add: asked_held_step_def)

lemma asked_existing_step_simps [simp]:
  "asked_existing_step (PCreateVolume p m, b) S = S" "asked_existing_step (PLinkVolume p h, b) S = S"
  "asked_existing_step (PUnlinkVolume p h, b) S = S" "asked_existing_step (PDestroy h, b) S = S - {h}"
  "asked_existing_step (PCreate h, True) S = insert h S" "asked_existing_step (PCreate h, False) S = S"
  "asked_existing_step (PSetProperty h k v, b) S = S"
  "asked_existing_step (OsMkdirAll p, b) S = S" "asked_existing_step (OsRemoveAll p, b) S = S"
  by (simp_all add: asked_existing_step_def)

section \<open>What porto keeps\<close>

definition held_step :: "pevent \<times> bool \<Rightarrow> (string \<times> string) set \<Rightarrow> (string \<times> string) set" where
  "held_step c S = (case c of
      (PCreateVolume p _, True) \<Rightarrow> insert (p, ''/'') S
    | (PLinkVolume p h, True) \<Rightarrow> insert (p, h) S
    | (PUnlinkVolume p h, True) \<Rightarrow> S - {(p, h)}
    | (PDestroy h, True) \<Rightarrow> S - UNIV \<times> {h}
    | _ \<Rightarrow> S)"

definition held :: "pevent history \<Rightarrow> (string \<times> string) set" where
  "held es = fold held_step es {}"

definition existing_step :: "pevent \<times> bool \<Rightarrow> string set \<Rightarrow> string set" where
  "existing_step c S = (case c of
      (PCreate i, True) \<Rightarrow> insert i S
    | (PDestroy i, True) \<Rightarrow> S - {i}
    | _ \<Rightarrow> S)"

definition existing :: "pevent history \<Rightarrow> string set" where
  "existing es = fold existing_step es {}"

text \<open>What porto was asked to give up and refused: containers, and volumes by their holders.\<close>

definition undestroyed :: "pevent history \<Rightarrow> string set" where
  "undestroyed es = {i. (PDestroy i, False) \<in> set es}"

definition unreleased :: "pevent history \<Rightarrow> (string \<times> string) set" where
  "unreleased es = {(p, h). (PUnlinkVolume p h, False) \<in> set es \<or> (PDestroy h, False) \<in> set es}"

lemma held_step_asked: "asked_held_step c S \<subseteq> held_step c S" "held_step c S \<subseteq> asked_held_step c S \<union> unreleased [c]"
  by (auto simp: held_step_def asked_held_step_def unreleased_def split: prod.splits pevent.splits bool.splits)

lemma existing_step_asked:
  "asked_existing_step c S \<subseteq> existing_step c S" "existing_step c S \<subseteq> asked_existing_step c S \<union> undestroyed [c]"
  by (auto simp: existing_step_def asked_existing_step_def undestroyed_def split: prod.splits pevent.splits bool.splits)

lemma held_step_between:
  assumes "S \<subseteq> T" "T \<subseteq> S \<union> X"
  shows "asked_held_step c S \<subseteq> held_step c T" "held_step c T \<subseteq> asked_held_step c S \<union> (X \<union> unreleased [c])"
proof -
  have "held_step c S \<subseteq> held_step c T" "asked_held_step c T \<subseteq> asked_held_step c S \<union> X"
    using assms by (auto simp: held_step_def asked_held_step_def split: prod.splits pevent.splits bool.splits)
  then show "asked_held_step c S \<subseteq> held_step c T" "held_step c T \<subseteq> asked_held_step c S \<union> (X \<union> unreleased [c])"
    using held_step_asked [of c S] held_step_asked [of c T] by blast+
qed

lemma existing_step_between:
  assumes "S \<subseteq> T" "T \<subseteq> S \<union> X"
  shows "asked_existing_step c S \<subseteq> existing_step c T"
    "existing_step c T \<subseteq> asked_existing_step c S \<union> (X \<union> undestroyed [c])"
proof -
  have "existing_step c S \<subseteq> existing_step c T" "asked_existing_step c T \<subseteq> asked_existing_step c S \<union> X"
    using assms by (auto simp: existing_step_def asked_existing_step_def split: prod.splits pevent.splits bool.splits)
  then show "asked_existing_step c S \<subseteq> existing_step c T"
    "existing_step c T \<subseteq> asked_existing_step c S \<union> (X \<union> undestroyed [c])"
    using existing_step_asked [of c S] existing_step_asked [of c T] by blast+
qed

lemma fold_between:
  assumes step: "\<And>c S T X. S \<subseteq> T \<Longrightarrow> T \<subseteq> S \<union> X \<Longrightarrow> f c S \<subseteq> g c T \<and> g c T \<subseteq> f c S \<union> (X \<union> d [c])"
    and d: "\<And>c es. d (c # es) = d [c] \<union> d es"
  shows "S \<subseteq> T \<Longrightarrow> T \<subseteq> S \<union> X \<Longrightarrow> fold f es S \<subseteq> fold g es T \<and> fold g es T \<subseteq> fold f es S \<union> (X \<union> d es)"
proof (induction es arbitrary: S T X)
  case (Cons c es)
  from Cons.IH [OF conjunct1 [OF step] conjunct2 [OF step], OF Cons.prems Cons.prems, of c] show ?case
    unfolding d [of c es] by auto
qed auto

lemma held_between: "asked_held es {} \<subseteq> held es" "held es \<subseteq> asked_held es {} \<union> unreleased es"
  using fold_between [of asked_held_step held_step unreleased "{}" "{}" "{}" es] held_step_between
  by (auto simp: asked_held_def held_def unreleased_def)

lemma existing_between: "asked_existing es {} \<subseteq> existing es" "existing es \<subseteq> asked_existing es {} \<union> undestroyed es"
  using fold_between [of asked_existing_step existing_step undestroyed "{}" "{}" "{}" es] existing_step_between
  by (auto simp: asked_existing_def existing_def undestroyed_def)

section \<open>Destroying volumes\<close>

text \<open>The calls that destroy a volume, in order, whatever they report.\<close>

definition destroy_calls :: "portoVolume \<Rightarrow> pevent list" where
  "destroy_calls v =
     (if vlinked v then [PUnlinkVolume (vpath v) (vcID v), PUnlinkVolume (vpath v) ''self''] else []) @
     [PUnlinkVolume (vpath v) ''/'', OsRemoveAll (vpath v)] @
     (case vstorage v of Some s \<Rightarrow> if s \<noteq> '''' then [OsRemoveAll s] else [] | None \<Rightarrow> [])"

lemma issues_ack:
  assumes "\<And>d. P (Inl (Reported d)) [(e, False)]" "\<And>x. P (Inr x) [(e, True)]"
  shows "issues (ack env e) P"
  unfolding ack_def by (rule issues_call) (simp_all add: assms)

lemma issues_logged_ack: "(\<And>b. P (Inr ()) [(e, b)]) \<Longrightarrow> issues (logged (ack env e)) P"
  unfolding ack_def by (rule issues_logged_call)

lemma issues_attempt_ack:
  assumes "\<And>d. P (Inr (Inl (Reported d))) [(e, False)]" "\<And>x. P (Inr (Inr x)) [(e, True)]"
  shows "issues (attempt (ack env e)) P"
  unfolding ack_def by (rule issues_attempt_call) (simp_all add: assms)

lemmas issues_intros = issues_bind issues_return issues_fail issues_logged_ack issues_attempt_ack issues_ack

lemma portoVolume_Destroy_issues:
  "issues (portoVolume_Destroy env v) (\<lambda>r es. (\<exists>x. r = Inr x) \<and> map fst es = destroy_calls (v\<lparr>vstorage := None\<rparr>))"
  unfolding portoVolume_Destroy_def destroy_calls_def
  by (cases "vlinked v") (auto intro!: issues_intros)

lemma Volume_Destroy_issues:
  "issues (Volume_Destroy env v) (\<lambda>r es. (\<exists>x. r = Inr x) \<and> map fst es = destroy_calls v)"
proof (cases "vstorage v")
  case None
  then have "v\<lparr>vstorage := None\<rparr> = v" by simp
  with None portoVolume_Destroy_issues [of env v] show ?thesis by (simp add: Volume_Destroy_def)
next
  case (Some s)
  show ?thesis unfolding Volume_Destroy_def Some option.case
    by (rule issues_bind, rule issues_weaken [OF portoVolume_Destroy_issues], cases "s = ''''")
       (auto intro!: issues_intros simp: destroy_calls_def Some)
qed

lemma cleanUpOnError_issues:
  "issues (cleanUpOnError env vs) (\<lambda>r es. r = Inr () \<and> map fst es = concat (map destroy_calls vs))"
proof (induction vs)
  case Nil
  then show ?case by (simp add: cleanUpOnError_def issues_return)
next
  case (Cons v vs)
  have step: "issues (rd_bind (Volume_Destroy env v) (\<lambda>_. rd_return ())) (\<lambda>r es. r = Inr () \<and> map fst es = destroy_calls v)"
    by (rule issues_bind, rule issues_weaken [OF Volume_Destroy_issues]) (auto intro!: issues_intros)
  show ?case unfolding cleanUpOnError_def each.simps
    by (rule issues_bind, rule issues_weaken [OF step])
       (auto intro!: issues_weaken [OF Cons.IH [unfolded cleanUpOnError_def]])
qed

section \<open>The ledger of destroying and creating\<close>

definition released :: "portoVolume \<Rightarrow> (string \<times> string) set" where
  "released v = insert (vpath v, ''/'') (if vlinked v then {(vpath v, vcID v), (vpath v, ''self'')} else {})"

lemma ledger_destroy:
  assumes "map fst es = destroy_calls v"
  shows "asked_held es S = S - released v" "asked_existing es T = T"
  using assms
  by (auto simp: destroy_calls_def released_def map_eq_Cons_conv map_eq_append_conv
      split: if_splits option.splits)

lemma ledger_destroy_all:
  assumes "map fst es = concat (map destroy_calls vs)"
  shows "asked_held es S = S - (\<Union>v \<in> set vs. released v) \<and> asked_existing es T = T"
  using assms
proof (induction vs arbitrary: es S T)
  case (Cons v vs)
  then obtain fs gs where "es = fs @ gs" "map fst fs = destroy_calls v" "map fst gs = concat (map destroy_calls vs)"
    by (auto simp: map_eq_append_conv)
  then show ?case using Cons.IH ledger_destroy [of fs v] by auto
qed simp

text \<open>A volume as it is before it is linked: held by the root only.\<close>

definition fresh_volume :: "string \<Rightarrow> portoVolume \<Rightarrow> bool" where
  "fresh_volume ID v \<longleftrightarrow> vcID v = ID \<and> \<not> vlinked v"

definition unlinked_refs :: "portoVolume list \<Rightarrow> (string \<times> string) set" where
  "unlinked_refs vs = (\<lambda>v. (vpath v, ''/'')) ` set vs"

lemma released_fresh: "\<forall>v \<in> set vs. fresh_volume ID v \<Longrightarrow> (\<Union>v \<in> set vs. released v) = unlinked_refs vs"
  by (auto simp: released_def fresh_volume_def unlinked_refs_def)

lemma cleanUpOnError_ledger:
  assumes "\<forall>v \<in> set vs. fresh_volume ID v"
  shows "issues (cleanUpOnError env vs)
    (\<lambda>r es. r = Inr () \<and> (\<forall>S. asked_held es S = S - unlinked_refs vs) \<and> (\<forall>T. asked_existing es T = T))"
  by (rule issues_weaken [OF cleanUpOnError_issues]) (simp add: ledger_destroy_all released_fresh [OF assms])

lemma create_extra_issues:
  assumes "\<forall>v \<in> set vs. fresh_volume ID v"
  shows "issues (create_extra env path props vs) (\<lambda>r es. asked_existing es T = T \<and> (case r of
      Inl e \<Rightarrow> \<not> fatal e \<and> asked_held es S \<subseteq> S - unlinked_refs vs
    | Inr _ \<Rightarrow> asked_held es S = insert (path, ''/'') S))"
  unfolding create_extra_def
  by (rule issues_bind, rule issues_attempt_ack)
     (auto intro!: issues_bind issues_return issues_fail issues_weaken [OF cleanUpOnError_ledger [OF assms]])

text \<open>What one round, and the whole loop, of creating the extra volumes leaves.\<close>

definition extra_post ::
  "string \<Rightarrow> string list \<Rightarrow> portoVolume list \<Rightarrow> (string \<times> string) set \<Rightarrow> string set \<Rightarrow>
   gerr + portoVolume list \<Rightarrow> pevent history \<Rightarrow> bool" where
  "extra_post ID ps vs S T r es \<longleftrightarrow> asked_existing es T = T \<and> (case r of
      Inl e \<Rightarrow> \<not> fatal e \<and> asked_held es S \<subseteq> S - unlinked_refs vs
    | Inr vs' \<Rightarrow> \<exists>us. vs' = vs @ us \<and> (\<forall>v \<in> set us. fresh_volume ID v) \<and> map vpath us = ps \<and>
        asked_held es S = S \<union> unlinked_refs us)"

lemma unlinked_refs_append [simp]: "unlinked_refs (us @ vs) = unlinked_refs us \<union> unlinked_refs vs"
  by (auto simp: unlinked_refs_def)

lemma extra_clean:
  assumes "\<forall>v \<in> set (vs @ us). fresh_volume ID v" "\<not> fatal e" "asked_existing pre T = T" "asked_held pre S = S"
  shows "issues (rd_bind (cleanUpOnError env (vs @ us)) (\<lambda>_. rd_fail e)) (\<lambda>r es. extra_post ID ps vs S T r (pre @ es))"
  using assms(2-4)
  by (auto intro!: issues_bind issues_fail issues_weaken [OF cleanUpOnError_ledger [OF assms(1)]]
      simp: extra_post_def)

lemma extra_create:
  assumes "\<forall>v \<in> set (vs @ [v]). fresh_volume ID v" "asked_existing pre T = T" "asked_held pre S = S" "path = vpath v"
  shows "issues (rd_bind (create_extra env path props (vs @ [v])) (\<lambda>_. rd_return (vs @ [v])))
    (\<lambda>r es. extra_post ID [path] vs S T r (pre @ es))"
  by (rule issues_bind, rule issues_weaken [OF create_extra_issues [OF assms(1), of _ _ _ T S]])
     (use assms in \<open>auto intro!: issues_return simp: extra_post_def unlinked_refs_def split: sum.splits\<close>)

lemma extra_volume_issues:
  assumes "\<forall>v \<in> set vs. fresh_volume ID v"
  shows "issues (extra_volume env ID r0 vs vp) (extra_post ID [Join [r0, Target vp]] vs S T)"
proof -
  let ?path = "Join [r0, Target vp]" and ?storage = "get_str (Properties vp) ''storage''"
  let ?v = "\<lparr>vcID = ID, vpath = ?path, vlinked = False, vproperties = Properties vp, vstorage = None\<rparr>"
  let ?sp = "Join [?storage, ID]" and ?P = "extra_post ID [?path] vs S T"
  let ?props = "(Properties vp)(''storage'' \<mapsto> ?sp)"
  let ?vs = "\<lparr>vcID = ID, vpath = ?path, vlinked = False, vproperties = Properties vp, vstorage = Some ''''\<rparr>"
  let ?sv = "\<lparr>vcID = ID, vpath = ?path, vlinked = False, vproperties = ?props, vstorage = Some ?sp\<rparr>"
  show ?thesis
  proof (cases "Target vp = ''''")
    case True
    show ?thesis unfolding extra_volume_def if_P [OF True]
      by (rule extra_clean [where us = "[]" and pre = "[]", simplified]) (use assms in auto)
  next
    case False
    have plain: "issues (rd_bind (create_extra env ?path (Properties vp) (vs @ [?v])) (\<lambda>_. rd_return (vs @ [?v])))
        (\<lambda>r es. ?P r ([(OsMkdirAll ?path, True)] @ es))"
      by (rule extra_create) (use assms in \<open>auto simp: fresh_volume_def\<close>)
    have sto: "issues (rd_bind (create_extra env ?path ?props (vs @ [?sv])) (\<lambda>_. rd_return (vs @ [?sv])))
        (\<lambda>r es. ?P r ([(OsMkdirAll ?path, True), (OsMkdirAll ?sp, True)] @ es))"
      by (rule extra_create) (use assms in \<open>auto simp: fresh_volume_def\<close>)
    have failed: "issues (rd_bind (cleanUpOnError env (vs @ us)) (\<lambda>_. rd_fail (Reported d))) (\<lambda>r es. ?P r (pre @ es))"
      if "\<forall>v \<in> set us. fresh_volume ID v" "asked_existing pre T = T" "asked_held pre S = S" for us d pre
      by (rule extra_clean) (use assms that in auto)
    have stored: "issues (rd_bind (attempt (ack env (OsMkdirAll ?sp))) (\<lambda>r. case r of
          Inl e \<Rightarrow> rd_bind (cleanUpOnError env (vs @ [?vs])) (\<lambda>_. rd_fail e)
        | Inr _ \<Rightarrow> rd_bind (create_extra env ?path ?props (vs @ [?sv])) (\<lambda>_. rd_return (vs @ [?sv]))))
        (\<lambda>r es. ?P r ([(OsMkdirAll ?path, True)] @ es))"
      by (rule issues_bind, rule issues_attempt_ack)
         (use sto failed [of "[?vs]" "[(OsMkdirAll ?path, True), (OsMkdirAll ?sp, False)]"]
          in \<open>simp_all add: fresh_volume_def\<close>)
    show ?thesis unfolding extra_volume_def if_not_P [OF False] Let_def
      by (rule issues_bind, rule issues_attempt_ack)
         (use plain stored failed [of "[]" "[(OsMkdirAll ?path, False)]"] in simp_all)
  qed
qed

lemma extra_volumes_issues:
  assumes "\<forall>v \<in> set vs. fresh_volume ID v"
  shows "issues (extra_volumes env ID r0 vps vs) (extra_post ID (map (\<lambda>vp. Join [r0, Target vp]) vps) vs S T)"
  using assms
proof (induction vps arbitrary: vs S T)
  case Nil
  then show ?case by (simp add: issues_return extra_post_def unlinked_refs_def)
next
  case (Cons vp vps)
  let ?ps = "map (\<lambda>vp. Join [r0, Target vp]) (vp # vps)"
  show ?case unfolding extra_volumes.simps
  proof (rule issues_bind, rule issues_weaken [OF extra_volume_issues [OF Cons.prems, of env r0 vp S T]])
    fix r es
    assume post: "extra_post ID [Join [r0, Target vp]] vs S T r es"
    show "case r of Inl e \<Rightarrow> extra_post ID ?ps vs S T (Inl e) es
      | Inr vs' \<Rightarrow> issues (extra_volumes env ID r0 vps vs') (\<lambda>r' es'. extra_post ID ?ps vs S T r' (es @ es'))"
    proof (cases r)
      case (Inl e)
      with post show ?thesis by (simp add: extra_post_def)
    next
      case (Inr vs')
      with post obtain us where us: "vs' = vs @ us" "\<forall>v \<in> set us. fresh_volume ID v"
        "map vpath us = [Join [r0, Target vp]]" "asked_held es S = S \<union> unlinked_refs us" "asked_existing es T = T" by (auto simp: extra_post_def)
      have "issues (extra_volumes env ID r0 vps vs') 
          (extra_post ID (map (\<lambda>vp. Join [r0, Target vp]) vps) vs' (asked_held es S) (asked_existing es T))"
        by (rule Cons.IH) (use us Cons.prems in auto)
      then show ?thesis unfolding Inr sum.case
        by (rule issues_weaken) (auto simp: extra_post_def us split: sum.splits)
    qed
  qed
qed

section \<open>Creating the root volume and linking\<close>

lemma CreateRootVolume_issues:
  "issues (CreateRootVolume env c) (\<lambda>r es. (\<forall>T. asked_existing es T = T) \<and> (case r of
      Inl e \<Rightarrow> \<not> fatal e \<and> (\<forall>S. asked_held es S \<subseteq> S)
    | Inr v \<Rightarrow> fresh_volume (ccID c) v \<and> vstorage v = None \<and> vpath v = Join [ccRoot c, ''volume''] \<and>
        (\<forall>S. asked_held es S = S \<union> unlinked_refs [v])))"
proof -
  have destroy: "issues (rd_bind (Volume_Destroy env v) (\<lambda>_. rd_fail (Reported d)))
      (\<lambda>r es. r = Inl (Reported d) \<and> (\<forall>T. asked_existing es T = T) \<and> (\<forall>S. asked_held es S \<subseteq> S))" for v d
    by (auto intro!: issues_bind issues_fail issues_weaken [OF Volume_Destroy_issues] simp: ledger_destroy)
  show ?thesis unfolding CreateRootVolume_def Let_def
    by (rule issues_bind, rule issues_ack)
       (auto intro!: issues_bind issues_attempt_ack issues_return issues_weaken [OF destroy]
         simp: fresh_volume_def unlinked_refs_def)
qed

definition linked_refs :: "string \<Rightarrow> portoVolume list \<Rightarrow> (string \<times> string) set" where
  "linked_refs ID vs = (\<lambda>v. (vpath v, ID)) ` set vs"

text \<open>Volumes with some of them linked: what \<^verbatim>\<open>Link\<close> makes of fresh ones.\<close>

definition made_of :: "portoVolume list \<Rightarrow> portoVolume list \<Rightarrow> bool" where
  "made_of vs' vs \<longleftrightarrow> list_all2 (\<lambda>v' v. v' = v \<or> v' = v\<lparr>vlinked := True\<rparr>) vs' vs"

lemma Volume_Link_issues:
  "issues (Volume_Link env v) (\<lambda>r es. (\<forall>T. asked_existing es T = T) \<and> (case r of
      Inl e \<Rightarrow> \<not> fatal e \<and> (\<forall>S. asked_held es S = S)
    | Inr v' \<Rightarrow> v' = v\<lparr>vlinked := True\<rparr> \<and> (\<forall>S. asked_held es S = insert (vpath v, vcID v) S - unlinked_refs [v])))"
  unfolding Volume_Link_def
  by (rule issues_bind, rule issues_ack)
     (auto intro!: issues_bind issues_logged_ack issues_return simp: unlinked_refs_def)

definition link_post ::
  "string \<Rightarrow> portoVolume list \<Rightarrow> portoVolume list \<Rightarrow> gerr option \<Rightarrow> pevent history \<Rightarrow> bool" where
  "link_post ID vs vs' err es \<longleftrightarrow> (\<forall>T. asked_existing es T = T) \<and> (case err of
      Some e \<Rightarrow> \<not> fatal e \<and> made_of vs' vs \<and> (\<forall>S. asked_held es S \<subseteq> S \<union> UNIV \<times> {ID})
    | None \<Rightarrow> vs' = map (vlinked_update (\<lambda>_. True)) vs \<and>
        (\<forall>S. asked_held es S = (S - unlinked_refs vs) \<union> linked_refs ID vs))"

lemma link_post_Cons:
  assumes "link_post ID vs vs' err fs" "ID \<noteq> ''/''" "\<And>T. asked_existing es T = T"
    "\<And>S. asked_held es S = insert (vpath v, ID) S - unlinked_refs [v]"
  shows "link_post ID (v # vs) (v\<lparr>vlinked := True\<rparr> # vs') err (es @ fs)"
proof (cases err)
  case None
  with assms show ?thesis
    by (auto simp: link_post_def unlinked_refs_def linked_refs_def image_iff)
next
  case (Some e)
  have "asked_held fs (insert (vpath v, ID) S - unlinked_refs [v]) \<subseteq> S \<union> UNIV \<times> {ID}" for S
    using assms(1) Some by (fastforce simp: link_post_def)
  with assms Some show ?thesis by (simp add: link_post_def made_of_def)
qed

lemma link_all_issues:
  assumes "\<forall>v \<in> set vs. vcID v = ID" "ID \<noteq> ''/''"
  shows "issues (link_all env vs) (\<lambda>r es. \<exists>vs' err. r = Inr (vs', err) \<and> link_post ID vs vs' err es)"
  using assms
proof (induction vs)
  case Nil
  then show ?case by (simp add: issues_return link_post_def unlinked_refs_def linked_refs_def)
next
  case (Cons v vs)
  have ID: "vcID v = ID" "\<forall>v \<in> set vs. vcID v = ID" using Cons.prems by auto
  show ?case unfolding link_all.simps
  proof (rule issues_bind, rule issues_attempt, rule issues_weaken [OF Volume_Link_issues], goal_cases)
    case (1 r es)
    show ?case
    proof (cases r)
      case (Inl e)
      with 1 show ?thesis
        by (auto intro!: issues_return simp: link_post_def made_of_def list_all2_refl)
    next
      case (Inr v')
      with 1 ID have v': "v' = v\<lparr>vlinked := True\<rparr>" "\<And>T. asked_existing es T = T"
        "\<And>S. asked_held es S = insert (vpath v, ID) S - unlinked_refs [v]" by auto
      show ?thesis unfolding Inr sum.case
        by (rule issues_bind, rule issues_weaken [OF Cons.IH [OF ID(2) Cons.prems(2)]])
           (auto intro!: issues_return link_post_Cons simp: v' Cons.prems(2))
    qed
  qed
qed

section \<open>Creating the container\<close>

definition neutral :: "pevent \<times> bool \<Rightarrow> bool" where
  "neutral c \<longleftrightarrow> (\<forall>S. asked_held_step c S = S) \<and> (\<forall>T. asked_existing_step c T = T)"

lemma neutral_ledger: "\<forall>c \<in> set es. neutral c \<Longrightarrow> asked_held es S = S \<and> asked_existing es T = T"
  by (induction es) (auto simp: neutral_def)

lemma set_properties_issues:
  "issues (each (\<lambda>(k, v). ack env (PSetProperty ID k v)) ps)
     (\<lambda>r es. (\<forall>e. r = Inl e \<longrightarrow> \<not> fatal e) \<and> (\<forall>S. asked_held es S = S) \<and> (\<forall>T. asked_existing es T = T))"
proof -
  have "issues (each (\<lambda>(k, v). ack env (PSetProperty ID k v)) ps)
      (\<lambda>r es. (\<forall>e. r = Inl e \<longrightarrow> \<not> fatal e) \<and> (\<forall>c \<in> set es. neutral c))"
    by (rule issues_each) (auto intro!: issues_ack simp: neutral_def)
  then show ?thesis by (rule issues_weaken) (simp add: neutral_ledger)
qed

definition same_config :: "containerConfig \<Rightarrow> containerConfig \<Rightarrow> bool" where
  "same_config c' c \<longleftrightarrow> ccID c' = ccID c \<and> ccRoot c' = ccRoot c \<and> ccCleanupEnabled c' = ccCleanupEnabled c \<and>
     eProfile c' = eProfile c"

lemma container_properties_same: "same_config (snd (container_properties ord c p)) c"
  by (simp add: container_properties_def same_config_def formatBinds_def Let_def)

lemma pick_network_issues:
  "issues (pick_network env c props) (\<lambda>r es. es = [] \<and> (\<forall>p' c'. r = Inr (p', c') \<longrightarrow> same_config c' c))"
  by (auto simp: issues_def pick_network_def same_config_def Let_def rd_bind_def rd_return_def on_mtn_def
      split: prod.splits sum.splits)

definition create_post ::
  "containerConfig \<Rightarrow> portoVolume \<Rightarrow> portoVolume list \<Rightarrow> gerr + created \<Rightarrow> pevent history \<Rightarrow> bool" where
  "create_post c root_v extras r es \<longleftrightarrow> (case r of
      Inl e \<Rightarrow> fatal e
    | Inr ((c', root', extras'), err) \<Rightarrow> same_config c' c \<and> (case err of
        Some e \<Rightarrow> \<not> fatal e \<and> made_of [root'] [root_v] \<and> (\<forall>T. asked_existing es T \<subseteq> T) \<and>
          (\<forall>S. asked_held es S \<subseteq> S \<union> UNIV \<times> {ccID c})
      | None \<Rightarrow> root' # extras' = map (vlinked_update (\<lambda>_. True)) (root_v # extras) \<and> (\<forall>T. asked_existing es T = T) \<and>
          (\<forall>S. asked_held es S = (S - unlinked_refs (root_v # extras)) \<union> linked_refs (ccID c) (root_v # extras))))"

lemma create_post_failed:
  assumes "same_config c' c" "made_of [root'] [root_v]" "\<not> fatal e" "\<And>T. asked_existing es T \<subseteq> T"
    "\<And>S. asked_held es S \<subseteq> S \<union> UNIV \<times> {ccID c}"
  shows "create_post c root_v extras (Inr ((c', root', extras'), Some e)) es"
  using assms by (simp add: create_post_def)

lemma made_of_refl [simp]: "made_of vs vs" "made_of [v\<lparr>vlinked := True\<rparr>] [v]"
  by (simp_all add: made_of_def list_all2_refl)

text \<open>Linking the volumes, the last part of the body.\<close>

lemma link_part_issues:
  assumes "vcID root_v = ccID c" "\<forall>v \<in> set extras. vcID v = ccID c" "ccID c \<noteq> ''/''" "same_config c' c"
    and "\<And>T. asked_existing pre T = T" "\<And>S. asked_held pre S = S"
  shows "issues (rd_bind (attempt (Volume_Link env root_v)) (\<lambda>r. case r of
      Inl e \<Rightarrow> rd_bind (logged (ack env (PDestroy (ccID c')))) (\<lambda>_. rd_return ((c', root_v, extras), Some e))
    | Inr root' \<Rightarrow> rd_bind (link_all env extras) (\<lambda>(extras', err). case err of
          Some e \<Rightarrow> rd_bind (logged (ack env (PDestroy (ccID c')))) (\<lambda>_. rd_return ((c', root', extras'), Some e))
        | None \<Rightarrow> rd_return ((c', root', extras'), None))))
    (\<lambda>r es. create_post c root_v extras r (pre @ es))"
proof (rule issues_bind, rule issues_attempt, rule issues_weaken [OF Volume_Link_issues], goal_cases)
  case (1 r es)
  have ID: "ccID c' = ccID c" using assms(4) by (simp add: same_config_def)
  show ?case
  proof (cases r)
    case (Inl e)
    with 1 show ?thesis using assms(4-6)
      by (auto intro!: issues_bind issues_logged_ack issues_return create_post_failed simp: ID)
  next
    case (Inr root')
    with 1 have root': "root' = root_v\<lparr>vlinked := True\<rparr>" "\<And>T. asked_existing es T = T"
      "\<And>S. asked_held es S = insert (vpath root_v, ccID c) S - unlinked_refs [root_v]" using assms(1) by auto
    show ?thesis unfolding Inr sum.case
    proof (rule issues_bind, rule issues_weaken [OF link_all_issues [OF assms(2,3)]], goal_cases)
      case (1 r2 fs)
      then obtain vs' err where r2: "r2 = Inr (vs', err)" "link_post (ccID c) extras vs' err fs" by blast
      from link_post_Cons [OF r2(2) assms(3) root'(2,3)]
      have post: "link_post (ccID c) (root_v # extras) (root' # vs') err (es @ fs)" by (simp add: root'(1))
      show ?case
      proof (cases err)
        case None
        with post show ?thesis using assms(4-6)
          by (auto intro!: issues_return simp: r2(1) create_post_def link_post_def)
      next
        case (Some e)
        with post have "\<not> fatal e" "\<And>T. asked_existing (es @ fs) T = T" "\<And>S. asked_held (es @ fs) S \<subseteq> S \<union> UNIV \<times> {ccID c}"
          by (auto simp: link_post_def)
        then show ?thesis using assms(4-6) Some root'(1)
          by (fastforce intro!: issues_bind issues_logged_ack issues_return create_post_failed simp: r2(1) ID)
      qed
    qed
  qed
qed

lemma same_config_trans: "same_config c2 c1 \<Longrightarrow> same_config c1 c \<Longrightarrow> same_config c2 c"
  by (simp add: same_config_def)

lemma create_body_issues:
  assumes "vcID root_v = ccID c" "\<forall>v \<in> set extras. vcID v = ccID c" "ccID c \<noteq> ''/''"
  shows "issues (create_body env c root_v extras) (create_post c root_v extras)"
proof -
  obtain props c1 where cp: "container_properties (str_range env) c (vpath root_v) = (props, c1)" by force
  have c1: "same_config c1 c" using container_properties_same [of "str_range env" c "vpath root_v"] cp by simp
  show ?thesis unfolding create_body_def cp Let_def prod.case
  proof (rule issues_bind, rule issues_attempt, rule issues_weaken [OF pick_network_issues], goal_cases)
    case (1 r es)
    show ?case
    proof (cases r)
      case (Inl e)
      with 1 c1 show ?thesis
        by (auto intro!: issues_return create_post_failed simp: create_post_def [of _ _ _ "Inl e"] same_config_def)
    next
      case (Inr pc)
      with 1 obtain props' c2 where pc: "pc = (props', c2)" "same_config c2 c1" "es = []" by (cases pc) auto
      have c2: "same_config c2 c" using pc(2) c1 by (rule same_config_trans)
      show ?thesis unfolding Inr pc(1,3) sum.case prod.case append_Nil
      proof (rule issues_bind, rule issues_attempt, rule issues_weaken [OF set_properties_issues], goal_cases)
        case (1 r fs)
        then show ?case
          by (cases r) (auto intro!: issues_return create_post_failed link_part_issues [OF assms] c2)
      qed
    qed
  qed
qed

text \<open>What the whole of \<^verbatim>\<open>CreateContainer\<close> leaves.\<close>

definition container_post ::
  "containerConfig \<Rightarrow> portoVolume \<Rightarrow> portoVolume list \<Rightarrow> gerr + created \<Rightarrow> pevent history \<Rightarrow> bool" where
  "container_post c root_v extras r es \<longleftrightarrow> (case r of
      Inl e \<Rightarrow> fatal e
    | Inr ((c', root', extras'), err) \<Rightarrow> same_config c' c \<and> (case err of
        Some e \<Rightarrow> \<not> fatal e \<and> made_of [root'] [root_v] \<and> asked_existing es {} = {} \<and>
          (\<forall>S. asked_held es S \<subseteq> S)
      | None \<Rightarrow> root' # extras' = map (vlinked_update (\<lambda>_. True)) (root_v # extras) \<and> asked_existing es {} = {ccID c} \<and>
          (\<forall>S. asked_held es S = (S - unlinked_refs (root_v # extras)) \<union> linked_refs (ccID c) (root_v # extras))))"

lemma CreateContainer_issues:
  assumes "vcID root_v = ccID c" "\<forall>v \<in> set extras. vcID v = ccID c" "ccID c \<noteq> ''/''"
  shows "issues (CreateContainer env c root_v extras) (container_post c root_v extras)"
  unfolding CreateContainer_def
proof (rule issues_bind, rule issues_attempt_ack, goal_cases)
  case (1 d)
  then show ?case by (auto intro!: issues_return simp: container_post_def same_config_def)
next
  case (2 x)
  show ?case unfolding sum.case
  proof (rule issues_bind, rule issues_weaken [OF create_body_issues [OF assms]], goal_cases)
    case (1 r es)
    show ?case
    proof (cases r)
      case (Inl e)
      with 1 show ?thesis by (simp add: create_post_def container_post_def)
    next
      case (Inr p)
      obtain c' root' extras' err where p: "p = ((c', root', extras'), err)" by (metis surj_pair)
      show ?thesis
      proof (cases err)
        case None
        with 1 Inr p show ?thesis
          by (auto intro!: issues_bind issues_return simp: create_post_def container_post_def)
      next
        case (Some e)
        with 1 Inr p have e: "same_config c' c" "\<not> fatal e" "made_of [root'] [root_v]"
          "asked_existing es {ccID c} \<subseteq> {ccID c}" "\<And>S. asked_held es S \<subseteq> S \<union> UNIV \<times> {ccID c}"
          by (auto simp: create_post_def)
        have "asked_existing es {ccID c} - {ccID c} = {}" "\<And>S. asked_held es S - UNIV \<times> {ccID c} \<subseteq> S"
          using e(4,5) by blast+
        then show ?thesis using Some p Inr e(1-3)
          by (auto intro!: issues_bind issues_logged_ack issues_return simp: container_post_def)
      qed
    qed
  qed
qed

section \<open>newContainer\<close>

definition root_path :: "containerConfig \<Rightarrow> string" where
  "root_path cfg = Join [ccRoot cfg, ''volume'']"

definition extra_paths :: "containerConfig \<Rightarrow> string list" where
  "extra_paths cfg = map (\<lambda>vp. Join [root_path cfg, Target vp]) (elems (ExtraVolumes (eProfile cfg)))"

definition volumes_of :: "container \<Rightarrow> portoVolume list" where
  "volumes_of k = cvolume k # cextraVolumes k"

text \<open>
  After a failure no container is left and no volume but, possibly, extra ones; after success the
  container holds exactly its volumes.
\<close>

definition new_post :: "containerConfig \<Rightarrow> gerr + container \<Rightarrow> pevent history \<Rightarrow> bool" where
  "new_post cfg r es \<longleftrightarrow> (case r of
      Inl e \<Rightarrow> fatal e \<or> asked_existing es {} = {} \<and> asked_held es {} \<subseteq> (set (extra_paths cfg) - {root_path cfg}) \<times> {''/''}
    | Inr k \<Rightarrow> asked_existing es {} = {ccID cfg} \<and> asked_held es {} = set (root_path cfg # extra_paths cfg) \<times> {ccID cfg} \<and>
        containerID k = ccID cfg \<and> rootDir k = ccRoot cfg \<and> cleanupEnabled k = ccCleanupEnabled cfg \<and>
        map vpath (volumes_of k) = root_path cfg # extra_paths cfg \<and>
        (\<forall>v \<in> set (volumes_of k). vlinked v \<and> vcID v = ccID cfg))"

lemma refs_product: "unlinked_refs vs = set (map vpath vs) \<times> {''/''}" "linked_refs ID vs = set (map vpath vs) \<times> {ID}"
  by (auto simp: unlinked_refs_def linked_refs_def)

lemma container_part_issues:
  assumes root_v: "fresh_volume (ccID cfg) root_v" "vpath root_v = root_path cfg"
    and extras: "\<forall>v \<in> set extras. fresh_volume (ccID cfg) v" "map vpath extras = extra_paths cfg"
    and pre: "asked_existing pre {} = {}" "asked_held pre {} = unlinked_refs (root_v # extras)" and ID: "ccID cfg \<noteq> ''/''"
  shows "issues (rd_bind (CreateContainer env cfg root_v extras) (\<lambda>((c, volume', extravolumes'), err). case err of
           Some e \<Rightarrow> rd_bind (Volume_Destroy env volume') (\<lambda>_. rd_fail e)
         | None \<Rightarrow> rd_return
             \<lparr>cuuid = get_str (eArgs c) ''--uuid'', containerID = ccID c, cmtnIp = ccMtnIp c, rootDir = ccRoot c,
              cleanupEnabled = ccCleanupEnabled c, cSetImgURI = ccSetImgURI c, cvolume = volume',
              cextraVolumes = extravolumes', coutput = False, cVolumeLabel = ccVolumeLabel c, cmtn = ccMtn c,
              cnetId = get_str (PortoProfile.Network (eProfile c)) ''netid'',
              cmtnAllocationId = ccMtnAllocationId c, cmtnAllocCleaned = (\<not> ccMtn c)\<rparr>))
    (\<lambda>r es. new_post cfg r (pre @ es))"
proof -
  have vcID: "vcID root_v = ccID cfg" "\<forall>v \<in> set extras. vcID v = ccID cfg"
    using root_v(1) extras(1) by (auto simp: fresh_volume_def)
  show ?thesis
  proof (rule issues_bind, rule issues_weaken [OF CreateContainer_issues [OF vcID ID]], goal_cases)
    case (1 r es)
    show ?case
    proof (cases r)
      case (Inl e)
      with 1 show ?thesis by (simp add: container_post_def new_post_def)
    next
      case (Inr p)
      obtain c' root' extras' err where p: "p = ((c', root', extras'), err)" by (metis surj_pair)
      show ?thesis
      proof (cases err)
        case None
        with 1 Inr p have post: "root' # extras' = map (vlinked_update (\<lambda>_. True)) (root_v # extras)"
          "same_config c' cfg" "asked_existing es {} = {ccID cfg}"
          "asked_held es (unlinked_refs (root_v # extras)) = linked_refs (ccID cfg) (root_v # extras)"
          by (auto simp: container_post_def)
        have "map vpath (root' # extras') = root_path cfg # extra_paths cfg"
          using root_v(2) extras(2) by (simp add: post(1) comp_def)
        then show ?thesis using None p Inr post(2-4) pre extras(2) root_v(2) vcID post(1)
          by (auto intro!: issues_return simp: new_post_def same_config_def volumes_of_def refs_product)
      next
        case (Some e)
        with 1 Inr p have post: "made_of [root'] [root_v]" "asked_existing es {} = {}"
          "asked_held es (unlinked_refs (root_v # extras)) \<subseteq> unlinked_refs (root_v # extras)"
          by (auto simp: container_post_def)
        have "released root' \<supseteq> unlinked_refs [root_v]"
          using post(1) by (auto simp: released_def unlinked_refs_def made_of_def)
        then have "asked_held es (unlinked_refs (root_v # extras)) - released root' \<subseteq>
            (set (extra_paths cfg) - {root_path cfg}) \<times> {''/''}"
          using post(3) root_v(2) extras(2) by (auto simp: refs_product)
        then show ?thesis using Some p Inr post(2) pre
          by (auto intro!: issues_bind issues_fail issues_weaken [OF Volume_Destroy_issues]
              simp: new_post_def ledger_destroy)
      qed
    qed
  qed
qed

theorem newContainer_issues:
  assumes "ccID cfg \<noteq> ''/''"
  shows "issues (newContainer env cfg) (new_post cfg)"
  unfolding newContainer_def
proof (rule issues_bind, rule issues_weaken [OF CreateRootVolume_issues], goal_cases)
  case (1 r es)
  show ?case
  proof (cases r)
    case (Inl e)
    with 1 show ?thesis by (auto simp: new_post_def)
  next
    case (Inr v)
    with 1 have v: "fresh_volume (ccID cfg) v" "vpath v = root_path cfg" "\<And>T. asked_existing es T = T"
      "\<And>S. asked_held es S = S \<union> unlinked_refs [v]" by (auto simp: root_path_def)
    show ?thesis unfolding Inr sum.case CreateExtraVolumes_def
    proof (rule issues_bind, rule issues_attempt,
        rule issues_weaken [OF extra_volumes_issues [where S = "unlinked_refs [v]" and T = "{}"]], goal_cases)
      case 1
      then show ?case by simp
    next
      case (2 r fs)
      show ?case
      proof (cases r)
        case (Inl e)
        with 2 have e: "\<not> fatal e" "asked_existing fs {} = {}" "asked_held fs (unlinked_refs [v]) \<subseteq> unlinked_refs [v]"
          by (auto simp: extra_post_def)
        have gone: "x \<in> asked_held fs (unlinked_refs [v]) \<Longrightarrow> x \<in> released v" for x
          using e(3) by (auto simp: released_def unlinked_refs_def)
        show ?thesis using e(1,2)
          by (auto simp: Inl v(3,4) intro!: issues_bind issues_fail issues_weaken [OF Volume_Destroy_issues]
              simp: new_post_def ledger_destroy) (blast dest: gone)+
      next
        case (Inr us)
        with 2 have us: "\<forall>u \<in> set us. fresh_volume (ccID cfg) u" "map vpath us = extra_paths cfg"
          "asked_existing (es @ fs) {} = {}" "asked_held (es @ fs) {} = unlinked_refs (v # us)"
          using v(2-4) by (auto simp: extra_post_def extra_paths_def unlinked_refs_def)
        show ?thesis unfolding Inr sum.case append_assoc [symmetric]
          by (rule container_part_issues [OF v(1,2) us assms])
      qed
    qed
  qed
qed

section \<open>Cleaning up and killing\<close>

lemma issues_on_mtn: "(\<And>e. P (Inl (MtnErr e)) []) \<Longrightarrow> (\<And>x. P (Inr x) []) \<Longrightarrow> issues (on_mtn f) P"
  by (auto simp: issues_def on_mtn_def split: prod.splits sum.splits)

lemma UnuseAlloc_Inl: "UnuseAlloc bt n i c = (Inl e, c') \<Longrightarrow> e = Panic"
  by (auto simp: UnuseAlloc_def split: prod.splits sum.splits merr.splits)

lemma unuse_issues:
  "issues (on_mtn (UnuseAlloc bt n i)) (\<lambda>r es. es = [] \<and> (\<forall>e. r = Inl e \<longrightarrow> fatal e))"
  by (auto simp: issues_def on_mtn_def dest: UnuseAlloc_Inl split: prod.splits sum.splits)

definition cleaned :: "container \<Rightarrow> container" where
  "cleaned k = k\<lparr>cmtnAllocCleaned := (cmtn k \<or> cmtnAllocCleaned k)\<rparr>"

definition cleanup_calls :: "container \<Rightarrow> pevent list" where
  "cleanup_calls k = (if cleanupEnabled k then concat (map destroy_calls (volumes_of k)) @
     [PDestroy (containerID k), OsRemoveAll (rootDir k)] else [])"

lemma Cleanup_issues:
  "issues (Cleanup env k) (\<lambda>r es. case r of
      Inl e \<Rightarrow> fatal e
    | Inr k' \<Rightarrow> k' = cleaned k \<and> map fst es = cleanup_calls k)"
proof -
  have rest: "issues (if \<not> cleanupEnabled k1 then rd_return k1
     else
       rd_bind (Volume_Destroy env (cvolume k1)) (\<lambda>_.
       rd_bind (each (\<lambda>v. rd_bind (Volume_Destroy env v) (\<lambda>_. rd_return ())) (cextraVolumes k1)) (\<lambda>_.
       rd_bind (logged (ack env (PDestroy (containerID k1)))) (\<lambda>_.
       rd_bind (logged (ack env (OsRemoveAll (rootDir k1)))) (\<lambda>_.
       rd_return k1)))))
     (\<lambda>r es. r = Inr k1 \<and> map fst es = cleanup_calls k1)" for k1
  proof (cases "cleanupEnabled k1")
    case True
    have "issues (rd_bind (each (\<lambda>v. rd_bind (Volume_Destroy env v) (\<lambda>_. rd_return ())) (cextraVolumes k1)) (\<lambda>_.
       rd_bind (logged (ack env (PDestroy (containerID k1)))) (\<lambda>_.
       rd_bind (logged (ack env (OsRemoveAll (rootDir k1)))) (\<lambda>_.
       rd_return k1))))
      (\<lambda>r es. r = Inr k1 \<and> map fst es = concat (map destroy_calls (cextraVolumes k1)) @
         [PDestroy (containerID k1), OsRemoveAll (rootDir k1)])"
      by (rule issues_bind, rule issues_weaken [OF cleanUpOnError_issues [unfolded cleanUpOnError_def]])
         (auto intro!: issues_bind issues_logged_ack issues_return)
    then show ?thesis using True
      by (auto intro!: issues_bind issues_weaken [OF Volume_Destroy_issues] elim!: issues_weaken
          simp: cleanup_calls_def volumes_of_def)
  qed (simp add: issues_return cleanup_calls_def)
  have step: "issues (if cmtn k \<and> \<not> cmtnAllocCleaned k then
                rd_bind (on_mtn (UnuseAlloc (boltdb env) (cnetId k) (cmtnAllocationId k))) (\<lambda>_.
                rd_return (k\<lparr>cmtnAllocCleaned := True\<rparr>))
              else rd_return k) (\<lambda>r es. es = [] \<and> (case r of Inl e \<Rightarrow> fatal e | Inr k1 \<Rightarrow> k1 = cleaned k))"
  proof (cases "cmtn k \<and> \<not> cmtnAllocCleaned k")
    case True
    then show ?thesis
      by (auto intro!: issues_bind issues_return issues_weaken [OF unuse_issues] simp: cleaned_def split: sum.splits)
  next
    case False
    then have "cleaned k = k" by (cases k) (auto simp: cleaned_def)
    with False show ?thesis by (auto intro!: issues_return)
  qed
  have same: "cleanup_calls (cleaned k) = cleanup_calls k"
    by (simp add: cleanup_calls_def cleaned_def volumes_of_def)
  show ?thesis unfolding Cleanup_def
  proof (rule issues_bind, rule issues_weaken [OF step], goal_cases)
    case (1 r es)
    show ?case
    proof (cases r)
      case (Inl e)
      with 1 show ?thesis by simp
    next
      case (Inr k1)
      with 1 have k1: "k1 = cleaned k" "es = []" by auto
      show ?thesis unfolding Inr sum.case
        by (rule issues_weaken [OF rest]) (simp add: k1 same)
    qed
  qed
qed

lemma ledger_cleanup:
  assumes "map fst es = cleanup_calls k" "cleanupEnabled k"
  shows "asked_held es S = S - (\<Union>v \<in> set (volumes_of k). released v) - UNIV \<times> {containerID k}"
    "asked_existing es T = T - {containerID k}"
proof -
  obtain fs b1 b2 where es: "es = fs @ [(PDestroy (containerID k), b1), (OsRemoveAll (rootDir k), b2)]"
    "map fst fs = concat (map destroy_calls (volumes_of k))"
    using assms by (auto simp: cleanup_calls_def map_eq_append_conv map_eq_Cons_conv)
  show "asked_held es S = S - (\<Union>v \<in> set (volumes_of k). released v) - UNIV \<times> {containerID k}"
    "asked_existing es T = T - {containerID k}"
    using ledger_destroy_all [OF es(2)] by (auto simp: es(1))
qed

lemma neutral_events [simp]:
  "neutral (PConnect, b)" "neutral (PGetData i s, b)" "neutral (Output i s, b)" "neutral (PKill i, b)"
  "neutral (PWait i, b)" "neutral (PStart i, b)"
  by (simp_all add: neutral_def asked_held_step_def asked_existing_step_def)

lemma send_data_issues: "issues (send_data env k s) (\<lambda>r es. r = Inr () \<and> (\<forall>c \<in> set es. neutral c))"
  unfolding send_data_def Let_def
  by (rule issues_bind, rule issues_attempt_call) (auto intro!: issues_logged_ack issues_return)

lemma portoConnect_issues:
  "issues (portoConnect env) (\<lambda>r es. case r of
      Inl e \<Rightarrow> fatal e \<and> es = [] \<or> \<not> fatal e \<and> es = [(PConnect, False)] | Inr _ \<Rightarrow> es = [(PConnect, True)])"
  by (auto simp: issues_def portoConnect_def split: option.splits)

text \<open>A computation that adds only neutral calls before one that satisfies \<open>P\<close>.\<close>

definition after_neutral :: "(gerr + 'a \<Rightarrow> pevent history \<Rightarrow> bool) \<Rightarrow> gerr + 'a \<Rightarrow> pevent history \<Rightarrow> bool" where
  "after_neutral P r es \<longleftrightarrow> (\<exists>fs gs. es = fs @ gs \<and> (\<forall>c \<in> set fs. neutral c) \<and> P r gs)"

lemma after_neutral_bind:
  assumes "issues m (\<lambda>r es. (\<exists>x. r = Inr x) \<and> (\<forall>c \<in> set es. neutral c))" "\<And>x. issues (f x) (after_neutral P)"
  shows "issues (rd_bind m f) (after_neutral P)"
proof (rule issues_bind, rule issues_weaken [OF assms(1)], goal_cases)
  case (1 r es)
  then obtain x where x: "r = Inr x" "\<forall>c \<in> set es. neutral c" by blast
  have "after_neutral P r' es' \<Longrightarrow> after_neutral P r' (es @ es')" for r' es'
    using x(2) unfolding after_neutral_def by (metis append_assoc UnE set_append)
  then show ?case using issues_weaken [OF assms(2)] by (simp add: x(1))
qed

lemma after_neutralI: "P r es \<Longrightarrow> after_neutral P r es"
  unfolding after_neutral_def by (rule exI [of _ "[]"]) auto

definition kill_post :: "container \<Rightarrow> gerr + container \<times> (gerr + unit) \<Rightarrow> pevent history \<Rightarrow> bool" where
  "kill_post k r es \<longleftrightarrow> (case r of
      Inl e \<Rightarrow> fatal e
    | Inr (k', res) \<Rightarrow> k' = cleaned k \<and> map fst es = cleanup_calls k)"

lemma container_Kill_issues:
  "issues (container_Kill env k) (\<lambda>r es. (\<exists>e. r = Inl e \<and> fatal e) \<or>
     (\<exists>e. r = Inr (k, Inl e) \<and> es = [(PConnect, False)]) \<or> after_neutral (kill_post k) r es)"
proof -
  have clean: "issues (rd_bind (Cleanup env k) (\<lambda>c1. rd_return (c1, res))) (after_neutral (kill_post k))" for res
    by (rule issues_bind, rule issues_weaken [OF Cleanup_issues])
       (auto intro!: issues_return after_neutralI simp: kill_post_def split: sum.splits)
  have kill: "issues (rd_bind (send_data env k ''stdout'') (\<lambda>_.
         rd_bind (send_data env k ''stderr'') (\<lambda>_.
         rd_bind (attempt (ack env (PKill (containerID k)))) (\<lambda>killed.
         rd_bind (case killed of
             Inl e \<Rightarrow> rd_return (if isEqualPortoError e EError_InvalidState then Inr () else Inl e)
           | Inr _ \<Rightarrow> attempt (ack env (PWait (containerID k)))) (\<lambda>res.
         rd_bind (Cleanup env k) (\<lambda>c1. rd_return (c1, res))))))) (after_neutral (kill_post k))"
    by (intro after_neutral_bind clean issues_weaken [OF send_data_issues])
       (auto intro!: issues_attempt_ack issues_return split: sum.splits)
  show ?thesis unfolding container_Kill_def
  proof (rule issues_bind, rule issues_attempt, rule issues_weaken [OF portoConnect_issues], goal_cases)
    case (1 r es)
    show ?case
    proof (cases r)
      case (Inl e)
      with 1 show ?thesis by (auto intro!: issues_return)
    next
      case (Inr x)
      have "after_neutral (kill_post k) r' es' \<Longrightarrow> after_neutral (kill_post k) r' ((PConnect, True) # es')" for r' es'
        unfolding after_neutral_def by (metis append_Cons neutral_events(1) set_ConsD)
      then show ?thesis using 1 Inr issues_weaken [OF kill] by auto
    qed
  qed
qed

end
