(* ===== verification/Porto_Net.thy ===== *)
theory Porto_Net
  imports Porto_Laws Mtn_Pool
begin

text \<open>
  What the operations on porto containers do to the pool of network allocations: an allocation is
  taken when a container is created and given back when it is cleaned up, once.
\<close>

section \<open>What a computation does to the pool\<close>

text \<open>
  \<open>pool_run c m P\<close>: started from the pool state \<open>c\<close>, the result of \<open>m\<close> and the pool state it
  leaves satisfy \<open>P\<close>.  A call to porto or to the file system leaves the pool alone.
\<close>

definition pool_run ::
  "'db MtnState \<Rightarrow> (gerr, 'db pworld, 'a) rd \<Rightarrow> (gerr + 'a \<Rightarrow> 'db MtnState \<Rightarrow> bool) \<Rightarrow> bool" where
  "pool_run c m P \<longleftrightarrow> (\<forall>w. mtn w = c \<longrightarrow> P (fst (m w)) (mtn (snd (m w))))"

lemma pool_runD: "pool_run (mtn w) m P \<Longrightarrow> m w = (r, w') \<Longrightarrow> P r (mtn w')"
  by (metis pool_run_def fst_conv snd_conv)

lemma pool_run_weaken: "pool_run c m P \<Longrightarrow> (\<And>r c'. P r c' \<Longrightarrow> Q r c') \<Longrightarrow> pool_run c m Q"
  unfolding pool_run_def by blast

lemma pool_run_return: "P (Inr x) c \<Longrightarrow> pool_run c (rd_return x) P"
  by (simp add: pool_run_def rd_return_def)

lemma pool_run_fail: "P (Inl e) c \<Longrightarrow> pool_run c (rd_fail e) P"
  by (simp add: pool_run_def rd_fail_def)

lemma pool_run_bind:
  assumes "pool_run c m (\<lambda>r c'. case r of Inl e \<Rightarrow> P (Inl e) c' | Inr x \<Rightarrow> pool_run c' (f x) P)"
  shows "pool_run c (rd_bind m f) P"
  unfolding pool_run_def
proof (intro allI impI)
  fix w :: "'a pworld"
  assume w: "mtn w = c"
  obtain r w' where r: "m w = (r, w')" by force
  have "case r of Inl e \<Rightarrow> P (Inl e) (mtn w') | Inr x \<Rightarrow> pool_run (mtn w') (f x) P"
    using pool_runD [OF assms [folded w] r] .
  then show "P (fst (rd_bind m f w)) (mtn (snd (rd_bind m f w)))"
    using r by (auto simp: rd_bind_def pool_run_def split: sum.splits)
qed

lemma pool_run_attempt:
  assumes "pool_run c m (\<lambda>r c'. case r of
      Inl e \<Rightarrow> if fatal e then P (Inl e) c' else P (Inr (Inl e)) c' | Inr x \<Rightarrow> P (Inr (Inr x)) c')"
  shows "pool_run c (attempt m) P"
  unfolding pool_run_def
proof (intro allI impI)
  fix w :: "'a pworld"
  assume w: "mtn w = c"
  obtain r w' where r: "m w = (r, w')" by force
  from pool_runD [OF assms [folded w] r] show "P (fst (attempt m w)) (mtn (snd (attempt m w)))"
    using r by (auto simp: attempt_def split: sum.splits if_splits)
qed

lemma pool_run_call: "(\<And>r. P r c) \<Longrightarrow> pool_run c (call ans e) P"
  by (simp add: pool_run_def call_def split: sum.splits)

lemma pool_run_on_mtn:
  "(\<And>e c'. f c = (Inl e, c') \<Longrightarrow> P (Inl (MtnErr e)) c') \<Longrightarrow> (\<And>x c'. f c = (Inr x, c') \<Longrightarrow> P (Inr x) c') \<Longrightarrow>
   pool_run c (on_mtn f) P"
  by (auto simp: pool_run_def on_mtn_def split: prod.splits sum.splits)

text \<open>The computations that leave the pool alone.\<close>

definition keeps_pool :: "(gerr, 'db pworld, 'a) rd \<Rightarrow> bool" where
  "keeps_pool m \<longleftrightarrow> (\<forall>w. mtn (snd (m w)) = mtn w)"

named_theorems keeps \<open>computations that leave the pool alone\<close>

lemma keeps_return [keeps]: "keeps_pool (rd_return x)"
  by (simp add: keeps_pool_def rd_return_def)

lemma keeps_fail [keeps]: "keeps_pool (rd_fail e)"
  by (simp add: keeps_pool_def rd_fail_def)

lemma keeps_bind [keeps]: "keeps_pool m \<Longrightarrow> (\<And>x. keeps_pool (f x)) \<Longrightarrow> keeps_pool (rd_bind m f)"
  by (auto simp: keeps_pool_def rd_bind_def split: prod.splits sum.splits) (metis snd_conv)+

lemma keeps_attempt [keeps]: "keeps_pool m \<Longrightarrow> keeps_pool (attempt m)"
  by (auto simp: keeps_pool_def attempt_def split: prod.splits sum.splits) (metis snd_conv)+

lemma keeps_call [keeps]: "keeps_pool (call ans e)"
  by (simp add: keeps_pool_def call_def split: sum.splits)

lemma keeps_ack [keeps]: "keeps_pool (ack env e)"
  by (simp add: ack_def keeps_call)

lemma keeps_logged [keeps]: "keeps_pool m \<Longrightarrow> keeps_pool (logged m)"
  unfolding logged_def by (intro keeps)

lemma keeps_each [keeps]: "(\<And>x. keeps_pool (f x)) \<Longrightarrow> keeps_pool (each f xs)"
  by (induction xs) (auto intro!: keeps)

lemma keeps_case_sum [keeps]:
  "(\<And>a. keeps_pool (f a)) \<Longrightarrow> (\<And>b. keeps_pool (g b)) \<Longrightarrow> keeps_pool (case r of Inl a \<Rightarrow> f a | Inr b \<Rightarrow> g b)"
  by (cases r) auto

lemma keeps_case_option [keeps]:
  "keeps_pool f \<Longrightarrow> (\<And>b. keeps_pool (g b)) \<Longrightarrow> keeps_pool (case r of None \<Rightarrow> f | Some b \<Rightarrow> g b)"
  by (cases r) auto

lemma keeps_if [keeps]: "keeps_pool f \<Longrightarrow> keeps_pool g \<Longrightarrow> keeps_pool (if b then f else g)"
  by simp

lemma keeps_case_prod [keeps]: "(\<And>a b. keeps_pool (f a b)) \<Longrightarrow> keeps_pool (case p of (a, b) \<Rightarrow> f a b)"
  by (cases p) auto

lemma keeps_portoConnect [keeps]: "keeps_pool (portoConnect env)"
  by (simp add: keeps_pool_def portoConnect_def split: option.splits)

lemma pool_run_keep: "keeps_pool m \<Longrightarrow> (\<And>r. P r c) \<Longrightarrow> pool_run c m P"
  by (simp add: pool_run_def keeps_pool_def)

lemma pool_run_step:
  assumes "keeps_pool m" "\<And>e. P (Inl e) c" "\<And>x. pool_run c (f x) P"
  shows "pool_run c (rd_bind m f) P"
  by (rule pool_run_bind, rule pool_run_keep [OF assms(1)]) (auto simp: assms split: sum.splits)

lemma pool_run_cases:
  "(\<And>a. pool_run c (f a) P) \<Longrightarrow> (\<And>b. pool_run c (g b) P) \<Longrightarrow> pool_run c (case r of Inl a \<Rightarrow> f a | Inr b \<Rightarrow> g b) P"
  "pool_run c f' P \<Longrightarrow> (\<And>b. pool_run c (g' b) P) \<Longrightarrow> pool_run c (case o' of None \<Rightarrow> f' | Some b \<Rightarrow> g' b) P"
  "(\<And>a b. pool_run c (k a b) P) \<Longrightarrow> pool_run c (case p of (a, b) \<Rightarrow> k a b) P"
  by (auto split: sum.splits option.splits prod.splits)

lemma keeps_Volume_Destroy [keeps]: "keeps_pool (Volume_Destroy env v)"
  unfolding Volume_Destroy_def portoVolume_Destroy_def by (intro keeps)

lemma keeps_Volume_Link [keeps]: "keeps_pool (Volume_Link env v)"
  unfolding Volume_Link_def by (intro keeps)

lemma keeps_link_all [keeps]: "keeps_pool (link_all env vs)"
  by (induction vs) (auto intro!: keeps)

lemma keeps_CreateRootVolume [keeps]: "keeps_pool (CreateRootVolume env c)"
  unfolding CreateRootVolume_def Let_def by (intro keeps)

lemma keeps_extra_volume [keeps]: "keeps_pool (extra_volume env ID r0 vs vp)"
  unfolding extra_volume_def create_extra_def cleanUpOnError_def Let_def by (intro keeps)

lemma keeps_CreateExtraVolumes [keeps]: "keeps_pool (CreateExtraVolumes env c v)"
proof -
  have "keeps_pool (extra_volumes env ID r0 vps vs)" for ID r0 vps vs
    by (induction vps arbitrary: vs) (auto intro!: keeps)
  then show ?thesis by (simp add: CreateExtraVolumes_def)
qed

lemma keeps_send_data [keeps]: "keeps_pool (send_data env k s)"
  unfolding send_data_def Let_def by (intro keeps)

section \<open>Creating a container\<close>

definition netid :: "containerConfig \<Rightarrow> string" where
  "netid cfg = get_str (PortoProfile.Network (eProfile cfg)) ''netid''"

text \<open>
  The pool after a network was picked: untouched and no allocation recorded, or as \<^verbatim>\<open>UseAlloc\<close> left
  it, which failed, or gave the allocation that is recorded.  \<open>net\<close> reads the record of a result.
\<close>

definition net_post ::
  "('db, 'tx) penv \<Rightarrow> containerConfig \<Rightarrow> ('a \<Rightarrow> bool \<times> string) \<Rightarrow> 'db MtnState \<Rightarrow> gerr + 'a \<Rightarrow> 'db MtnState \<Rightarrow> bool" where
  "net_post env cfg net c r c' \<longleftrightarrow>
     c' = c \<and> (\<forall>x. r = Inr x \<longrightarrow> \<not> fst (net x)) \<or>
     (\<exists>h e. UseAlloc (boltdb env) (alloc_range env) (allocator env h) (netid cfg) (ccBoxName cfg) c = (Inl e, c') \<and> isl r) \<or>
     (\<exists>h a. UseAlloc (boltdb env) (alloc_range env) (allocator env h) (netid cfg) (ccBoxName cfg) c = (Inr a, c') \<and>
        (\<forall>x. r = Inr x \<longrightarrow> net x = (True, aId a)))"

definition cfg_net :: "containerConfig \<Rightarrow> bool \<times> string" where
  "cfg_net d = (ccMtn d, ccMtnAllocationId d)"

lemma net_post_cong:
  "net_post env cfg net c r c' \<Longrightarrow> (isl r \<Longrightarrow> isl r') \<Longrightarrow> (\<And>y. r' = Inr y \<Longrightarrow> \<exists>x. r = Inr x \<and> net' y = net x) \<Longrightarrow>
   net_post env cfg net' c r' c'"
  unfolding net_post_def by (metis fst_conv)

lemma net_post_Inl: "net_post env cfg net c r c' \<Longrightarrow> net_post env cfg net' c (Inl e) c'"
  unfolding net_post_def by auto

lemma net_post_none: "net_post env cfg net c (Inl e) c"
  unfolding net_post_def by auto

lemma container_properties_fields:
  "eProfile (snd (container_properties ord c p)) = eProfile c"
  "ccBoxName (snd (container_properties ord c p)) = ccBoxName c"
  by (simp_all add: container_properties_def formatBinds_def Let_def)

lemma pick_network_pool:
  "pool_run c (pick_network env d props) (\<lambda>r c'. net_post env d (cfg_net \<circ> snd) c r c' \<and>
     (\<forall>p d'. r = Inr (p, d') \<longrightarrow> eProfile d' = eProfile d))"
proof -
  have "net_post env d (cfg_net \<circ> snd) (mtn w) (fst (pick_network env d props w)) (mtn (snd (pick_network env d props w)))"
    for w
    by (cases "UseAlloc (boltdb env) (alloc_range env) (allocator env (hist w)) (netid d) (ccBoxName d) (mtn w)";
        cases "fst (UseAlloc (boltdb env) (alloc_range env) (allocator env (hist w)) (netid d) (ccBoxName d) (mtn w))")
       (auto simp: pick_network_def net_post_def cfg_net_def Let_def netid_def [symmetric] rd_bind_def rd_return_def on_mtn_def)
  moreover have "fst (pick_network env d props w) = Inr (p, d') \<Longrightarrow> eProfile d' = eProfile d" for w p d'
    by (auto simp: pick_network_def Let_def rd_bind_def rd_return_def on_mtn_def split: prod.splits sum.splits if_splits)
  ultimately show ?thesis unfolding pool_run_def by blast
qed

text \<open>The outcome of \<^verbatim>\<open>CreateContainer\<close> as an error or the configuration it leaves.\<close>

definition created_of :: "gerr + created \<Rightarrow> gerr + containerConfig" where
  "created_of r = (case r of
      Inl e \<Rightarrow> Inl e
    | Inr ((c', _, _), None) \<Rightarrow> Inr c'
    | Inr (_, Some e) \<Rightarrow> Inl e)"

definition body_post ::
  "('db, 'tx) penv \<Rightarrow> containerConfig \<Rightarrow> 'db MtnState \<Rightarrow> gerr + created \<Rightarrow> 'db MtnState \<Rightarrow> bool" where
  "body_post env cfg c r c' \<longleftrightarrow> net_post env cfg cfg_net c (created_of r) c' \<and>
     (\<forall>d. created_of r = Inr d \<longrightarrow> eProfile d = eProfile cfg)"

lemma body_post_Inl: "net_post env cfg cfg_net c r c' \<Longrightarrow> body_post env cfg c (Inl e) c'"
  "net_post env cfg cfg_net c r c' \<Longrightarrow> body_post env cfg c (Inr (y, Some e)) c'"
  by (auto simp: body_post_def created_of_def dest: net_post_Inl)

lemma body_post_Inr: "body_post env cfg c (Inr ((d, y), None)) c' \<longleftrightarrow>
  net_post env cfg cfg_net c (Inr d) c' \<and> eProfile d = eProfile cfg"
  by (cases y) (auto simp: body_post_def created_of_def)

lemma create_body_pool: "pool_run c (create_body env cfg v vs) (body_post env cfg c)"
proof -
  obtain props c1 where cp: "container_properties (str_range env) cfg (vpath v) = (props, c1)" by force
  have c1: "eProfile c1 = eProfile cfg" "ccBoxName c1 = ccBoxName cfg"
    using container_properties_fields [of "str_range env" cfg "vpath v"] cp by auto
  then have id: "netid c1 = netid cfg" by (simp add: netid_def)
  have same: "net_post env c1 net c r c' = net_post env cfg net c r c'"
    for net :: "'c \<Rightarrow> bool \<times> string" and r c' by (simp add: net_post_def id c1)
  show ?thesis unfolding create_body_def cp Let_def prod.case
  proof (rule pool_run_bind, rule pool_run_attempt, rule pool_run_weaken [OF pick_network_pool], goal_cases)
    case (1 r c')
    show ?case
    proof (cases r)
      case (Inl e)
      with 1 show ?thesis
        by (auto intro!: pool_run_return body_post_Inl simp: same dest: net_post_Inl)
    next
      case (Inr pd)
      obtain props' c2 where pd: "pd = (props', c2)" by force
      have post: "net_post env cfg cfg_net c (Inr c2) c'" "eProfile c2 = eProfile cfg"
        using 1 c1 by (auto simp: Inr pd same elim: net_post_cong)
      then have "body_post env cfg c (Inr (x, Some e)) c'" "body_post env cfg c (Inl e) c'"
        "body_post env cfg c (Inr ((c2, y), None)) c'" for x y e
        by (simp_all add: body_post_Inl body_post_Inr)
      then show ?thesis unfolding Inr pd sum.case prod.case
        by (intro pool_run_step pool_run_cases pool_run_return keeps)
    qed
  qed
qed

lemma CreateContainer_pool: "pool_run c (CreateContainer env cfg v vs) (body_post env cfg c)"
proof -
  have none: "body_post env cfg c (Inl e) c" "body_post env cfg c (Inr (y, Some e)) c" for y e
    by (rule body_post_Inl [OF net_post_none])+
  show ?thesis unfolding CreateContainer_def
  proof (rule pool_run_step, intro keeps, rule none, rule pool_run_cases(1), rule pool_run_return, rule none,
      rule pool_run_bind, rule pool_run_weaken [OF create_body_pool], goal_cases)
    case (1 x b r c')
    show ?case
    proof (cases r)
      case (Inl e)
      with 1 show ?thesis by simp
    next
      case (Inr p)
      obtain y err where y: "p = (y, err)" by (cases p)
      have p: "body_post env cfg c (Inr (y, err)) c'" using 1 by (simp add: Inr y)
      have e: "body_post env cfg c (Inl e) c'" for e
        using p unfolding body_post_def [of _ _ _ "Inr (y, err)"] by (rule body_post_Inl(1) [OF conjunct1])
      show ?thesis unfolding Inr y sum.case prod.case
        by (intro pool_run_step pool_run_return keeps p e)
    qed
  qed
qed

definition container_net :: "container \<Rightarrow> bool \<times> string" where
  "container_net k = (cmtn k, cmtnAllocationId k)"

lemma newContainer_pool:
  "pool_run c (newContainer env cfg) (\<lambda>r c'. net_post env cfg container_net c r c' \<and>
     (\<forall>k. r = Inr k \<longrightarrow> cnetId k = netid cfg \<and> cmtnAllocCleaned k = (\<not> cmtn k)))"
  (is "pool_run c _ ?P")
proof -
  have none: "?P (Inl e) c" for e by (simp add: net_post_none)
  show ?thesis unfolding newContainer_def
  proof (rule pool_run_step, intro keeps, rule none, rule pool_run_step, intro keeps, rule none,
      rule pool_run_cases(1), goal_cases)
    case (1 v r e)
    show ?case by (intro pool_run_step pool_run_fail keeps none)
  next
    case (2 v r vs)
    show ?case
    proof (rule pool_run_bind, rule pool_run_weaken [OF CreateContainer_pool], goal_cases)
      case (1 r c')
      show ?case
      proof (cases r)
        case (Inl e)
        with 1 show ?thesis by (auto simp: body_post_def created_of_def dest: net_post_Inl)
      next
        case (Inr p)
        obtain d v' vs' err where p: "p = ((d, v', vs'), err)" by (metis surj_pair)
        show ?thesis
        proof (cases err)
          case None
          with 1 Inr p have "net_post env cfg cfg_net c (Inr d) c'" "eProfile d = eProfile cfg"
            by (auto simp: body_post_Inr)
          then show ?thesis unfolding Inr p None sum.case prod.case option.case
            by (intro pool_run_return) (auto simp: container_net_def cfg_net_def netid_def elim!: net_post_cong)
        next
          case (Some e)
          with 1 Inr p have "?P (Inl e') c'" for e'
            by (auto simp: body_post_def created_of_def dest: net_post_Inl)
          then show ?thesis unfolding Inr p Some sum.case prod.case option.case
            by (intro pool_run_step pool_run_fail keeps)
        qed
      qed
    qed
  qed
qed


lemma Cleanup_pool:
  "pool_run c (Cleanup env k) (\<lambda>r c'. if cmtn k \<and> \<not> cmtnAllocCleaned k
     then \<exists>res. UnuseAlloc (boltdb env) (cnetId k) (cmtnAllocationId k) c = (res, c') else c' = c)"
proof (cases "cmtn k \<and> \<not> cmtnAllocCleaned k")
  case True
  show ?thesis unfolding Cleanup_def if_P [OF True]
    by (rule pool_run_bind, rule pool_run_bind, rule pool_run_on_mtn)
       (use True in \<open>auto intro!: pool_run_return pool_run_keep keeps\<close>)
next
  case False
  show ?thesis unfolding Cleanup_def if_not_P [OF False]
    by (rule pool_run_bind, rule pool_run_return) (use False in \<open>auto intro!: pool_run_keep keeps\<close>)
qed

end
