(* ===== verification/Porto_Blob.thy ===== *)
theory Porto_Blob
  imports Porto_Container
begin

text \<open>
  The repository of blobs (\<^verbatim>\<open>src/isolate/porto/repository.go\<close>): getting one blob, and the
  goroutines that share one download of it.
\<close>

section \<open>Getting a blob\<close>

definition blob_path :: "string \<Rightarrow> string \<Rightarrow> string" where
  "blob_path dir dgst = Join [dir, dgst]"

text \<open>\<^verbatim>\<open>fetch\<close>: once the temporary file exists, the deferred call removes it on every way out.\<close>

definition fetch :: "('db, 'tx) penv \<Rightarrow> string \<Rightarrow> string \<Rightarrow> (gerr, 'db pworld, string) rd" where
  "fetch env dir dgst w =
     (let temp = Join [dir, dgst @ ''-'' @ show_nat (rands env (hist w))]; result = blob_path dir dgst in
      rd_bind (ack env (OsCreate temp)) (\<lambda>_.
      rd_bind (attempt (
        rd_bind (ack env (BlobOpen dgst)) (\<lambda>_.
        rd_bind (ack env (IoCopy temp)) (\<lambda>_.
        rd_bind (ack env (OsRename temp result)) (\<lambda>_.
        rd_return result))))) (\<lambda>r.
      rd_bind (logged (ack env (OsRemove temp))) (\<lambda>_.
      case r of Inl e \<Rightarrow> rd_fail e | Inr path \<Rightarrow> rd_return path))) w)"

text \<open>\<^verbatim>\<open>Get\<close> as one goroutine sees it when no other asks for the same blob.\<close>

definition blob_Get :: "('db, 'tx) penv \<Rightarrow> string \<Rightarrow> string \<Rightarrow> (gerr, 'db pworld, string) rd" where
  "blob_Get env dir dgst =
     rd_bind (attempt (ack env (OsLstat (blob_path dir dgst)))) (\<lambda>r. case r of
       Inr _ \<Rightarrow> rd_return (blob_path dir dgst)
     | Inl (Reported (NotExist _)) \<Rightarrow> fetch env dir dgst
     | Inl e \<Rightarrow> rd_fail e)"

text \<open>\<^verbatim>\<open>NewBlobRepository\<close>: the spool directory must be given and creatable.\<close>

definition NewBlobRepository :: "('db, 'tx) penv \<Rightarrow> string \<Rightarrow> (gerr, 'db pworld, unit) rd" where
  "NewBlobRepository env dir =
     (if dir = '''' then rd_fail (Errorf ''spool is not configuried'') else ack env (OsMkdirAll dir))"

section \<open>Sharing a download\<close>

text \<open>
  The goroutines inside \<^verbatim>\<open>download\<close>.  A waiter has its channel, with room for one result, and is
  waiting, or has returned a result, or has given up because its context is done.  The mutex makes
  registering one step and notifying another.  \<open>fetching\<close> lists the running fetches.
\<close>

datatype wait_pc = Waiting | Got "gerr + string" | GaveUp

record waiter =
  wdigest :: string
  wchan :: "(gerr + string) option"
  wpc :: wait_pc

record blobRepo =
  inProgress :: "string \<rightharpoonup> nat list"
  fetching :: "string list"
  waiters :: "waiter list"

definition repo_empty :: blobRepo where
  "repo_empty = \<lparr>inProgress = Map.empty, fetching = [], waiters = []\<rparr>"

text \<open>Registering a channel; the first one for a digest starts the fetch.\<close>

definition register :: "string \<Rightarrow> blobRepo \<Rightarrow> blobRepo" where
  "register d r =
     (let ch = length (waiters r); downloading = inProgress r d;
          r1 = r\<lparr>waiters := waiters r @ [\<lparr>wdigest = d, wchan = None, wpc = Waiting\<rparr>],
                 inProgress := (inProgress r)(d \<mapsto> (case downloading of None \<Rightarrow> [] | Some l \<Rightarrow> l) @ [ch])\<rparr>
      in if downloading = None then r1\<lparr>fetching := fetching r1 @ [d]\<rparr> else r1)"

text \<open>Sending the result on every registered channel; a send on a full channel would block.\<close>

fun notify :: "gerr + string \<Rightarrow> nat list \<Rightarrow> waiter list \<Rightarrow> waiter list option" where
  "notify res [] ws = Some ws"
| "notify res (ch # chs) ws =
     (if wchan (ws ! ch) = None then notify res chs (ws[ch := (ws ! ch)\<lparr>wchan := Some res\<rparr>]) else None)"

text \<open>The end of a fetch: notify everybody, forget the digest.\<close>

definition fetched :: "string \<Rightarrow> gerr + string \<Rightarrow> blobRepo \<Rightarrow> blobRepo option" where
  "fetched d res r = (case notify res (case inProgress r d of None \<Rightarrow> [] | Some l \<Rightarrow> l) (waiters r) of
      None \<Rightarrow> None
    | Some ws \<Rightarrow> Some (r\<lparr>waiters := ws, inProgress := (inProgress r)(d := None), fetching := remove1 d (fetching r)\<rparr>))"

inductive repo_step :: "blobRepo \<Rightarrow> blobRepo \<Rightarrow> bool" where
  ask: "repo_step r (register d r)"
| finish: "d \<in> set (fetching r) \<Longrightarrow> fetched d res r = Some r' \<Longrightarrow> repo_step r r'"
| receive: "i < length (waiters r) \<Longrightarrow> wpc (waiters r ! i) = Waiting \<Longrightarrow> wchan (waiters r ! i) = Some res \<Longrightarrow>
    repo_step r (r\<lparr>waiters := (waiters r)[i := (waiters r ! i)\<lparr>wchan := None, wpc := Got res\<rparr>]\<rparr>)"
| give_up: "i < length (waiters r) \<Longrightarrow> wpc (waiters r ! i) = Waiting \<Longrightarrow>
    repo_step r (r\<lparr>waiters := (waiters r)[i := (waiters r ! i)\<lparr>wpc := GaveUp\<rparr>]\<rparr>)"

inductive repo_reachable :: "blobRepo \<Rightarrow> bool" where
  start: "repo_reachable repo_empty"
| step: "repo_reachable r \<Longrightarrow> repo_step r r' \<Longrightarrow> repo_reachable r'"

inductive_cases repo_stepE: "repo_step r r'"

section \<open>The invariant of sharing\<close>

definition registered :: "blobRepo \<Rightarrow> string \<Rightarrow> nat list" where
  "registered r d = (case inProgress r d of None \<Rightarrow> [] | Some l \<Rightarrow> l)"

text \<open>
  A digest is in progress exactly when one fetch of it runs; the registered channels are empty and
  belong to waiters for the digest; a waiter that has neither a result nor given up is registered.
\<close>

definition repo_ok :: "blobRepo \<Rightarrow> bool" where
  "repo_ok r \<longleftrightarrow> distinct (fetching r) \<and> set (fetching r) = dom (inProgress r) \<and>
     (\<forall>d. distinct (registered r d) \<and> (\<forall>i \<in> set (registered r d).
        i < length (waiters r) \<and> wdigest (waiters r ! i) = d \<and> wchan (waiters r ! i) = None \<and>
        (\<forall>res. wpc (waiters r ! i) \<noteq> Got res))) \<and>
     (\<forall>i < length (waiters r). wpc (waiters r ! i) = Waiting \<longrightarrow> wchan (waiters r ! i) = None \<longrightarrow>
        i \<in> set (registered r (wdigest (waiters r ! i))))"

lemma notify_Some:
  assumes "distinct chs" "\<forall>ch \<in> set chs. ch < length ws \<and> wchan (ws ! ch) = None"
  shows "notify res chs ws = Some (map (\<lambda>i. if i \<in> set chs then (ws ! i)\<lparr>wchan := Some res\<rparr> else ws ! i) [0..<length ws])"
  using assms
proof (induction chs arbitrary: ws)
  case Nil
  then show ?case by (simp add: map_nth)
next
  case (Cons ch chs)
  have "notify res (ch # chs) ws = notify res chs (ws[ch := (ws ! ch)\<lparr>wchan := Some res\<rparr>])"
    using Cons.prems by simp
  also have "\<dots> = Some (map (\<lambda>i. if i \<in> set chs then (ws[ch := (ws ! ch)\<lparr>wchan := Some res\<rparr>] ! i)\<lparr>wchan := Some res\<rparr>
      else ws[ch := (ws ! ch)\<lparr>wchan := Some res\<rparr>] ! i) [0..<length ws])"
  proof -
    have "\<forall>c \<in> set chs. c < length (ws[ch := (ws ! ch)\<lparr>wchan := Some res\<rparr>]) \<and>
        wchan (ws[ch := (ws ! ch)\<lparr>wchan := Some res\<rparr>] ! c) = None"
      using Cons.prems by (auto simp: nth_list_update)
    then show ?thesis using Cons.IH [of "ws[ch := (ws ! ch)\<lparr>wchan := Some res\<rparr>]"] Cons.prems(1) by simp
  qed
  also have "\<dots> = Some (map (\<lambda>i. if i \<in> set (ch # chs) then (ws ! i)\<lparr>wchan := Some res\<rparr> else ws ! i) [0..<length ws])"
    using Cons.prems by (auto simp: nth_list_update)
  finally show ?case .
qed

lemma registered_empty [simp]: "registered repo_empty d = []"
  by (simp add: registered_def repo_empty_def)

lemma fetched_Some:
  assumes "repo_ok r"
  shows "fetched d res r = Some (r\<lparr>waiters := map (\<lambda>i. if i \<in> set (registered r d)
      then (waiters r ! i)\<lparr>wchan := Some res\<rparr> else waiters r ! i) [0..<length (waiters r)],
    inProgress := (inProgress r)(d := None), fetching := remove1 d (fetching r)\<rparr>)"
proof -
  have "notify res (registered r d) (waiters r) = Some (map (\<lambda>i. if i \<in> set (registered r d)
      then (waiters r ! i)\<lparr>wchan := Some res\<rparr> else waiters r ! i) [0..<length (waiters r)])"
    by (rule notify_Some) (use assms in \<open>auto simp: repo_ok_def\<close>)
  then show ?thesis by (simp add: fetched_def registered_def)
qed

lemma registered_register:
  "registered (register d r) e = (if e = d then registered r d @ [length (waiters r)] else registered r e)"
  by (auto simp: registered_def register_def Let_def)

lemma waiters_register: "waiters (register d r) = waiters r @ [\<lparr>wdigest = d, wchan = None, wpc = Waiting\<rparr>]"
  by (simp add: register_def Let_def)

lemma fetching_register: "fetching (register d r) = (if inProgress r d = None then fetching r @ [d] else fetching r)"
  by (simp add: register_def Let_def)

lemma dom_register: "dom (inProgress (register d r)) = insert d (dom (inProgress r))"
  by (simp add: register_def Let_def)

lemma repo_okD:
  assumes "repo_ok r"
  shows "distinct (fetching r)" "set (fetching r) = dom (inProgress r)" "distinct (registered r d)"
    "i \<in> set (registered r d) \<Longrightarrow> i < length (waiters r) \<and> wdigest (waiters r ! i) = d \<and>
       wchan (waiters r ! i) = None \<and> (\<forall>res. wpc (waiters r ! i) \<noteq> Got res)"
    "i < length (waiters r) \<Longrightarrow> wpc (waiters r ! i) = Waiting \<Longrightarrow> wchan (waiters r ! i) = None \<Longrightarrow>
       i \<in> set (registered r (wdigest (waiters r ! i)))"
  using assms unfolding repo_ok_def by blast+

lemma repo_okI:
  assumes "distinct (fetching r)" "set (fetching r) = dom (inProgress r)" "\<And>d. distinct (registered r d)"
    "\<And>i d. i \<in> set (registered r d) \<Longrightarrow> i < length (waiters r) \<and> wdigest (waiters r ! i) = d \<and>
       wchan (waiters r ! i) = None \<and> (\<forall>res. wpc (waiters r ! i) \<noteq> Got res)"
    "\<And>i. i < length (waiters r) \<Longrightarrow> wpc (waiters r ! i) = Waiting \<Longrightarrow> wchan (waiters r ! i) = None \<Longrightarrow>
       i \<in> set (registered r (wdigest (waiters r ! i)))"
  shows "repo_ok r"
  using assms unfolding repo_ok_def by blast

lemma register_ok:
  assumes "repo_ok r"
  shows "repo_ok (register d r)"
proof (rule repo_okI)
  note ok = repo_okD [OF assms]
  show "distinct (fetching (register d r))" "set (fetching (register d r)) = dom (inProgress (register d r))"
    using ok(1,2) by (auto simp: fetching_register dom_register)
  show "distinct (registered (register d r) e)" for e
    using ok(3,4) by (auto simp: registered_register)
  show "i < length (waiters (register d r)) \<and> wdigest (waiters (register d r) ! i) = e \<and>
      wchan (waiters (register d r) ! i) = None \<and> (\<forall>res. wpc (waiters (register d r) ! i) \<noteq> Got res)"
    if "i \<in> set (registered (register d r) e)" for i e
    using that ok(4) [of i e] by (auto simp: registered_register waiters_register nth_append split: if_splits)
  show "i \<in> set (registered (register d r) (wdigest (waiters (register d r) ! i)))"
    if "i < length (waiters (register d r))" "wpc (waiters (register d r) ! i) = Waiting"
      "wchan (waiters (register d r) ! i) = None" for i
    using that ok(5) [of i] by (auto simp: registered_register waiters_register nth_append split: if_splits)
qed

lemma fetched_ok:
  assumes "repo_ok r" "fetched d res r = Some r'"
  shows "repo_ok r'"
proof (rule repo_okI)
  note ok = repo_okD [OF assms(1)]
  have r': "r' = r\<lparr>waiters := map (\<lambda>i. if i \<in> set (registered r d)
      then (waiters r ! i)\<lparr>wchan := Some res\<rparr> else waiters r ! i) [0..<length (waiters r)],
    inProgress := (inProgress r)(d := None), fetching := remove1 d (fetching r)\<rparr>"
    using assms(2) fetched_Some [OF assms(1)] by simp
  have reg: "registered r' e = (if e = d then [] else registered r e)" for e
    by (simp add: r' registered_def)
  have disj: "i \<notin> set (registered r d)" if "e \<noteq> d" "i \<in> set (registered r e)" for e i
    using ok(4) [OF that(2)] ok(4) [of i d] that(1) by auto
  show "distinct (fetching r')" "set (fetching r') = dom (inProgress r')"
    using ok(1,2) by (auto simp: r' set_remove1_eq)
  show "distinct (registered r' e)" for e using ok(3) by (simp add: reg)
  show "i < length (waiters r') \<and> wdigest (waiters r' ! i) = e \<and>
      wchan (waiters r' ! i) = None \<and> (\<forall>res. wpc (waiters r' ! i) \<noteq> Got res)"
    if "i \<in> set (registered r' e)" for i e
  proof -
    have e: "e \<noteq> d" "i \<in> set (registered r e)" using that by (auto simp: reg split: if_splits)
    show ?thesis using ok(4) [OF e(2)] disj [OF e] by (simp add: r')
  qed
  show "i \<in> set (registered r' (wdigest (waiters r' ! i)))"
    if "i < length (waiters r')" "wpc (waiters r' ! i) = Waiting" "wchan (waiters r' ! i) = None" for i
  proof -
    have i: "i < length (waiters r)" "i \<notin> set (registered r d)" "waiters r' ! i = waiters r ! i"
      using that by (auto simp: r' split: if_splits)
    then have "i \<in> set (registered r (wdigest (waiters r ! i)))" using that ok(5) by simp
    with i show ?thesis by (auto simp: reg)
  qed
qed

lemma waiter_update_ok:
  assumes "repo_ok r" "i < length (waiters r)" "wdigest v = wdigest (waiters r ! i)"
    "i \<in> set (registered r (wdigest (waiters r ! i))) \<Longrightarrow> wchan v = None \<and> wpc v = GaveUp"
    "wpc v \<noteq> Waiting"
  shows "repo_ok (r\<lparr>waiters := (waiters r)[i := v]\<rparr>)"
proof (rule repo_okI)
  note ok = repo_okD [OF assms(1)]
  let ?r = "r\<lparr>waiters := (waiters r)[i := v]\<rparr>"
  have reg: "registered ?r e = registered r e" for e by (simp add: registered_def)
  show "distinct (fetching ?r)" "set (fetching ?r) = dom (inProgress ?r)" "distinct (registered ?r e)" for e
    using ok(1-3) by (simp_all add: reg)
  show "k < length (waiters ?r) \<and> wdigest (waiters ?r ! k) = e \<and>
      wchan (waiters ?r ! k) = None \<and> (\<forall>res. wpc (waiters ?r ! k) \<noteq> Got res)"
    if "k \<in> set (registered ?r e)" for k e
    using that ok(4) [of k e] assms(2-4) by (cases "k = i") (auto simp: reg)
  show "k \<in> set (registered ?r (wdigest (waiters ?r ! k)))"
    if "k < length (waiters ?r)" "wpc (waiters ?r ! k) = Waiting" "wchan (waiters ?r ! k) = None" for k
    using that ok(5) [of k] assms(2,5) by (cases "k = i") (auto simp: reg)
qed

theorem repo_reachable_ok: "repo_reachable r \<Longrightarrow> repo_ok r"
proof (induction rule: repo_reachable.induct)
  case start
  then show ?case by (simp add: repo_ok_def) (simp add: repo_empty_def)
next
  case (step r r')
  from step(2) show ?case
  proof cases
    case (ask d)
    with step(3) show ?thesis by (simp add: register_ok)
  next
    case (finish d res)
    with step(3) show ?thesis by (auto intro: fetched_ok)
  next
    case (receive i res)
    have "i \<notin> set (registered r (wdigest (waiters r ! i)))"
      using receive(4) repo_okD(4) [OF step(3), of i] by auto
    then show ?thesis unfolding receive(1) using step(3) receive(2) by (intro waiter_update_ok) auto
  next
    case (give_up i)
    have "i \<in> set (registered r (wdigest (waiters r ! i))) \<Longrightarrow> wchan (waiters r ! i) = None"
      using repo_okD(4) [OF step(3), of i] by auto
    then show ?thesis unfolding give_up(1) using step(3) give_up(2) by (intro waiter_update_ok) auto
  qed
qed

section \<open>The contract of the repository\<close>

text \<open>
  What the repository promises: a request is pending until the download of its blob ends, which
  answers every pending request for the blob at once and with the same result, or until its caller
  gives up.
\<close>

datatype request = Pending string | Answered string "gerr + string" | Dropped string

fun req_digest :: "request \<Rightarrow> string" where
  "req_digest (Pending d) = d"
| "req_digest (Answered d _) = d"
| "req_digest (Dropped d) = d"

inductive spec_step :: "request list \<Rightarrow> request list \<Rightarrow> bool" where
  spec_ask: "spec_step q (q @ [Pending d])"
| spec_answer: "spec_step q (map (\<lambda>x. if x = Pending d then Answered d res else x) q)"
| spec_drop: "i < length q \<Longrightarrow> spec_step q (q[i := Dropped (req_digest (q ! i))])"

definition request_of :: "waiter \<Rightarrow> request" where
  "request_of v = (case wpc v of
      Got res \<Rightarrow> Answered (wdigest v) res
    | GaveUp \<Rightarrow> Dropped (wdigest v)
    | Waiting \<Rightarrow> (case wchan v of None \<Rightarrow> Pending (wdigest v) | Some res \<Rightarrow> Answered (wdigest v) res))"

definition requests :: "blobRepo \<Rightarrow> request list" where
  "requests r = map request_of (waiters r)"

lemma req_digest_of [simp]: "req_digest (request_of v) = wdigest v"
  by (simp add: request_of_def split: wait_pc.splits option.splits)

lemma map_update_same: "i < length xs \<Longrightarrow> f v = f (xs ! i) \<Longrightarrow> map f (xs[i := v]) = map f xs"
  by (metis list_update_id map_update)

lemma fetched_answers:
  assumes "repo_ok r" "fetched d res r = Some r'"
  shows "requests r' = map (\<lambda>x. if x = Pending d then Answered d res else x) (requests r)"
proof (rule nth_equalityI)
  have ws: "waiters r' = map (\<lambda>i. if i \<in> set (registered r d)
      then (waiters r ! i)\<lparr>wchan := Some res\<rparr> else waiters r ! i) [0..<length (waiters r)]"
    using assms(2) fetched_Some [OF assms(1)] by auto
  then show "length (requests r') = length (map (\<lambda>x. if x = Pending d then Answered d res else x) (requests r))"
    by (simp add: requests_def)
  fix i assume "i < length (requests r')"
  then have i: "i < length (waiters r)" by (simp add: requests_def ws)
  show "requests r' ! i = map (\<lambda>x. if x = Pending d then Answered d res else x) (requests r) ! i"
  proof (cases "i \<in> set (registered r d)")
    case True
    then show ?thesis using i repo_okD(4) [OF assms(1) True]
      by (auto simp: requests_def ws request_of_def split: wait_pc.splits)
  next
    case False
    then have "request_of (waiters r ! i) \<noteq> Pending d"
      using repo_okD(5) [OF assms(1) i] by (auto simp: request_of_def split: wait_pc.splits option.splits)
    then show ?thesis using i False by (simp add: requests_def ws)
  qed
qed

lemma repo_refines:
  assumes "repo_ok r" "repo_step r r'"
  shows "requests r' = requests r \<or> spec_step (requests r) (requests r')"
  using assms(2)
proof cases
  case (ask d)
  then have "requests r' = requests r @ [Pending d]" by (simp add: requests_def waiters_register request_of_def)
  then show ?thesis by (metis spec_ask)
next
  case (finish d res)
  then show ?thesis using fetched_answers [OF assms(1)] by (metis spec_answer)
next
  case (receive i res)
  then have "requests r' = requests r" by (simp add: requests_def map_update_same request_of_def)
  then show ?thesis ..
next
  case (give_up i)
  then have "requests r' = (requests r)[i := Dropped (req_digest (requests r ! i))]"
    by (simp add: requests_def map_update request_of_def [of "(waiters r ! i)\<lparr>wpc := GaveUp\<rparr>"])
  then show ?thesis using give_up(2) spec_drop [of i "requests r"] by (simp add: requests_def)
qed

end
