(* ===== verification/Porto_Box.thy ===== *)
theory Porto_Box
  imports Porto_Net Porto_Blob Admission
begin

text \<open>
  The porto box (\<^verbatim>\<open>src/isolate/porto/box.go\<close>): spooling an image, spawning a container, the loop that
  watches the containers with its garbage collection, the journal, and starting the box.
\<close>

section \<open>Configuration and state\<close>

record portoBoxConfig =
  bcLayers :: string
  bcContainers :: string
  bcJournal :: string
  bcSpawnConcurrency :: nat
  bcRegistryAuth :: strmap
  bcCleanupEnabled :: bool
  bcSetImgURI :: bool
  bcGc :: bool
  bcDefaultUlimits :: string
  bcVolumeBackend :: string
  bcDefaultResolvConf :: string
  bcVolumeLabel :: string
  bcDownloadHelperCmd :: string
  bcDownloadHelperFallback :: bool
  bcMetaName :: string
  bcMetaProp :: strmap

definition ContainerRootDir :: "portoBoxConfig \<Rightarrow> string \<Rightarrow> string \<Rightarrow> string" where
  "ContainerRootDir c name cid = Join [bcContainers c, name, cid]"

text \<open>
  The containers the box tracks are pointers into the list of all containers made: the process
  handed to the dispatcher is the same object.  The queue counter of the gate and \<open>propList\<close>, the
  cached list of properties, are globals of the package.
\<close>

record 'db box =
  pw :: "'db pworld"
  bName :: string
  bconfig :: portoBoxConfig
  bjournal :: journal
  bcontainers :: "string \<rightharpoonup> nat"
  objects :: "container list"
  bgate :: gate
  rootPrefix :: string
  dhEnable :: bool
  dhfEnable :: bool
  propList :: "string list"

definition on_world :: "(gerr, 'db pworld, 'a) rd \<Rightarrow> (gerr, 'db box, 'a) rd" where
  "on_world m b = (case m (pw b) of (r, w) \<Rightarrow> (r, b\<lparr>pw := w\<rparr>))"

text \<open>The runtime of porto also ranges over the properties of a container and compacts JSON.\<close>

record pruntime = runtime +
  data_range :: "(string \<rightharpoonup> getResponse) \<Rightarrow> string list"
  compact :: "string \<Rightarrow> derr + string"

definition zero_PortoProfile :: PortoProfile where
  "zero_PortoProfile = \<lparr>PortoProfile.Registry = '''', Repository = '''', NetworkMode = '''', Network = Map.empty,
     ExtInfo = \<lparr>Layers = nil_slice\<rparr>, Cwd = '''', Binds = nil_slice, Container = Map.empty, Volume = Map.empty,
     ExtraVolumes = nil_slice\<rparr>"

definition appGenLabel :: "string \<Rightarrow> string" where
  "appGenLabel appname = replace_char CHR '':'' CHR ''_'' appname"

definition addRootNamespacePrefix :: "string \<Rightarrow> string \<Rightarrow> string" where
  "addRootNamespacePrefix pfx name = Join [pfx, name]"

section \<open>Getting the layers of an image\<close>

text \<open>Importing a layer; that it exists already is no error.\<close>

definition import_layer :: "('db, 'tx) penv \<Rightarrow> string \<Rightarrow> string \<Rightarrow> (gerr, 'db pworld, unit) rd" where
  "import_layer env name path =
     rd_bind (attempt (ack env (PImportLayer name path))) (\<lambda>r. case r of
       Inl e \<Rightarrow> if isEqualPortoError e EError_LayerAlreadyExists then rd_return () else rd_fail e
     | Inr _ \<Rightarrow> rd_return ())"

definition porto_layer :: "Layer \<Rightarrow> string" where
  "porto_layer l = DigestType l @ ''_'' @ Digest l"

definition helper_timeout :: "Layer \<Rightarrow> u64" where
  "helper_timeout l = 300 + 60 * (Size l div (100 * 1024 * 1024))"

fun helper_layers ::
  "('db, 'tx) penv \<Rightarrow> portoBoxConfig \<Rightarrow> Layer list \<Rightarrow> string list \<Rightarrow> (gerr, 'db pworld, string list) rd" where
  "helper_layers env cfg [] layers = rd_return layers"
| "helper_layers env cfg (l # ls) layers =
     (let blobPath = Join [bcLayers cfg, Digest l] in
      rd_bind (ack env (RunHelper [bcDownloadHelperCmd cfg, ''get'', ''-d'', bcLayers cfg, ''-t'',
          show_nat (unat (helper_timeout l)), TorrentId l])) (\<lambda>_.
      rd_bind (attempt (ack env (OsOpen blobPath))) (\<lambda>opened. case opened of
        Inl _ \<Rightarrow> rd_fail (Errorf (''ERROR when open layer '' @ blobPath @ '' for check hashsumm.''))
      | Inr _ \<Rightarrow>
      rd_bind (attempt (call (texts env) (Sha256 blobPath))) (\<lambda>summed. case summed of
        Inl _ \<Rightarrow> rd_fail (Errorf (''ERROR when copy layer '' @ blobPath @ '' for check hashsumm.''))
      | Inr digest \<Rightarrow>
          if digest \<noteq> Digest l then rd_fail (Errorf (''ERROR hashsum missmatch, hashSum.Sum(): '' @ digest @
            '', Digest: '' @ Digest l @ ''.''))
          else rd_bind (import_layer env (porto_layer l) blobPath) (\<lambda>_.
            helper_layers env cfg ls (layers @ [porto_layer l]))))))"

definition getLayersViaDownloadHelper ::
  "('db, 'tx) penv \<Rightarrow> string \<Rightarrow> PortoProfile \<Rightarrow> (gerr, 'db box, unit) rd" where
  "getLayersViaDownloadHelper env name profile =
     rd_bind (on_world (portoConnect env)) (\<lambda>_.
     rd_bind (gets bconfig) (\<lambda>cfg.
     rd_bind (on_world (helper_layers env cfg (elems (Layers (ExtInfo profile))) [])) (\<lambda>layers.
     modify (\<lambda>b. b\<lparr>bjournal := InsertManifestLayers name (join '';'' layers) (bjournal b)\<rparr>))))"

fun registry_layers ::
  "('db, 'tx) penv \<Rightarrow> string \<Rightarrow> string list \<Rightarrow> string list \<Rightarrow> (gerr, 'db pworld, string list) rd" where
  "registry_layers env dir [] layers = rd_return layers"
| "registry_layers env dir (layerName # ds) layers =
     rd_bind (blob_Get env dir layerName) (\<lambda>blobPath.
     let portoLayerName = replace_char CHR '':'' CHR ''_'' layerName in
     rd_bind (import_layer env portoLayerName blobPath) (\<lambda>_.
     registry_layers env dir ds (layers @ [portoLayerName])))"

definition registry_url :: "string \<Rightarrow> string" where
  "registry_url registry = (if has_prefix ''http'' registry then registry else ''https://'' @ registry)"

definition getLayersViaRegistry ::
  "('db, 'tx) penv \<Rightarrow> string \<Rightarrow> PortoProfile \<Rightarrow> (gerr, 'db box, unit) rd" where
  "getLayersViaRegistry env name profile =
     (if PortoProfile.Registry profile = '''' then rd_fail (Errorf ''Registry must be non empty'')
      else
        rd_bind (on_world (call (texts env) (RegParse
            (Join [PortoProfile.Repository profile, PortoProfile.Repository profile, name])))) (\<lambda>named.
        rd_bind (gets bconfig) (\<lambda>cfg.
        rd_bind (on_world (ack env (RegRepository named (registry_url (PortoProfile.Registry profile))
            (bcRegistryAuth cfg (PortoProfile.Registry profile))))) (\<lambda>_.
        rd_bind (on_world (ack env RegTag)) (\<lambda>_.
        rd_bind (on_world (ack env RegManifests)) (\<lambda>_.
        rd_bind (on_world (call (manifest_of env) RegGet)) (\<lambda>m.
        rd_bind (case m of
            Schema1 ds \<Rightarrow> rd_return (layerOrderV1 ds)
          | Schema2 ds \<Rightarrow> rd_return (layerOrderV2 ds)
          | OtherManifest \<Rightarrow> rd_fail (Errorf ''unknown manifest type'')) (\<lambda>digests.
        rd_bind (on_world (portoConnect env)) (\<lambda>_.
        rd_bind (on_world (registry_layers env (bcLayers cfg) digests [])) (\<lambda>layers.
        modify (\<lambda>b. b\<lparr>bjournal := InsertManifestLayers name (join '';'' layers) (bjournal b)\<rparr>)))))))))))"

section \<open>Spool\<close>

definition get_layers ::
  "('db, 'tx) penv \<Rightarrow> string \<Rightarrow> PortoProfile \<Rightarrow> (gerr, 'db box, unit) rd" where
  "get_layers env name profile =
     rd_bind (gets (\<lambda>b. (dhEnable b, dhfEnable b))) (\<lambda>(dh, dhf).
     if length (elems (Layers (ExtInfo profile))) > 0 \<and> dh then
       rd_bind (attempt (getLayersViaDownloadHelper env name profile)) (\<lambda>r. case r of
         Inl errGet \<Rightarrow> if \<not> dhf then rd_fail errGet else getLayersViaRegistry env name profile
       | Inr _ \<Rightarrow> rd_return ())
     else getLayersViaRegistry env name profile)"

definition Spool :: "('db, 'tx) penv \<Rightarrow> pruntime \<Rightarrow> string \<Rightarrow> bytes option \<Rightarrow> (gerr, 'db box, unit) rd" where
  "Spool env rt name opts = (case decode_profile rt (PortoProfile_DecodeMsg zero_PortoProfile) opts of
      Inl e \<Rightarrow> rd_fail e
    | Inr profile \<Rightarrow>
        rd_bind (get_layers env name profile) (\<lambda>_.
        rd_bind (gets (\<lambda>b. Enable (Cfg (mtn (pw b))))) (\<lambda>enabled.
        if enabled \<and> get_str (PortoProfile.Network profile) ''mtn'' = ''enable'' then
          rd_bind (attempt (\<lambda>b. on_world (on_mtn (BindAllocs (boltdb env) (alloc_range env)
              (allocator env (hist (pw b))) (get_str (PortoProfile.Network profile) ''netid''))) b)) (\<lambda>r. case r of
            Inl _ \<Rightarrow> rd_fail (Errorf (''Cant bind mtn alllocaton at spool with netid: '' @
              get_str (PortoProfile.Network profile) ''netid''))
          | Inr _ \<Rightarrow> rd_return ())
        else rd_return ())))"

section \<open>Spawn\<close>

definition put_bgate :: "gate \<Rightarrow> 'db box \<Rightarrow> 'db box" where
  "put_bgate g b = b\<lparr>bgate := g\<rparr>"

definition spawn_config :: "'db box \<Rightarrow> PortoProfile \<Rightarrow> SpawnConfig \<Rightarrow> string \<Rightarrow> containerConfig" where
  "spawn_config b profile config layers =
     (let ID = appGenLabel (scName config) @ ''_'' @ get_str (scArgs config) ''--uuid'' in
      \<lparr>eProfile = profile, eName = scName config, eExecutable = scExecutable config,
       eUlimits = bcDefaultUlimits (bconfig b), eResolvConf = bcDefaultResolvConf (bconfig b),
       eArgs = scArgs config, eEnv = scEnv config, ccBoxName = bName b,
       ccRoot = Join [bcContainers (bconfig b), ID], ccID = addRootNamespacePrefix (rootPrefix b) ID,
       ccLayer = layers, ccCleanupEnabled = bcCleanupEnabled (bconfig b), ccSetImgURI = bcSetImgURI (bconfig b),
       ccVolumeBackend = bcVolumeBackend (bconfig b), ccMtn = False, ccMtnAllocationId = '''', ccMtnIp = '''',
       ccVolumeLabel = bcVolumeLabel (bconfig b)\<rparr>)"

text \<open>From the new container on: track it, start it, clean up when it does not start.\<close>

definition spawn_started :: "('db, 'tx) penv \<Rightarrow> container \<Rightarrow> (gerr, 'db box, nat) rd" where
  "spawn_started env pr =
     rd_bind (gets (\<lambda>b. length (objects b))) (\<lambda>i.
     rd_bind (modify (\<lambda>b. b\<lparr>objects := objects b @ [pr], bcontainers := (bcontainers b)(containerID pr \<mapsto> i)\<rparr>)) (\<lambda>_.
     rd_bind (on_world (container_start env pr)) (\<lambda>(pr1, r).
     case r of
       Inl e \<Rightarrow>
         rd_bind (on_world (Cleanup env pr1)) (\<lambda>pr2.
         rd_bind (modify (\<lambda>b. b\<lparr>objects := (objects b)[i := pr2]\<rparr>)) (\<lambda>_. rd_fail e))
     | Inr _ \<Rightarrow>
         rd_bind (modify (\<lambda>b. b\<lparr>objects := (objects b)[i := pr1]\<rparr>)) (\<lambda>_.
         rd_bind (on_world (logged (ack env (Output (containerID pr1) '''')))) (\<lambda>_. rd_return i)))))"

text \<open>\<open>ctxDone\<close> and \<open>pick\<close>: whether the context of the spawn is done, and Go's choice.\<close>

definition Spawn ::
  "('db, 'tx) penv \<Rightarrow> pruntime \<Rightarrow> bool \<Rightarrow> bool \<Rightarrow> SpawnConfig \<Rightarrow> (gerr, 'db box, nat) rd" where
  "Spawn env rt ctxDone pick config = (case decode_profile rt (PortoProfile_DecodeMsg zero_PortoProfile) (scOpts config) of
      Inl e \<Rightarrow> rd_fail e
    | Inr profile \<Rightarrow>
        rd_bind (on_part bgate put_bgate gate_enter) (\<lambda>_.
        rd_bind (gets (\<lambda>b. GetManifestLayers (scName config) (bjournal b))) (\<lambda>layers.
        if layers = '''' then rd_fail (Errorf ''no layers in the journal for the app'')
        else
          rd_bind (gets (\<lambda>b. spawn_config b profile config layers)) (\<lambda>cfg.
          rd_bind (on_world (portoConnect env)) (\<lambda>_.
          through bgate put_bgate ctxDone pick (rd_bind (on_world (newContainer env cfg)) (spawn_started env)))))))"

definition box_Kill :: "('db, 'tx) penv \<Rightarrow> nat \<Rightarrow> (gerr, 'db box, gerr + unit) rd" where
  "box_Kill env i =
     rd_bind (gets (\<lambda>b. objects b ! i)) (\<lambda>c.
     rd_bind (on_world (container_Kill env c)) (\<lambda>(c1, r).
     rd_bind (modify (\<lambda>b. b\<lparr>objects := (objects b)[i := c1]\<rparr>)) (\<lambda>_. rd_return r)))"

section \<open>Garbage collection\<close>

text \<open>What a property reads as when its error is ignored.\<close>

definition property_or_empty ::
  "('db, 'tx) penv \<Rightarrow> string \<Rightarrow> string \<Rightarrow> (gerr, 'db pworld, string) rd" where
  "property_or_empty env name property =
     rd_bind (attempt (call (texts env) (PGetProperty name property))) (\<lambda>r.
     rd_return (case r of Inl _ \<Rightarrow> '''' | Inr v \<Rightarrow> v))"

definition gc_container ::
  "('db, 'tx) penv \<Rightarrow> portoBoxConfig \<Rightarrow> string \<Rightarrow> string list \<Rightarrow> (gerr, 'db pworld, string list) rd" where
  "gc_container env cfg name ips =
     rd_bind (property_or_empty env name ''state'') (\<lambda>containerState.
     if containerState = ''dead'' then
       rd_bind (logged (ack env (PDestroy name))) (\<lambda>_. rd_return ips)
     else if containerState = ''stopped'' then
       if name \<noteq> bcMetaName cfg then rd_bind (logged (ack env (PDestroy name))) (\<lambda>_. rd_return ips)
       else rd_return ips
     else if containerState = ''meta'' then rd_return ips
     else if containerState = ''running'' \<or> containerState = ''starting'' then
       rd_bind (property_or_empty env name ''ip'') (\<lambda>containerIp.
       rd_return (if length containerIp > 2 then ips @ [containerIp] else ips))
     else rd_return ips)"

fun gc_containers ::
  "('db, 'tx) penv \<Rightarrow> portoBoxConfig \<Rightarrow> string list \<Rightarrow> string list \<Rightarrow> (gerr, 'db pworld, string list) rd" where
  "gc_containers env cfg [] ips = rd_return ips"
| "gc_containers env cfg (name # names) ips =
     rd_bind (gc_container env cfg name ips) (gc_containers env cfg names)"

text \<open>The loop that deletes from the list it runs over: the index stays after a deletion.\<close>

function drop_running :: "string list \<Rightarrow> nat \<Rightarrow> Allocation list \<Rightarrow> Allocation list" where
  "drop_running ips i allocs =
     (if i < length allocs then
        if list_ex (\<lambda>ip. aIp (allocs ! i) = ip) ips
        then drop_running ips i (take i allocs @ drop (Suc i) allocs)
        else drop_running ips (Suc i) allocs
      else allocs)"
  by pat_completeness auto

termination drop_running
  by (relation "measure (\<lambda>(ips, i, allocs). length allocs - i)") auto

declare drop_running.simps [simp del]

definition gc_unused :: "string list \<Rightarrow> Allocation list \<Rightarrow> Allocation list" where
  "gc_unused ips allocs = (if length allocs > 0 \<and> length ips > 0 then drop_running ips 0 allocs else allocs)"

definition gc_allocations :: "('db, 'tx) penv \<Rightarrow> string \<Rightarrow> Allocation list \<Rightarrow> (gerr, 'db pworld, unit) rd" where
  "gc_allocations env box = each (\<lambda>a.
     if aBox a = box then logged (on_mtn (UnuseAlloc (boltdb env) (aNetId a) (aId a))) else rd_return ())"

definition gc_volumes :: "('db, 'tx) penv \<Rightarrow> portoBoxConfig \<Rightarrow> (gerr, 'db pworld, unit) rd" where
  "gc_volumes env cfg =
     rd_bind (attempt (call (vols env) PListVolumes)) (\<lambda>r. case r of
       Inl _ \<Rightarrow> rd_return ()
     | Inr volumes \<Rightarrow> each (\<lambda>(path, properties).
         if get_str properties ''Private'' = bcVolumeLabel cfg then logged (ack env (PUnlinkVolume path ''***''))
         else rd_return ()) volumes)"

definition used_allocations :: "('db, 'tx) penv \<Rightarrow> (gerr, 'db pworld, Allocation list) rd" where
  "used_allocations env = on_mtn (\<lambda>c. case UsedAllocations (boltdb env) c of
      ((Some e, _, _), c') \<Rightarrow> (Inl e, c') | ((None, allocs, _), c') \<Rightarrow> (Inr allocs, c'))"

text \<open>The value says whether the loop goes on: it ends when the allocations cannot be read.\<close>

definition gc :: "('db, 'tx) penv \<Rightarrow> string \<Rightarrow> portoBoxConfig \<Rightarrow> (gerr, 'db pworld, bool) rd" where
  "gc env box cfg =
     rd_bind (attempt (call (lists env) PList)) (\<lambda>r.
     let containerNames = (case r of Inl _ \<Rightarrow> [] | Inr names \<Rightarrow> names) in
     rd_bind (attempt (used_allocations env)) (\<lambda>r. case r of
       Inl _ \<Rightarrow> rd_return False
     | Inr usedAllocations \<Rightarrow>
         rd_bind (gc_containers env cfg containerNames []) (\<lambda>ips.
         rd_bind (gc_allocations env box (gc_unused ips usedAllocations)) (\<lambda>_.
         rd_bind (gc_volumes env cfg) (\<lambda>_. rd_return True)))))"

section \<open>The wait loop\<close>

text \<open>Before the loop: connect and collect.  Calling the missing connection panics.\<close>

definition wait_start :: "('db, 'tx) penv \<Rightarrow> (gerr, 'db box, bool \<times> bool) rd" where
  "wait_start env =
     rd_bind (on_world (attempt (portoConnect env))) (\<lambda>r.
     let conn = (case r of Inl _ \<Rightarrow> False | Inr _ \<Rightarrow> True) in
     rd_bind (gets (\<lambda>b. (bName b, bconfig b))) (\<lambda>(name, cfg).
     if bcGc cfg then
       if \<not> conn then rd_fail Panicked
       else rd_bind (on_world (gc env name cfg)) (\<lambda>go_on. rd_return (go_on, conn))
     else rd_return (True, conn)))"

definition kill_tracked :: "('db, 'tx) penv \<Rightarrow> string \<Rightarrow> (gerr, 'db box, unit) rd" where
  "kill_tracked env ourContainer =
     rd_bind (gets (\<lambda>b. bcontainers b ourContainer)) (\<lambda>tracked. case tracked of
       None \<Rightarrow> rd_return ()
     | Some i \<Rightarrow>
         rd_bind (modify (\<lambda>b. b\<lparr>bcontainers := (bcontainers b)(ourContainer := None)\<rparr>)) (\<lambda>_.
         rd_bind (box_Kill env i) (\<lambda>_. rd_return ())))"

text \<open>
  The containers of one round; the value says whether the connection is kept.  An error that is not
  one of porto panics in the type assertion.
\<close>

fun check_containers :: "('db, 'tx) penv \<Rightarrow> string list \<Rightarrow> (gerr, 'db box, bool) rd" where
  "check_containers env [] = rd_return True"
| "check_containers env (ourContainer # others) =
     rd_bind (on_world (attempt (call (texts env) (PGetProperty ourContainer ''state'')))) (\<lambda>r. case r of
       Inl (Reported (PortoError _ name _)) \<Rightarrow>
         if name = ''ContainerDoesNotExist''
         then rd_bind (kill_tracked env ourContainer) (\<lambda>_. check_containers env others)
         else rd_return False
     | Inl _ \<Rightarrow> rd_fail Panicked
     | Inr containerState \<Rightarrow>
         rd_bind (if containerState = ''dead'' then kill_tracked env ourContainer else rd_return ()) (\<lambda>_.
         check_containers env others))"

definition wait_round :: "('db, 'tx) penv \<Rightarrow> pruntime \<Rightarrow> bool \<Rightarrow> (gerr, 'db box, bool) rd" where
  "wait_round env rt conn =
     rd_bind (if conn then rd_return (Inr ()) else on_world (attempt (portoConnect env))) (\<lambda>r. case r of
       Inl _ \<Rightarrow> rd_return False
     | Inr _ \<Rightarrow>
         rd_bind (gets (\<lambda>b. cnt_range rt (bcontainers b))) (check_containers env))"

fun wait_rounds :: "('db, 'tx) penv \<Rightarrow> pruntime \<Rightarrow> nat \<Rightarrow> bool \<Rightarrow> (gerr, 'db box, unit) rd" where
  "wait_rounds env rt 0 conn = rd_return ()"
| "wait_rounds env rt (Suc n) conn = rd_bind (wait_round env rt conn) (wait_rounds env rt n)"

text \<open>\<open>n\<close> is the number of rounds before the box is closed.\<close>

definition waitLoop :: "('db, 'tx) penv \<Rightarrow> pruntime \<Rightarrow> nat \<Rightarrow> (gerr, 'db box, unit) rd" where
  "waitLoop env rt n = rd_bind (wait_start env) (\<lambda>(go_on, conn).
     if go_on then wait_rounds env rt n conn else rd_return ())"

section \<open>Inspect\<close>

text \<open>\<^verbatim>\<open>portoData.MarshalJSON\<close>, whose keys are the cached properties or those of the answer.\<close>

definition json_member :: "(string \<rightharpoonup> getResponse) \<Rightarrow> string \<Rightarrow> string" where
  "json_member d name =
     (let v = (case d name of None \<Rightarrow> \<lparr>grValue = '''', grError = 0, grErrorMsg = ''''\<rparr> | Some v \<Rightarrow> v);
          quote = [CHR 0x22]
      in quote @ name @ quote @ '':'' @ quote @ (if grError v = 0 then grValue v else grErrorMsg v) @ quote)"

definition MarshalJSON ::
  "((string \<rightharpoonup> getResponse) \<Rightarrow> string list) \<Rightarrow> string list \<Rightarrow> (string \<rightharpoonup> getResponse) option \<Rightarrow> string" where
  "MarshalJSON ord cached d0 = (case d0 of
      None \<Rightarrow> ''null''
    | Some d \<Rightarrow>
        let keys = (if length cached = 0 then sort (ord d) else cached)
        in ''{'' @ join '','' (map (json_member d) keys) @ ''}'')"

definition getPListAndDlist :: "('db, 'tx) penv \<Rightarrow> (gerr, 'db box, string list) rd" where
  "getPListAndDlist env =
     rd_bind (gets propList) (\<lambda>list.
     if length list \<noteq> 0 then rd_return list
     else
       rd_bind (on_world (attempt (call (lists env) PPlist))) (\<lambda>r. case r of
         Inl _ \<Rightarrow> rd_return list
       | Inr portoProps \<Rightarrow>
           let list1 = list @ portoProps in
           rd_bind (on_world (attempt (call (lists env) PDlist))) (\<lambda>r. case r of
             Inl _ \<Rightarrow> rd_return list1
           | Inr items \<Rightarrow>
               let list2 = sort (list1 @ filter (\<lambda>name. name \<noteq> ''stdout'' \<and> name \<noteq> ''stderr'') items) in
               rd_bind (modify (\<lambda>b. b\<lparr>propList := list2\<rparr>)) (\<lambda>_. rd_return list2))))"

text \<open>The last step is \<^verbatim>\<open>json.Marshal\<close>, which checks and compacts what \<^verbatim>\<open>MarshalJSON\<close> gives it.\<close>

definition Inspect :: "('db, 'tx) penv \<Rightarrow> pruntime \<Rightarrow> string \<Rightarrow> (gerr, 'db box, string) rd" where
  "Inspect env rt workeruuid =
     rd_bind (gets (\<lambda>b. find (\<lambda>cid. case bcontainers b cid of
         None \<Rightarrow> False | Some i \<Rightarrow> cuuid (objects b ! i) = workeruuid) (cnt_range rt (bcontainers b)))) (\<lambda>found.
     case found of
       None \<Rightarrow> rd_return ''''
     | Some cid \<Rightarrow>
         rd_bind (on_world (portoConnect env)) (\<lambda>_.
         rd_bind (getPListAndDlist env) (\<lambda>list.
         rd_bind (on_world (call (datas env) (PGet cid list))) (\<lambda>result.
         rd_bind (gets propList) (\<lambda>cached.
         case compact rt (MarshalJSON (data_range rt) cached (result cid)) of
           Inl e \<Rightarrow> rd_fail (Reported e) | Inr body \<Rightarrow> rd_return body)))))"

section \<open>The journal file, starting and closing\<close>

definition dumpJournal :: "('db, 'tx) penv \<Rightarrow> (gerr, 'db box, unit) rd" where
  "dumpJournal env =
     rd_bind (gets (\<lambda>b. (bcJournal (bconfig b), bjournal b))) (\<lambda>(path, j).
     on_world (
       rd_bind (call (texts env) (OsTempFile (Dir path))) (\<lambda>tempfile.
       rd_bind (attempt (
         rd_bind (ack env (JournalWrite tempfile (Dump (str_range env) j))) (\<lambda>_.
         ack env (OsRename tempfile path)))) (\<lambda>r.
       rd_bind (logged (ack env (OsRemove tempfile))) (\<lambda>_.
       case r of Inl e \<Rightarrow> rd_fail e | Inr _ \<Rightarrow> rd_return ())))))"

text \<open>The journal is dumped every minute and once more when the box is closed; \<open>n\<close> is the number of minutes.\<close>

definition dumpJournalEvery :: "('db, 'tx) penv \<Rightarrow> nat \<Rightarrow> (gerr, 'db box, unit) rd" where
  "dumpJournalEvery env n = each (\<lambda>_. logged (dumpJournal env)) [0..<Suc n]"

text \<open>The errors of the JSON decoder, without the offset their messages have.\<close>

definition json_failure :: "json_err \<Rightarrow> gerr" where
  "json_failure e = Reported (SysErr (case e of JsonSyntax \<Rightarrow> ''invalid JSON'' | JsonType \<Rightarrow> ''cannot unmarshal JSON''))"

definition loadJournal :: "('db, 'tx) penv \<Rightarrow> (gerr, 'db box, unit) rd" where
  "loadJournal env =
     rd_bind (gets (\<lambda>b. bcJournal (bconfig b))) (\<lambda>path.
     rd_bind (on_world (attempt (ack env (OsOpen path)))) (\<lambda>r. case r of
       Inl (Reported (NotExist _)) \<Rightarrow> rd_return ()
     | Inl e \<Rightarrow> rd_fail e
     | Inr _ \<Rightarrow>
         rd_bind (on_world (call (docs env) (JournalRead path))) (\<lambda>d.
         rd_bind (gets (\<lambda>b. Load d (bjournal b))) (\<lambda>(err, j).
         rd_bind (modify (\<lambda>b. b\<lparr>bjournal := j\<rparr>)) (\<lambda>_. case err of
           None \<Rightarrow> rd_return ()
         | Some e \<Rightarrow> rd_fail (json_failure e))))))"

text \<open>\<^verbatim>\<open>Close\<close>; closing the database of the pool, present or not, is a call of its library.\<close>

definition Close :: "('db option \<Rightarrow> gerr + unit) \<Rightarrow> (gerr, 'db box, unit) rd" where
  "Close dbClose = rd_bind (gets (\<lambda>b. dbClose (Db (mtn (pw b))))) (\<lambda>r. case r of
      Inl e \<Rightarrow> if fatal e then rd_fail e else rd_return () | Inr _ \<Rightarrow> rd_return ())"

text \<open>The meta container above all others: made or kept, and its properties set again.\<close>

definition meta_container :: "('db, 'tx) penv \<Rightarrow> portoBoxConfig \<Rightarrow> string \<Rightarrow> (gerr, 'db pworld, string) rd" where
  "meta_container env cfg pfx =
     (if bcMetaName cfg = '''' then rd_return pfx
      else
        let pfx' = pfx @ bcMetaName cfg in
        rd_bind (attempt (ack env (PCreate pfx'))) (\<lambda>r.
        rd_bind (case r of
            Inl (Reported (PortoError n name m)) \<Rightarrow>
              if name \<noteq> ''ContainerAlreadyExists'' then rd_fail (Reported (PortoError n name m)) else rd_return ()
          | Inl e \<Rightarrow> rd_fail e
          | Inr _ \<Rightarrow> rd_return ()) (\<lambda>_.
        rd_bind (each (\<lambda>(key, value). ack env (PSetProperty pfx' key value)) (pairs (str_range env) (bcMetaProp cfg))) (\<lambda>_.
        rd_return pfx'))))"

text \<open>The options and what they default to, before the box exists.\<close>

definition box_options :: "portoBoxConfig \<Rightarrow> gerr + portoBoxConfig" where
  "box_options config =
     (if bcLayers config = '''' then Inl (Errorf ''option Layers is invalid or unspecified'')
      else if bcContainers config = '''' then Inl (Errorf ''option Containers is invalid or unspecified'')
      else if bcJournal config = '''' then Inl (Errorf ''option Journal is empty or unspecified'')
      else Inr (if bcVolumeBackend config = '''' then config\<lparr>bcVolumeBackend := ''overlay''\<rparr> else config))"

definition box_dirs :: "('db, 'tx) penv \<Rightarrow> portoBoxConfig \<Rightarrow> (gerr, 'db pworld, unit) rd" where
  "box_dirs env config =
     rd_bind (ack env (OsMkdirAll (bcLayers config))) (\<lambda>_.
     rd_bind (ack env (OsMkdirAll (bcContainers config))) (\<lambda>_.
     NewBlobRepository env (bcLayers config)))"

definition open_box :: "('db, 'tx) penv \<Rightarrow> portoBoxConfig \<Rightarrow> (gerr, 'db pworld, string) rd" where
  "open_box env config =
     rd_bind (portoConnect env) (\<lambda>_.
     rd_bind (call (texts env) (PGetProperty ''self'' ''absolute_name'')) (\<lambda>rp.
     meta_container env config (if rp = ''/'' then '''' else rp)))"

text \<open>
  The body of \<^verbatim>\<open>NewBox\<close> once the box exists, on the box itself: read the journal and drop what porto
  no longer has.
\<close>

definition init_box :: "('db, 'tx) penv \<Rightarrow> ('db option \<Rightarrow> gerr + unit) \<Rightarrow> (gerr, 'db box, unit) rd" where
  "init_box env dbClose =
     rd_bind (attempt (loadJournal env)) (\<lambda>r. case r of
       Inl e \<Rightarrow> rd_bind (Close dbClose) (\<lambda>_. rd_fail e)
     | Inr _ \<Rightarrow>
         rd_bind (on_world (call (lists env) PListLayers)) (\<lambda>layers.
         modify (\<lambda>b. b\<lparr>bjournal := UpdateFromPorto (str_range env) layers (bjournal b)\<rparr>)))"

text \<open>
  \<^verbatim>\<open>NewBox\<close> on the decoded configuration.  \<open>uuid\<close> is the fresh identifier of the journal, \<open>queue\<close> and
  \<open>props\<close> the package's globals.
\<close>

definition NewBox ::
  "('db, 'tx) penv \<Rightarrow> ('db option \<Rightarrow> gerr + unit) \<Rightarrow> string \<Rightarrow> int \<Rightarrow> string list \<Rightarrow> portoBoxConfig \<Rightarrow>
   'db pworld \<Rightarrow> (gerr + 'db box) \<times> 'db pworld" where
  "NewBox env dbClose uuid queue props config w = (case box_options config of
      Inl e \<Rightarrow> (Inl e, w)
    | Inr cfg \<Rightarrow> (case rd_bind (box_dirs env cfg) (\<lambda>_. open_box env cfg) w of
         (Inl e, w1) \<Rightarrow> (Inl e, w1)
       | (Inr pfx, w1) \<Rightarrow> (case sem_New (bcSpawnConcurrency cfg) of
            Inl e \<Rightarrow> (Inl e, w1)
          | Inr sm \<Rightarrow>
              let b = \<lparr>pw = w1, bName = ''porto'', bconfig = cfg, bjournal = newJournal uuid, bcontainers = Map.empty,
                       objects = [], bgate = \<lparr>gSem = sm, gQueue = queue\<rparr>, rootPrefix = pfx, dhEnable = (bcDownloadHelperCmd cfg \<noteq> ''''),
                       dhfEnable = bcDownloadHelperFallback cfg, propList = props\<rparr>
              in (case init_box env dbClose b of
                    (Inl e, b1) \<Rightarrow> (Inl e, pw b1)
                  | (Inr _, b1) \<Rightarrow> (Inr b1, pw b1)))))"

end
