(* ===== verification/Porto_Box_Laws.thy ===== *)
theory Porto_Box_Laws
  imports Porto_Box
begin

text \<open>
  Laws of the porto box: what spawning, spooling, collecting garbage and watching the containers do to
  porto's containers and volumes, to the network pool, to the journal and to the gate.
\<close>

section \<open>Computations of the box\<close>

text \<open>\<open>box_issues m P\<close>: the result of \<open>m\<close> and the calls it adds to the history of the world satisfy \<open>P\<close>.\<close>

definition box_issues :: "(gerr, 'db box, 'a) rd \<Rightarrow> (gerr + 'a \<Rightarrow> pevent history \<Rightarrow> bool) \<Rightarrow> bool" where
  "box_issues m P \<longleftrightarrow> (\<forall>b. \<exists>es. hist (pw (snd (m b))) = hist (pw b) @ es \<and> P (fst (m b)) es)"

lemma box_issuesD: "box_issues m P \<Longrightarrow> m b = (r, b') \<Longrightarrow> \<exists>es. hist (pw b') = hist (pw b) @ es \<and> P r es"
  by (metis box_issues_def fst_conv snd_conv)

lemma box_issues_weaken: "box_issues m P \<Longrightarrow> (\<And>r es. P r es \<Longrightarrow> Q r es) \<Longrightarrow> box_issues m Q"
  unfolding box_issues_def by blast

lemma box_issues_world:
  assumes "issues m P"
  shows "box_issues (on_world m) P"
  unfolding box_issues_def
proof
  fix b :: "'a box"
  obtain r w where r: "m (pw b) = (r, w)" by force
  from issuesD [OF assms r] show "\<exists>es. hist (pw (snd (on_world m b))) = hist (pw b) @ es \<and> P (fst (on_world m b)) es"
    using r by (simp add: on_world_def)
qed

lemma box_issues_return: "P (Inr x) [] \<Longrightarrow> box_issues (rd_return x) P"
  by (simp add: box_issues_def rd_return_def)

lemma box_issues_fail: "P (Inl e) [] \<Longrightarrow> box_issues (rd_fail e) P"
  by (simp add: box_issues_def rd_fail_def)

lemma box_issues_gets: "(\<And>x. P (Inr x) []) \<Longrightarrow> box_issues (gets f) P"
  by (simp add: box_issues_def gets_def)

lemma box_issues_modify: "(\<And>b. pw (f b) = pw b) \<Longrightarrow> P (Inr ()) [] \<Longrightarrow> box_issues (modify f) P"
  by (simp add: box_issues_def modify_def)

lemma box_issues_bind:
  assumes m: "box_issues m (\<lambda>r es. case r of Inl e \<Rightarrow> P (Inl e) es | Inr x \<Rightarrow> box_issues (f x) (\<lambda>r' es'. P r' (es @ es')))"
  shows "box_issues (rd_bind m f) P"
  unfolding box_issues_def
proof
  fix b
  obtain r b1 where r: "m b = (r, b1)" by force
  from box_issuesD [OF m r] obtain es where es: "hist (pw b1) = hist (pw b) @ es"
    "case r of Inl e \<Rightarrow> P (Inl e) es | Inr x \<Rightarrow> box_issues (f x) (\<lambda>r' es'. P r' (es @ es'))" by blast
  show "\<exists>es. hist (pw (snd (rd_bind m f b))) = hist (pw b) @ es \<and> P (fst (rd_bind m f b)) es"
  proof (cases r)
    case (Inl e)
    with r es show ?thesis by (simp add: rd_bind_def)
  next
    case (Inr x)
    obtain r2 b2 where r2: "f x b1 = (r2, b2)" by force
    from es Inr have "box_issues (f x) (\<lambda>r' es'. P r' (es @ es'))" by simp
    from box_issuesD [OF this r2] obtain fs where "hist (pw b2) = hist (pw b1) @ fs" "P r2 (es @ fs)" by blast
    with r r2 es Inr show ?thesis by (simp add: rd_bind_def)
  qed
qed

lemma box_issues_silent:
  assumes "\<And>b. pw (snd (m b)) = pw b" "\<And>r. P r []"
  shows "box_issues m P"
  using assms by (simp add: box_issues_def)

section \<open>Spawning\<close>

text \<open>The part under the semaphore: a new container, tracked and started, or cleaned up again.\<close>

definition spawn_post :: "containerConfig \<Rightarrow> gerr + nat \<Rightarrow> pevent history \<Rightarrow> bool" where
  "spawn_post cfg r es \<longleftrightarrow> (case r of
      Inl e \<Rightarrow> fatal e \<or> \<not> ccCleanupEnabled cfg \<or>
        asked_existing es {} = {} \<and> asked_held es {} \<subseteq> (set (extra_paths cfg) - {root_path cfg}) \<times> {''/''}
    | Inr i \<Rightarrow> asked_existing es {} = {ccID cfg} \<and> asked_held es {} = set (root_path cfg # extra_paths cfg) \<times> {ccID cfg} \<and>
        (PStart (ccID cfg), True) \<in> set es)"

definition start_post :: "container \<Rightarrow> gerr + (container \<times> (gerr + unit)) \<Rightarrow> pevent history \<Rightarrow> bool" where
  "start_post k r es \<longleftrightarrow>
     (\<exists>e. r = Inr (k\<lparr>coutput := True\<rparr>, Inl e) \<and> \<not> fatal e \<and> es = [(PStart (containerID k), False)]) \<or>
     r = Inr (k\<lparr>coutput := True\<rparr>, Inr ()) \<and> es = [(PStart (containerID k), True)]"

lemma container_start_issues: "issues (container_start env k) (start_post k)"
  unfolding container_start_def Let_def
  by (rule issues_bind, rule issues_attempt_ack) (simp_all add: issues_def rd_return_def start_post_def)

lemma start_ledger [simp]:
  "asked_held_step (PStart i, ok) S = S" "asked_existing_step (PStart i, ok) T = T"
  "asked_held_step (Output i s, ok) S = S" "asked_existing_step (Output i s, ok) T = T"
  by (simp_all add: asked_held_step_def asked_existing_step_def)

lemma new_post_Inr:
  assumes "new_post cfg (Inr k) fs"
  shows "asked_existing fs {} = {ccID cfg}" "asked_held fs {} = set (root_path cfg # extra_paths cfg) \<times> {ccID cfg}"
    "containerID k = ccID cfg" "cleanupEnabled k = ccCleanupEnabled cfg"
  using assms by (simp_all add: new_post_def)

text \<open>A container that does not start is cleaned up.\<close>

lemma not_started_ledger:
  assumes new: "new_post cfg (Inr k) fs" and k: "k' = k\<lparr>coutput := True\<rparr>" and es: "map fst es = cleanup_calls k'"
    and e: "\<not> fatal e"
  shows "spawn_post cfg (Inl e) (fs @ (PStart (containerID k), False) # es)"
proof (cases "ccCleanupEnabled cfg")
  case True
  then have "cleanupEnabled k'" using new_post_Inr(4) [OF new] k by simp
  note l = ledger_cleanup [OF es this]
  show ?thesis using new_post_Inr(1-3) [OF new] k by (auto simp: spawn_post_def l)
qed (simp add: spawn_post_def)

lemma started_issues:
  assumes new: "new_post cfg (Inr k) fs"
  shows "box_issues (spawn_started env k) (\<lambda>r es. spawn_post cfg r (fs @ es))"
proof -
  let ?k = "k\<lparr>coutput := True\<rparr>"
  have fail: "box_issues (rd_bind (on_world (Cleanup env ?k)) (\<lambda>pr2.
         rd_bind (modify (\<lambda>b. b\<lparr>objects := (objects b)[i := pr2]\<rparr>)) (\<lambda>_. rd_fail e)))
       (\<lambda>r es. spawn_post cfg r (fs @ (PStart (containerID k), False) # es))" if "\<not> fatal e" for e i
  proof (rule box_issues_bind, rule box_issues_world, rule issues_weaken [OF Cleanup_issues], goal_cases)
    case (1 r es)
    show ?case
    proof (cases r)
      case (Inl f)
      then show ?thesis using 1 by (simp add: spawn_post_def)
    next
      case (Inr k')
      with 1 have "map fst es = cleanup_calls ?k" by simp
      from not_started_ledger [OF new refl this that] Inr show ?thesis
        by (simp add: box_issues_def rd_bind_def modify_def rd_fail_def)
    qed
  qed
  have ok: "box_issues (rd_bind (modify (\<lambda>b. b\<lparr>objects := (objects b)[i := ?k]\<rparr>)) (\<lambda>_.
         rd_bind (on_world (logged (ack env (Output (containerID ?k) '''')))) (\<lambda>_. rd_return i)))
       (\<lambda>r es. spawn_post cfg r (fs @ (PStart (containerID k), True) # es))" for i
    using new_post_Inr [OF new]
    by (intro box_issues_bind box_issues_modify; simp?) (rule box_issues_bind, rule box_issues_world,
        rule issues_logged_ack, simp add: box_issues_def rd_return_def spawn_post_def)
  show ?thesis unfolding spawn_started_def
  proof (rule box_issues_bind, rule box_issues_gets, simp, rule box_issues_bind, rule box_issues_modify, simp, simp,
      rule box_issues_bind, rule box_issues_world, rule issues_weaken [OF container_start_issues], goal_cases)
    case (1 i r es)
    then show ?case unfolding start_post_def
    proof (elim disjE exE conjE)
      fix e assume "r = Inr (?k, Inl e)" "\<not> fatal e" "es = [(PStart (containerID k), False)]"
      then show ?thesis using fail [of e i] by simp
    next
      assume "r = Inr (?k, Inr ())" "es = [(PStart (containerID k), True)]"
      then show ?thesis using ok [of i] by simp
    qed
  qed
qed

lemma spawn_body_issues:
  assumes "ccID cfg \<noteq> ''/''"
  shows "box_issues (rd_bind (on_world (newContainer env cfg)) (spawn_started env)) (spawn_post cfg)"
proof (rule box_issues_bind, rule box_issues_world, rule issues_weaken [OF newContainer_issues [OF assms]], goal_cases)
  case (1 r es)
  show ?case
  proof (cases r)
    case (Inl e)
    then show ?thesis using 1 by (auto simp: new_post_def spawn_post_def)
  next
    case (Inr k)
    then show ?thesis using 1 started_issues [of cfg k es env] by simp
  qed
qed

lemma box_issues_through:
  fixes body :: "(gerr, 'a box, 'b) rd"
  assumes body: "box_issues body P" and early: "\<And>e. P (Inl e) []" and fatal: "\<And>e es. fatal e \<Longrightarrow> P (Inl e) es"
  shows "box_issues (through bgate put_bgate d p body) P"
  unfolding box_issues_def
proof
  fix b :: "'a box"
  obtain a g where a: "gate_acquire d p (bgate b) = (a, g)" by force
  let ?t = "through bgate put_bgate d p body b"
  show "\<exists>es. hist (pw (snd ?t)) = hist (pw b) @ es \<and> P (fst ?t) es"
  proof (cases a)
    case (Inl e)
    then show ?thesis using a early by (simp add: through_def rd_bind_def on_part_def put_bgate_def)
  next
    case (Inr u)
    let ?b = "put_bgate g b"
    obtain r b1 where r: "body ?b = (r, b1)" by force
    from box_issuesD [OF body r] obtain es where es: "hist (pw b1) = hist (pw b) @ es" "P r es"
      by (auto simp: put_bgate_def)
    obtain q g1 where q: "gate_release (bgate b1) = (q, g1)" by force
    have qf: "fatal f" if "q = Inl f" for f
      using q that by (auto simp: gate_release_def sem_Release_def split: if_splits)
    have t: "?t = (case r of
        Inl e \<Rightarrow> if fatal e then (Inl e, b1) else (case q of Inl f \<Rightarrow> Inl f | Inr _ \<Rightarrow> Inl e, put_bgate g1 b1)
      | Inr x \<Rightarrow> (case q of Inl f \<Rightarrow> Inl f | Inr _ \<Rightarrow> Inr x, put_bgate g1 b1))"
      using a Inr r q by (auto simp: through_def rd_bind_def on_part_def attempt_def rd_fail_def rd_return_def
          split: sum.splits)
    show ?thesis using es qf fatal
      by (intro exI [of _ es]) (auto simp: t put_bgate_def split: sum.splits)
  qed
qed

text \<open>The configuration a spawn makes of its profile and of the journal.\<close>

definition spawn_cfg :: "pruntime \<Rightarrow> SpawnConfig \<Rightarrow> 'db box \<Rightarrow> containerConfig option" where
  "spawn_cfg rt config b = (case decode_profile rt (PortoProfile_DecodeMsg zero_PortoProfile) (scOpts config) of
      Inl e \<Rightarrow> None
    | Inr profile \<Rightarrow> (case GetManifestLayers (scName config) (bjournal b) of
        '''' \<Rightarrow> None | layers \<Rightarrow> Some (spawn_config b profile config layers)))"

lemma spawn_post_early: "spawn_post cfg (Inl e) []" "spawn_post cfg (Inl e) [(PConnect, ok)]"
  by (simp_all add: spawn_post_def asked_held_step_def asked_existing_step_def)

lemma spawn_post_connected: "spawn_post cfg r es \<Longrightarrow> spawn_post cfg r ((PConnect, ok) # es)"
  by (auto simp: spawn_post_def asked_held_step_def asked_existing_step_def split: sum.splits)

lemma spawn_post_fatal: "fatal e \<Longrightarrow> spawn_post cfg (Inl e) es"
  by (simp add: spawn_post_def)

lemma portoConnect_result:
  "portoConnect env w = (r, w') \<Longrightarrow>
   (r = Inl Blocked \<and> w' = w) \<or> (\<exists>e. r = Inl (Reported e) \<and> w' = w\<lparr>hist := hist w @ [(PConnect, False)]\<rparr>) \<or>
   (r = Inr () \<and> w' = w\<lparr>hist := hist w @ [(PConnect, True)]\<rparr>)"
  by (auto simp: portoConnect_def split: option.splits)

lemma Spawn_ledger:
  assumes cfg: "spawn_cfg rt config b = Some cfg" and id: "ccID cfg \<noteq> ''/''"
    and run: "Spawn env rt d p config b = (r, b')"
  shows "\<exists>es. hist (pw b') = hist (pw b) @ es \<and> spawn_post cfg r es"
proof -
  obtain profile where pr: "decode_profile rt (PortoProfile_DecodeMsg zero_PortoProfile) (scOpts config) = Inr profile"
    using cfg by (auto simp: spawn_cfg_def split: sum.splits)
  let ?layers = "GetManifestLayers (scName config) (bjournal b)"
  have ly: "?layers \<noteq> ''''" "cfg = spawn_config b profile config ?layers"
    using cfg pr by (auto simp: spawn_cfg_def split: list.splits)
  obtain a g where a: "gate_enter (bgate b) = (a, g)" by force
  show ?thesis
  proof (cases a)
    case (Inl e)
    then have "r = Inl e" "hist (pw b') = hist (pw b)"
      using run pr a by (auto simp: Spawn_def rd_bind_def on_part_def put_bgate_def)
    then show ?thesis using spawn_post_early by auto
  next
    case (Inr u)
    let ?b = "put_bgate g b"
    have same: "pw ?b = pw b" "bjournal ?b = bjournal b" "spawn_config ?b profile config ?layers = cfg"
      using ly(2) by (simp_all add: put_bgate_def spawn_config_def)
    have run2: "rd_bind (on_world (portoConnect env)) (\<lambda>_. through bgate put_bgate d p
        (rd_bind (on_world (newContainer env cfg)) (spawn_started env))) ?b = (r, b')"
      using run pr a Inr ly(1) same by (simp add: Spawn_def rd_bind_def [of "on_part _ _ _"] rd_bind_def [of "gets _"] on_part_def gets_def)
    obtain q w where q: "portoConnect env (pw b) = (q, w)" by force
    show ?thesis using portoConnect_result [OF q]
    proof (elim disjE conjE exE)
      assume "q = Inl Blocked" "w = pw b"
      then have "r = Inl Blocked" "hist (pw b') = hist (pw b)"
        using run2 q same by (auto simp: rd_bind_def on_world_def)
      then show ?thesis using spawn_post_early by auto
    next
      fix e assume "q = Inl (Reported e)" "w = (pw b)\<lparr>hist := hist (pw b) @ [(PConnect, False)]\<rparr>"
      then have "r = Inl (Reported e)" "hist (pw b') = hist (pw b) @ [(PConnect, False)]"
        using run2 q same by (auto simp: rd_bind_def on_world_def)
      then show ?thesis using spawn_post_early by auto
    next
      assume w: "q = Inr ()" "w = (pw b)\<lparr>hist := hist (pw b) @ [(PConnect, True)]\<rparr>"
      then have t: "through bgate put_bgate d p (rd_bind (on_world (newContainer env cfg)) (spawn_started env)) (?b\<lparr>pw := w\<rparr>) = (r, b')"
        using run2 q same by (simp add: rd_bind_def [of "on_world _"] on_world_def)
      have "box_issues (through bgate put_bgate d p (rd_bind (on_world (newContainer env cfg)) (spawn_started env))) (spawn_post cfg)"
        by (intro box_issues_through spawn_body_issues id spawn_post_early spawn_post_fatal)
      from box_issuesD [OF this t] obtain es where "hist (pw b') = hist w @ es" "spawn_post cfg r es" by auto
      then show ?thesis using spawn_post_connected w(2) by (intro exI [of _ "(PConnect, True) # es"]) simp
    qed
  qed
qed

section \<open>The gate of the box\<close>

interpretation porto_gate: gated bgate put_bgate
  by unfold_locales (simp add: put_bgate_def)

text \<open>A spawn of an application that was not spooled stays counted.\<close>

lemma Spawn_no_layers:
  assumes "decode_profile rt (PortoProfile_DecodeMsg zero_PortoProfile) (scOpts config) = Inr profile"
    "GetManifestLayers (scName config) (bjournal b) = ''''" "gQueue (bgate b) < 10"
  shows "Spawn env rt d p config b =
    (Inl (Errorf ''no layers in the journal for the app''), b\<lparr>bgate := (bgate b)\<lparr>gQueue := gQueue (bgate b) + 1\<rparr>\<rparr>)"
  using assms by (simp add: Spawn_def rd_bind_def on_part_def gate_enter_def put_bgate_def gets_def rd_fail_def Let_def)

lemma Spawn_refused:
  assumes "decode_profile rt (PortoProfile_DecodeMsg zero_PortoProfile) (scOpts config) = Inr profile"
    "gQueue (bgate b) \<ge> 10"
  shows "Spawn env rt d p config b = (Inl EAGAIN, b)"
  using assms by (simp add: Spawn_def rd_bind_def on_part_def gate_enter_def put_bgate_def Let_def)

section \<open>Garbage collection\<close>

text \<open>The loop that deletes while it runs is a filter.\<close>

lemma drop_running_filter:
  "drop_running ips i allocs = take i allocs @ filter (\<lambda>a. aIp a \<notin> set ips) (drop i allocs)"
proof (induction ips i allocs rule: drop_running.induct)
  case (1 ips i allocs)
  show ?case
  proof (cases "i < length allocs")
    case True
    have d: "drop i allocs = allocs ! i # drop (Suc i) allocs" using True by (simp add: Cons_nth_drop_Suc)
    have x: "list_ex (\<lambda>ip. aIp (allocs ! i) = ip) ips \<longleftrightarrow> aIp (allocs ! i) \<in> set ips"
      by (auto simp: list_ex_iff)
    show ?thesis
    proof (cases "aIp (allocs ! i) \<in> set ips")
      case yes: True
      have "drop_running ips i allocs = drop_running ips i (take i allocs @ drop (Suc i) allocs)"
        using True yes x by (simp add: drop_running.simps [of ips i allocs])
      then show ?thesis using 1(1) [OF True] yes x True d by simp
    next
      case no: False
      have "drop_running ips i allocs = drop_running ips (Suc i) allocs"
        using True no x by (simp add: drop_running.simps [of ips i allocs])
      then show ?thesis using 1(2) [OF True] no x True d by (simp add: take_Suc_conv_app_nth)
    qed
  qed (simp add: drop_running.simps [of ips i allocs])
qed

lemma gc_unused_filter: "gc_unused ips allocs = filter (\<lambda>a. aIp a \<notin> set ips) allocs"
  by (simp add: gc_unused_def drop_running_filter)

text \<open>What is freed of the pool: only allocations among the given ones that belong to the box.\<close>

definition freed_only :: "(string \<times> string) set \<Rightarrow> contents \<Rightarrow> contents \<Rightarrow> bool" where
  "freed_only K m m' \<longleftrightarrow> (\<forall>n k. in_use m' n k \<longrightarrow> in_use m n k) \<and> (\<forall>n k. in_use m n k \<longrightarrow> \<not> in_use m' n k \<longrightarrow> (n, k) \<in> K)"

lemma freed_only_refl: "freed_only K m m"
  by (simp add: freed_only_def)

lemma freed_only_trans: "freed_only K m m1 \<Longrightarrow> freed_only K m1 m2 \<Longrightarrow> freed_only K m m2"
  unfolding freed_only_def by blast

lemma freed_only_mono: "freed_only K m m' \<Longrightarrow> K \<subseteq> L \<Longrightarrow> freed_only L m m'"
  unfolding freed_only_def by blast

lemma UnuseAlloc_pool:
  assumes "bolt_ok bt dc tc" "pool dc c = Some m" "UnuseAlloc bt n k c = (r, c')"
  shows "\<exists>m'. pool dc c' = Some m' \<and> freed_only {(n, k)} m m'"
proof -
  obtain q c1 where q: "FreeDbAlloc bt n k c = (q, c1)" by force
  have c': "c' = c1" using assms(3) q by (auto simp: UnuseAlloc_def split: sum.splits merr.splits)
  show ?thesis
  proof (cases q)
    case (Inr u)
    from FreeDbAlloc_releases [OF assms(1,2) q [unfolded Inr]] show ?thesis using c' by (auto simp: freed_only_def)
  next
    case (Inl e)
    have "pool dc c1 = pool dc c" using with_tx_Inl [OF assms(1)] q Inl by (metis FreeDbAlloc_def)
    then show ?thesis using assms(2) c' freed_only_refl by auto
  qed
qed

lemma gc_allocations_pool:
  assumes "bolt_ok (boltdb env) dc tc" "pool dc (mtn w) = Some m" "gc_allocations env box allocs w = (r, w')"
  shows "\<exists>m'. pool dc (mtn w') = Some m' \<and>
    freed_only {(aNetId a, aId a) | a. a \<in> set allocs \<and> aBox a = box} m m'"
  using assms(2,3)
proof (induction allocs arbitrary: w m)
  case Nil
  then show ?case by (auto simp: gc_allocations_def rd_return_def freed_only_refl)
next
  case (Cons a as)
  let ?K = "{(aNetId a', aId a') | a'. a' \<in> set (a # as) \<and> aBox a' = box}"
  obtain q w1 where q: "(if aBox a = box then logged (on_mtn (UnuseAlloc (boltdb env) (aNetId a) (aId a))) else rd_return ()) w = (q, w1)"
    by force
  have "\<exists>m1. pool dc (mtn w1) = Some m1 \<and> freed_only ?K m m1"
  proof (cases "aBox a = box")
    case True
    obtain u c where u: "UnuseAlloc (boltdb env) (aNetId a) (aId a) (mtn w) = (u, c)" by force
    have "mtn w1 = c" using q True u
      by (auto simp: logged_def attempt_def rd_bind_def rd_return_def on_mtn_def split: sum.splits if_splits)
    then show ?thesis using UnuseAlloc_pool [OF assms(1) Cons.prems(1) u] True by (auto elim!: freed_only_mono)
  next
    case False
    then show ?thesis using q Cons.prems(1) by (auto simp: rd_return_def freed_only_refl)
  qed
  then obtain m1 where m1: "pool dc (mtn w1) = Some m1" "freed_only ?K m m1" by blast
  show ?case
  proof (cases q)
    case (Inl e)
    then show ?thesis using Cons.prems(2) q m1 by (auto simp: gc_allocations_def rd_bind_def)
  next
    case (Inr x)
    then have "gc_allocations env box as w1 = (r, w')"
      using Cons.prems(2) q by (simp add: gc_allocations_def rd_bind_def)
    from Cons.IH [OF m1(1) this] obtain m' where m': "pool dc (mtn w') = Some m'"
      "freed_only {(aNetId a, aId a) | a. a \<in> set as \<and> aBox a = box} m1 m'" by blast
    have "freed_only ?K m1 m'" using m'(2) by (rule freed_only_mono) auto
    then show ?thesis using m1(2) m'(1) freed_only_trans by blast
  qed
qed

text \<open>
  The containers that run while garbage is collected, with their addresses: as long as porto answers, it
  lists them, says that they run and tells their address.  \<open>unanswered\<close> says that porto failed to answer
  one of the questions by which a container is found.
\<close>

definition shows_running :: "('db, 'tx) penv \<Rightarrow> pevent history \<Rightarrow> (string \<rightharpoonup> string) \<Rightarrow> bool" where
  "shows_running env h0 running \<longleftrightarrow> (\<forall>es name ip. running name = Some ip \<longrightarrow>
     (\<forall>names. lists env (h0 @ es) PList = Inr names \<longrightarrow> name \<in> set names) \<and>
     (\<forall>v. texts env (h0 @ es) (PGetProperty name ''state'') = Inr v \<longrightarrow> v = ''running'' \<or> v = ''starting'') \<and>
     (\<forall>v. texts env (h0 @ es) (PGetProperty name ''ip'') = Inr v \<longrightarrow> v = ip))"

lemma shows_runningD:
  assumes "shows_running env h0 running" "running name = Some ip"
  shows "lists env (h0 @ es) PList = Inr names \<Longrightarrow> name \<in> set names"
    "texts env (h0 @ es) (PGetProperty name ''state'') = Inr v \<Longrightarrow> v = ''running'' \<or> v = ''starting''"
    "texts env (h0 @ es) (PGetProperty name ''ip'') = Inr v \<Longrightarrow> v = ip"
  using assms unfolding shows_running_def by blast+

lemma shows_running_later: "shows_running env h0 running \<Longrightarrow> shows_running env (h0 @ es) running"
  unfolding shows_running_def by (metis append_assoc)

definition unanswered :: "string \<Rightarrow> pevent history \<Rightarrow> bool" where
  "unanswered name es \<longleftrightarrow> (PList, False) \<in> set es \<or> (PGetProperty name ''state'', False) \<in> set es \<or>
     (PGetProperty name ''ip'', False) \<in> set es"

lemma unanswered_append [simp]: "unanswered name (es @ fs) \<longleftrightarrow> unanswered name es \<or> unanswered name fs"
  by (auto simp: unanswered_def)

lemma property_or_empty_run:
  "property_or_empty env name p w = (Inr (case texts env (hist w) (PGetProperty name p) of Inl _ \<Rightarrow> '''' | Inr v \<Rightarrow> v),
     w\<lparr>hist := hist w @ [(PGetProperty name p, \<not> isl (texts env (hist w) (PGetProperty name p)))]\<rparr>)"
  by (simp add: property_or_empty_def rd_bind_def attempt_call rd_return_def split: sum.splits)

lemma gc_container_run:
  assumes v: "property_or_empty env name ''state'' w = (Inr v, w')" and u: "property_or_empty env name ''ip'' w' = (Inr u, w'')"
  shows "gc_container env cfg name ips w =
    (if v = ''dead'' \<or> v = ''stopped'' \<and> name \<noteq> bcMetaName cfg
     then (Inr ips, w'\<lparr>hist := hist w' @ [(PDestroy name, \<not> isl (acks env (hist w') (PDestroy name)))]\<rparr>)
     else if v = ''running'' \<or> v = ''starting'' then (Inr (if 2 < length u then ips @ [u] else ips), w'')
     else (Inr ips, w'))"
proof -
  have go: "gc_container env cfg name ips w = (if v = ''dead'' then
       rd_bind (logged (ack env (PDestroy name))) (\<lambda>_. rd_return ips)
     else if v = ''stopped'' then
       if name \<noteq> bcMetaName cfg then rd_bind (logged (ack env (PDestroy name))) (\<lambda>_. rd_return ips)
       else rd_return ips
     else if v = ''meta'' then rd_return ips
     else if v = ''running'' \<or> v = ''starting'' then
       rd_bind (property_or_empty env name ''ip'') (\<lambda>containerIp.
       rd_return (if length containerIp > 2 then ips @ [containerIp] else ips))
     else rd_return ips) w'"
    unfolding gc_container_def rd_bind_def [of "property_or_empty env name ''state''"] v by simp
  have d: "rd_bind (logged (ack env (PDestroy name))) (\<lambda>_. rd_return ips) w' =
      (Inr ips, w'\<lparr>hist := hist w' @ [(PDestroy name, \<not> isl (acks env (hist w') (PDestroy name)))]\<rparr>)"
    by (simp add: rd_bind_def ack_def logged_call rd_return_def)
  have i: "rd_bind (property_or_empty env name ''ip'') (\<lambda>containerIp.
       rd_return (if length containerIp > 2 then ips @ [containerIp] else ips)) w' =
      (Inr (if 2 < length u then ips @ [u] else ips), w'')"
    by (simp add: rd_bind_def u rd_return_def)
  have apart: "(if v = ''dead'' then x else if v = ''stopped'' then if c then x else y else if v = ''meta'' then y
      else if v = ''running'' \<or> v = ''starting'' then z else y) w' =
      (if v = ''dead'' \<or> v = ''stopped'' \<and> c then x w' else if v = ''running'' \<or> v = ''starting'' then z w' else y w')"
    for c and x y z :: "(gerr, 'a pworld, string list) rd"
    by auto
  show ?thesis unfolding go apart d i by (simp only: rd_return_def)
qed

lemma gc_container_ips:
  assumes "gc_container env cfg name ips w = (r, w')" "shows_running env (hist w) running"
  shows "\<exists>ips' es. r = Inr ips' \<and> hist w' = hist w @ es \<and> set ips \<subseteq> set ips' \<and>
    (\<forall>ip. running name = Some ip \<longrightarrow> 2 < length ip \<longrightarrow> ip \<in> set ips' \<or> unanswered name es)"
proof -
  let ?st = "texts env (hist w) (PGetProperty name ''state'')"
  let ?s = "(PGetProperty name ''state'', \<not> isl ?st)"
  let ?ip = "texts env (hist w @ [?s]) (PGetProperty name ''ip'')"
  let ?i = "(PGetProperty name ''ip'', \<not> isl ?ip)"
  let ?d = "(PDestroy name, \<not> isl (acks env (hist w @ [?s]) (PDestroy name)))"
  define st where "st = (case ?st of Inl _ \<Rightarrow> '''' | Inr v \<Rightarrow> v)"
  define v where "v = (case ?ip of Inl _ \<Rightarrow> '''' | Inr v \<Rightarrow> v)"
  obtain w1 where s: "property_or_empty env name ''state'' w = (Inr st, w1)" "hist w1 = hist w @ [?s]"
    using property_or_empty_run [of env name "''state''" w] by (simp add: st_def)
  obtain w2 where i: "property_or_empty env name ''ip'' w1 = (Inr v, w2)" "hist w2 = hist w @ [?s, ?i]"
    using property_or_empty_run [of env name "''ip''" w1] s(2) by (simp add: v_def)
  define destroys where "destroys \<longleftrightarrow> st = ''dead'' \<or> st = ''stopped'' \<and> name \<noteq> bcMetaName cfg"
  define runs where "runs \<longleftrightarrow> st = ''running'' \<or> st = ''starting''"
  have "(r, w') = (if destroys then (Inr ips, w1\<lparr>hist := hist w1 @ [?d]\<rparr>)
      else if runs then (Inr (if 2 < length v then ips @ [v] else ips), w2) else (Inr ips, w1))"
    using assms(1) unfolding gc_container_run [OF s(1) i(1)] destroys_def runs_def s(2) by (rule sym)
  then consider (idle) es where "\<not> runs \<or> destroys" "r = Inr ips" "hist w' = hist w @ ?s # es"
    | (ip) "r = Inr (if 2 < length v then ips @ [v] else ips)" "hist w' = hist w @ [?s, ?i]"
    using s(2) i(2) by (simp split: if_split_asm)
  then show ?thesis
  proof cases
    case idle
    have "isl ?st" if "running name = Some ip" for ip
    proof (rule ccontr)
      assume "\<not> isl ?st"
      then obtain x where "?st = Inr x" by (cases ?st) simp_all
      with shows_runningD(2) [OF assms(2) that, of "[]"] have "runs" "\<not> destroys" by (auto simp: st_def runs_def destroys_def)
      with idle(1) show False by blast
    qed
    then show ?thesis using idle(2,3) by (intro exI [of _ ips] exI [of _ "?s # es"]) (auto simp: unanswered_def)
  next
    case ip
    have "v = a \<or> isl ?ip" if "running name = Some a" for a
      using shows_runningD(3) [OF assms(2) that, of "[?s]"] by (cases ?ip) (simp_all add: v_def)
    then show ?thesis using ip
      by (intro exI [of _ "if 2 < length v then ips @ [v] else ips"] exI [of _ "[?s, ?i]"]) (auto simp: unanswered_def)
  qed
qed

lemma gc_containers_ips:
  assumes "gc_containers env cfg names ips w = (r, w')" "shows_running env (hist w) running"
  shows "\<exists>ips' es. r = Inr ips' \<and> hist w' = hist w @ es \<and> set ips \<subseteq> set ips' \<and>
    (\<forall>name \<in> set names. \<forall>ip. running name = Some ip \<longrightarrow> 2 < length ip \<longrightarrow> ip \<in> set ips' \<or> unanswered name es)"
  using assms
proof (induction names arbitrary: ips w)
  case Nil
  then show ?case by (auto simp: rd_return_def)
next
  case (Cons name names)
  obtain q w1 where q: "gc_container env cfg name ips w = (q, w1)" by force
  from gc_container_ips [OF q Cons.prems(2)] obtain ips1 es where one: "q = Inr ips1" "hist w1 = hist w @ es"
    "set ips \<subseteq> set ips1" "\<forall>ip. running name = Some ip \<longrightarrow> 2 < length ip \<longrightarrow> ip \<in> set ips1 \<or> unanswered name es" by blast
  have "gc_containers env cfg names ips1 w1 = (r, w')" using Cons.prems(1) q one(1) by (simp add: rd_bind_def)
  moreover have "shows_running env (hist w1) running" unfolding one(2) by (rule shows_running_later [OF Cons.prems(2)])
  ultimately obtain ips2 fs where two: "r = Inr ips2" "hist w' = hist w1 @ fs" "set ips1 \<subseteq> set ips2"
    "\<forall>name \<in> set names. \<forall>ip. running name = Some ip \<longrightarrow> 2 < length ip \<longrightarrow> ip \<in> set ips2 \<or> unanswered name fs"
    using Cons.IH by blast
  show ?case
    by (rule exI [of _ ips2], rule exI [of _ "es @ fs"]) (use one two in auto)
qed

text \<open>
  An allocation that may be given up: it is of this box and marked as used, and every container that
  runs with its address was hidden by an answer porto did not give.
\<close>

definition stale :: "(string \<rightharpoonup> string) \<Rightarrow> string \<Rightarrow> contents \<Rightarrow> pevent history \<Rightarrow> Allocation \<Rightarrow> bool" where
  "stale running box m es a \<longleftrightarrow> (\<exists>n b k. m n = Some b \<and> b k = Some (Json a)) \<and> aUsed a \<and> aBox a = box \<and>
     (\<forall>name. running name = Some (aIp a) \<longrightarrow> 2 < length (aIp a) \<longrightarrow> unanswered name es)"

lemma used_allocations_pool:
  assumes "bolt_ok (boltdb env) dc tc" "pool dc (mtn w) = Some m" "used_allocations env w = (r, w')"
  shows "pool dc (mtn w') = Some m" "hist w' = hist w"
    "r = Inr allocs \<Longrightarrow> set allocs \<subseteq> {a. (\<exists>n b k. m n = Some b \<and> b k = Some (Json a)) \<and> aUsed a}"
proof -
  obtain o' allocs' stat c where u: "UsedAllocations (boltdb env) (mtn w) = ((o', allocs', stat), c)"
    by (metis surj_pair)
  have w': "w' = w\<lparr>mtn := c\<rparr>" "r = (case o' of None \<Rightarrow> Inr allocs' | Some e \<Rightarrow> Inl (MtnErr e))"
    using assms(3) u by (auto simp: used_allocations_def on_mtn_def split: option.splits)
  show "hist w' = hist w" by (simp add: w')
  have off: "c = mtn w" "allocs' = []" if "\<not> Enable (Cfg (mtn w))"
    using u that by (auto simp: UsedAllocations_def Let_def)
  have on: "pool dc c = Some m \<and> set allocs' = {a. \<exists>n b k. m n = Some b \<and> b k = Some (Json a) \<and> aUsed a}"
    if "Enable (Cfg (mtn w))" "o' = None"
    using UsedAllocations_exact [OF assms(1) that(1) assms(2)] u that(2) by blast
  show "pool dc (mtn w') = Some m"
  proof (cases "Enable (Cfg (mtn w)) \<and> o' \<noteq> None")
    case True
    have "pool dc c = pool dc (mtn w)" using u True bolt_okD(11) [OF assms(1)]
      by (auto simp: UsedAllocations_def Let_def pool_def split: option.splits sum.splits prod.splits)
    then show ?thesis using assms(2) by (simp add: w')
  next
    case False
    then show ?thesis using off(1) on assms(2) by (cases "Enable (Cfg (mtn w))") (auto simp: w')
  qed
  assume "r = Inr allocs"
  then have "o' = None" "allocs = allocs'" using w'(2) by (auto split: option.splits)
  then show "set allocs \<subseteq> {a. (\<exists>n b k. m n = Some b \<and> b k = Some (Json a)) \<and> aUsed a}"
    using on off(2) by (cases "Enable (Cfg (mtn w))") auto
qed

lemma leaves_on_mtn: "leaves hist (on_mtn f)"
  by (auto simp: leaves_def on_mtn_def split: sum.splits prod.splits)

lemma gc_allocations_hist: "gc_allocations env box allocs w = (r, w') \<Longrightarrow> hist w' = hist w"
  by (rule leavesD [of hist "gc_allocations env box allocs"])
     (auto simp: gc_allocations_def intro!: leaves_rules leaves_on_mtn)

lemma gc_volumes_calls: "calls (\<lambda>e. True) (gc_volumes env cfg)"
  unfolding gc_volumes_def ack_def
  by (auto intro!: calls_rules)

lemma keeps_property_or_empty [keeps]: "keeps_pool (property_or_empty env name p)"
  unfolding property_or_empty_def by (intro keeps)

lemma keeps_gc_containers [keeps]: "keeps_pool (gc_containers env cfg names ips)"
proof (induction names arbitrary: ips)
  case (Cons name names)
  have "keeps_pool (gc_container env cfg name ips)" unfolding gc_container_def by (intro keeps)
  then show ?case unfolding gc_containers.simps using Cons by (rule keeps_bind)
qed (simp add: keeps)

lemma keeps_gc_volumes [keeps]: "keeps_pool (gc_volumes env cfg)"
  unfolding gc_volumes_def by (intro keeps)

text \<open>Collecting garbage frees only stale allocations.\<close>

lemma gc_pool:
  assumes "bolt_ok (boltdb env) dc tc" "pool dc (mtn w) = Some m" "gc env box cfg w = (r, w')"
    "shows_running env (hist w) running"
  shows "\<exists>m' es. pool dc (mtn w') = Some m' \<and> hist w' = hist w @ es \<and>
    freed_only {(aNetId a, aId a) | a. stale running box m es a} m m'"
proof -
  let ?l = "(PList, \<not> isl (lists env (hist w) PList))"
  define names where "names = (case lists env (hist w) PList of Inl _ \<Rightarrow> [] | Inr ns \<Rightarrow> ns)"
  define q0 where "q0 = map_sum Reported id (lists env (hist w) PList)"
  define w1 where "w1 = w\<lparr>hist := hist w @ [?l]\<rparr>"
  have l: "attempt (call (lists env) PList) w = (Inr q0, w1)" "mtn w1 = mtn w" "hist w1 = hist w @ [?l]"
    "(case q0 of Inl _ \<Rightarrow> [] | Inr ns \<Rightarrow> ns) = names"
    by (cases "lists env (hist w) PList"; simp add: attempt_call names_def q0_def w1_def)+
  obtain q w2 where u: "used_allocations env w1 = (q, w2)" by force
  have m1: "pool dc (mtn w1) = Some m" using l(2) assms(2) by simp
  note u' = used_allocations_pool [OF assms(1) m1 u]
  show ?thesis
  proof (cases q)
    case (Inl e)
    then have "w' = w2" using assms(3) l(1) u
      by (auto simp: gc_def rd_bind_def attempt_def [of "used_allocations env"] rd_return_def split: if_splits)
    then show ?thesis using u'(1,2) l(3) freed_only_refl by auto
  next
    case (Inr allocs)
    obtain q3 w3 where c: "gc_containers env cfg names [] w2 = (q3, w3)" by force
    have h2: "hist w2 = hist w @ [?l]" using u'(2) l(3) by simp
    have "shows_running env (hist w2) running" unfolding h2 by (rule shows_running_later [OF assms(4)])
    from gc_containers_ips [OF c this] obtain ips es where ips: "q3 = Inr ips" "hist w3 = hist w2 @ es"
      "\<forall>name \<in> set names. \<forall>ip. running name = Some ip \<longrightarrow> 2 < length ip \<longrightarrow> ip \<in> set ips \<or> unanswered name es" by blast
    obtain q4 w4 where al: "gc_allocations env box (gc_unused ips allocs) w3 = (q4, w4)" by force
    have m3: "pool dc (mtn w3) = Some m" using keeps_gc_containers c u'(1) unfolding keeps_pool_def by (metis fst_conv snd_conv)
    from gc_allocations_pool [OF assms(1) m3 al] obtain m' where m': "pool dc (mtn w4) = Some m'"
      "freed_only {(aNetId a, aId a) | a. a \<in> set (gc_unused ips allocs) \<and> aBox a = box} m m'" by blast
    have run: "gc env box cfg w = (case q4 of Inl e \<Rightarrow> (Inl e, w4)
        | Inr _ \<Rightarrow> rd_bind (gc_volumes env cfg) (\<lambda>_. rd_return True) w4)"
      using l(1,4) u Inr c ips(1) al
      by (simp add: gc_def rd_bind_def attempt_def [of "used_allocations env"] Let_def split: sum.splits)
    obtain fs where fs: "mtn w' = mtn w4" "hist w' = hist w4 @ fs"
    proof (cases q4)
      case (Inl e)
      then show thesis using that [of "[]"] run assms(3) by simp
    next
      case ok: (Inr x)
      obtain q5 w5 where v: "gc_volumes env cfg w4 = (q5, w5)" by force
      have "w' = w5" using run assms(3) ok v by (simp add: rd_bind_def rd_return_def split: sum.splits)
      then show thesis using that callsD [OF gc_volumes_calls v] v keeps_gc_volumes [of env cfg] unfolding keeps_pool_def
        by (metis snd_conv)
    qed
    let ?es = "?l # es @ fs"
    have h: "hist w' = hist w @ ?es" using fs(2) gc_allocations_hist [OF al] ips(2) h2 by simp
    have "stale running box m ?es a" if "a \<in> set (gc_unused ips allocs)" "aBox a = box" for a
    proof -
      have a: "aIp a \<notin> set ips" "a \<in> set allocs" using that(1) by (simp_all add: gc_unused_filter)
      have "unanswered name ?es" if n: "running name = Some (aIp a)" "2 < length (aIp a)" for name
      proof (cases "lists env (hist w) PList")
        case (Inl e)
        then show ?thesis by (simp add: unanswered_def)
      next
        case (Inr ns)
        then have "name \<in> set names" using shows_runningD(1) [OF assms(4) n(1), of "[]"] by (simp add: names_def)
        then have "unanswered name es" using ips(3) n a(1) by blast
        then show ?thesis by (auto simp: unanswered_def)
      qed
      then show ?thesis using u'(3) [OF Inr] a(2) that(2) unfolding stale_def by blast
    qed
    then have "{(aNetId a, aId a) | a. a \<in> set (gc_unused ips allocs) \<and> aBox a = box} \<subseteq>
        {(aNetId a, aId a) | a. stale running box m ?es a}" by blast
    from freed_only_mono [OF m'(2) this] show ?thesis using m'(1) fs(1) h by auto
  qed
qed

end
