(* ===== verification/Porto_Spool.thy ===== *)
theory Porto_Spool
  imports Porto_Box
begin

text \<open>
  Laws of spooling and of the journal file: the download helper imports only what it has verified and
  records the layers in order, and the journal on disk is replaced as a whole.
\<close>

section \<open>Verified layers\<close>

text \<open>
  The import at position \<open>i\<close> of a history follows the checksum of the same file, which is the digest
  of one of the layers.
\<close>

definition verified_import :: "('db, 'tx) penv \<Rightarrow> string \<Rightarrow> Layer list \<Rightarrow> pevent history \<Rightarrow> nat \<Rightarrow> bool" where
  "verified_import env dir ls h i \<longleftrightarrow> (\<exists>l \<in> set ls. \<exists>j.
     let p = Join [dir, Digest l] in
     i = Suc j \<and> fst (h ! i) = PImportLayer (porto_layer l) p \<and> h ! j = (Sha256 p, True) \<and>
     texts env (take j h) (Sha256 p) = Inr (Digest l))"

definition is_import :: "pevent \<times> bool \<Rightarrow> bool" where
  "is_import c = (case fst c of PImportLayer _ _ \<Rightarrow> True | _ \<Rightarrow> False)"

definition imports_verified :: "('db, 'tx) penv \<Rightarrow> string \<Rightarrow> Layer list \<Rightarrow> pevent history \<Rightarrow> pevent history \<Rightarrow> bool" where
  "imports_verified env dir ls h h' \<longleftrightarrow> (\<forall>i < length h'. length h \<le> i \<longrightarrow> is_import (h' ! i) \<longrightarrow> verified_import env dir ls h' i)"

lemma verified_import_append:
  assumes "i < length h"
  shows "verified_import env dir ls (h @ fs) i \<longleftrightarrow> verified_import env dir ls h i"
proof -
  have "(h @ fs) ! i = h ! i" using assms by (simp add: nth_append)
  moreover have "(h @ fs) ! j = h ! j \<and> take j (h @ fs) = take j h" if "i = Suc j" for j
    using assms that by (simp add: nth_append)
  ultimately show ?thesis unfolding verified_import_def Let_def by metis
qed

lemma verified_import_mono: "verified_import env dir ls h i \<Longrightarrow> set ls \<subseteq> set ls' \<Longrightarrow> verified_import env dir ls' h i"
  unfolding verified_import_def by blast

lemma imports_verified_append:
  assumes "imports_verified env dir ls h (h @ es)" "imports_verified env dir ls' (h @ es) (h @ es @ fs)"
    "set ls \<subseteq> set L" "set ls' \<subseteq> set L"
  shows "imports_verified env dir L h (h @ es @ fs)"
  unfolding imports_verified_def
proof (intro allI impI)
  fix i assume i: "i < length (h @ es @ fs)" "length h \<le> i" "is_import ((h @ es @ fs) ! i)"
  show "verified_import env dir L (h @ es @ fs) i"
  proof (cases "i < length (h @ es)")
    case True
    then have "(h @ es @ fs) ! i = (h @ es) ! i" using nth_append [of "h @ es" fs i] by simp
    then have "verified_import env dir ls (h @ es) i" using assms(1) i True by (simp add: imports_verified_def)
    then have "verified_import env dir ls ((h @ es) @ fs) i" using verified_import_append [OF True] by blast
    then show ?thesis using assms(3) verified_import_mono by (metis append_assoc)
  next
    case False
    then have "verified_import env dir ls' (h @ es @ fs) i" using assms(2) i by (simp add: imports_verified_def)
    then show ?thesis using assms(4) verified_import_mono by blast
  qed
qed

lemma imports_verified_quiet: "\<not> list_ex is_import es \<Longrightarrow> imports_verified env dir ls h (h @ es)"
  unfolding imports_verified_def list_ex_iff by (auto simp: nth_append)

text \<open>One layer: how the loop of the helper runs, and what it adds to the history.\<close>

definition helper_run :: "portoBoxConfig \<Rightarrow> Layer \<Rightarrow> pevent" where
  "helper_run cfg l = RunHelper [bcDownloadHelperCmd cfg, ''get'', ''-d'', bcLayers cfg, ''-t'',
     show_nat (unat (helper_timeout l)), TorrentId l]"

lemma import_layer_run:
  "\<exists>r. import_layer env name path w =
     (r, w\<lparr>hist := hist w @ [(PImportLayer name path, \<not> isl (acks env (hist w) (PImportLayer name path)))]\<rparr>)"
  by (simp add: import_layer_def rd_bind_def ack_def attempt_call rd_return_def rd_fail_def split: sum.splits)

lemma helper_layers_run:
  fixes w :: "'db pworld"
  assumes p: "p = Join [bcLayers cfg, Digest l]"
  shows "\<exists>e1 e2 e3 e4. helper_layers env cfg (l # ls) layers w =
    (case acks env (hist w) (helper_run cfg l) of
       Inl _ \<Rightarrow> (Inl e1, w\<lparr>hist := hist w @ [(helper_run cfg l, False)]\<rparr>)
     | Inr _ \<Rightarrow> (case acks env (hist w @ [(helper_run cfg l, True)]) (OsOpen p) of
         Inl _ \<Rightarrow> (Inl e2, w\<lparr>hist := hist w @ [(helper_run cfg l, True), (OsOpen p, False)]\<rparr>)
       | Inr _ \<Rightarrow> (case texts env (hist w @ [(helper_run cfg l, True), (OsOpen p, True)]) (Sha256 p) of
           Inl _ \<Rightarrow> (Inl e3, w\<lparr>hist := hist w @ [(helper_run cfg l, True), (OsOpen p, True), (Sha256 p, False)]\<rparr>)
         | Inr d \<Rightarrow> if d \<noteq> Digest l
             then (Inl e4, w\<lparr>hist := hist w @ [(helper_run cfg l, True), (OsOpen p, True), (Sha256 p, True)]\<rparr>)
             else rd_bind (import_layer env (porto_layer l) p) (\<lambda>_. helper_layers env cfg ls (layers @ [porto_layer l]))
               (w\<lparr>hist := hist w @ [(helper_run cfg l, True), (OsOpen p, True), (Sha256 p, True)]\<rparr>))))"
proof (cases "acks env (hist w) (helper_run cfg l)")
  case (Inl e)
  then show ?thesis by (simp add: p helper_run_def Let_def rd_bind_def ack_def call_def)
next
  case a: (Inr u)
  show ?thesis
  proof (cases "acks env (hist w @ [(helper_run cfg l, True)]) (OsOpen p)")
    case (Inl e)
    with a show ?thesis
      by (simp add: p helper_run_def Let_def rd_bind_def ack_def call_def attempt_call rd_fail_def)
  next
    case b: (Inr u)
    show ?thesis
    proof (cases "texts env (hist w @ [(helper_run cfg l, True), (OsOpen p, True)]) (Sha256 p)")
      case (Inl e)
      with a b show ?thesis
        by (simp add: p helper_run_def Let_def rd_bind_def ack_def call_def attempt_call rd_fail_def)
    next
      case (Inr d)
      with a b show ?thesis
        by (cases "d = Digest l")
           (simp_all add: p helper_run_def Let_def rd_bind_def ack_def call_def attempt_call rd_fail_def)
    qed
  qed
qed

lemma helper_run_import [simp]: "\<not> is_import (helper_run cfg l, ok)" "\<not> is_import (OsOpen p, ok)" "\<not> is_import (Sha256 p, ok)"
  by (simp_all add: is_import_def helper_run_def)

text \<open>A stretch of history that verifies one layer and imports it.\<close>

lemma imports_verified_one:
  assumes "\<not> list_ex is_import es" "texts env (h @ es) (Sha256 (Join [dir, Digest l])) = Inr (Digest l)"
  shows "imports_verified env dir [l] h
    (h @ es @ [(Sha256 (Join [dir, Digest l]), True), (PImportLayer (porto_layer l) (Join [dir, Digest l]), ok)])"
    (is "imports_verified _ _ _ _ (h @ es @ [?s, ?i])")
  unfolding imports_verified_def
proof (intro allI impI)
  fix i assume i: "i < length (h @ es @ [?s, ?i])" "length h \<le> i" "is_import ((h @ es @ [?s, ?i]) ! i)"
  have "i = Suc (length (h @ es))"
  proof (rule ccontr)
    assume ne: "i \<noteq> Suc (length (h @ es))"
    then have lt: "i < length (h @ es @ [?s])" using i(1) by simp
    then have "(h @ es @ [?s, ?i]) ! i = (h @ es @ [?s]) ! i" using nth_append [of "h @ es @ [?s]" "[?i]" i] by simp
    also have "\<dots> = (es @ [?s]) ! (i - length h)" using i(2) by (simp add: nth_append)
    also have "\<dots> \<in> set (es @ [?s])" using lt i(2) by (intro nth_mem) simp
    finally show False using assms(1) i(3) by (auto simp: list_ex_iff)
  qed
  then show "verified_import env dir [l] (h @ es @ [?s, ?i]) i"
    unfolding verified_import_def Let_def
    using assms(2) nth_append [of "h @ es" "[?s, ?i]"] by simp
qed

lemma helper_layers_verified:
  assumes "helper_layers env cfg ls layers w = (r, w')"
  shows "\<exists>es. hist w' = hist w @ es \<and> imports_verified env (bcLayers cfg) ls (hist w) (hist w @ es) \<and>
    (\<forall>x. r = Inr x \<longrightarrow> x = layers @ map porto_layer ls)"
  using assms
proof (induction ls arbitrary: layers w)
  case Nil
  then show ?case using imports_verified_quiet [of "[]"] by (auto simp: rd_return_def)
next
  case (Cons l ls)
  define p where "p = Join [bcLayers cfg, Digest l]"
  define a b where "a = (helper_run cfg l, True)" and "b = (OsOpen p, True)"
  define w1 where "w1 = w\<lparr>hist := hist w @ [a, b, (Sha256 p, True)]\<rparr>"
  consider (stopped) e es where "r = Inl e" "hist w' = hist w @ es" "\<not> list_ex is_import es"
    | (checked) "texts env (hist w @ [a, b]) (Sha256 p) = Inr (Digest l)"
        "rd_bind (import_layer env (porto_layer l) p) (\<lambda>_. helper_layers env cfg ls (layers @ [porto_layer l])) w1 = (r, w')"
  proof -
    have stop: thesis if "r = Inl e" "hist w' = hist w @ es" "\<not> list_ex is_import es" for e es
      using stopped [OF that] .
    obtain e1 e2 e3 e4 where run: "(r, w') = (case acks env (hist w) (helper_run cfg l) of
         Inl _ \<Rightarrow> (Inl e1, w\<lparr>hist := hist w @ [(helper_run cfg l, False)]\<rparr>)
       | Inr _ \<Rightarrow> (case acks env (hist w @ [a]) (OsOpen p) of
           Inl _ \<Rightarrow> (Inl e2, w\<lparr>hist := hist w @ [a, (OsOpen p, False)]\<rparr>)
         | Inr _ \<Rightarrow> (case texts env (hist w @ [a, b]) (Sha256 p) of
             Inl _ \<Rightarrow> (Inl e3, w\<lparr>hist := hist w @ [a, b, (Sha256 p, False)]\<rparr>)
           | Inr d \<Rightarrow> if d \<noteq> Digest l then (Inl e4, w1)
               else rd_bind (import_layer env (porto_layer l) p) (\<lambda>_. helper_layers env cfg ls (layers @ [porto_layer l])) w1)))"
      using helper_layers_run [OF p_def, of env ls layers w] Cons.prems unfolding a_def b_def w1_def by metis
    show thesis
    proof (cases "acks env (hist w) (helper_run cfg l)")
      case (Inl x)
      then show thesis using run by (intro stop [of e1 "[(helper_run cfg l, False)]"]) simp_all
    next
      case A: (Inr x)
      show thesis
      proof (cases "acks env (hist w @ [a]) (OsOpen p)")
        case (Inl y)
        then show thesis using run A by (intro stop [of e2 "[a, (OsOpen p, False)]"]) (simp_all add: a_def)
      next
        case B: (Inr y)
        show thesis
        proof (cases "texts env (hist w @ [a, b]) (Sha256 p)")
          case (Inl z)
          then show thesis using run A B by (intro stop [of e3 "[a, b, (Sha256 p, False)]"]) (simp_all add: a_def b_def)
        next
          case D: (Inr d)
          show thesis
          proof (cases "d = Digest l")
            case True
            then show thesis using run A B D by (intro checked) simp_all
          next
            case False
            then show thesis using run A B D by (intro stop [of e4 "[a, b, (Sha256 p, True)]"]) (simp_all add: a_def b_def w1_def)
          qed
        qed
      qed
    qed
  qed
  then show ?case
  proof cases
    case stopped
    then show ?thesis using imports_verified_quiet by (metis Inl_Inr_False)
  next
    case checked
    obtain q ok where i: "import_layer env (porto_layer l) p w1 =
        (q, w1\<lparr>hist := hist w1 @ [(PImportLayer (porto_layer l) p, ok)]\<rparr>)"
      using import_layer_run by metis
    define w2 where "w2 = w1\<lparr>hist := hist w1 @ [(PImportLayer (porto_layer l) p, ok)]\<rparr>"
    define es where "es = [a, b] @ [(Sha256 p, True), (PImportLayer (porto_layer l) p, ok)]"
    have h2: "hist w2 = hist w @ es" by (simp add: w2_def w1_def es_def)
    have one: "imports_verified env (bcLayers cfg) [l] (hist w) (hist w @ es)"
      unfolding es_def p_def by (rule imports_verified_one) (use checked(1) in \<open>simp_all add: a_def b_def p_def\<close>)
    show ?thesis
    proof (cases q)
      case (Inl e)
      then have "r = Inl e" "w' = w2" using checked(2) i by (simp_all add: rd_bind_def w2_def)
      then show ?thesis
        using h2 imports_verified_append [OF one, of "[]" "[]" "l # ls"] imports_verified_quiet [of "[]"] by auto
    next
      case (Inr x)
      then have "helper_layers env cfg ls (layers @ [porto_layer l]) w2 = (r, w')"
        using checked(2) i by (simp add: rd_bind_def w2_def)
      from Cons.IH [OF this] obtain fs where fs: "hist w' = hist w2 @ fs"
        "imports_verified env (bcLayers cfg) ls (hist w2) (hist w2 @ fs)"
        "\<forall>x. r = Inr x \<longrightarrow> x = (layers @ [porto_layer l]) @ map porto_layer ls" by blast
      have "imports_verified env (bcLayers cfg) (l # ls) (hist w) (hist w @ es @ fs)"
        using imports_verified_append [OF one, of ls fs "l # ls"] fs(2) h2 by auto
      then show ?thesis using fs(1,3) h2 by auto
    qed
  qed
qed

text \<open>What the helper leaves in the journal when it succeeds.\<close>

lemma helper_spools:
  assumes "getLayersViaDownloadHelper env name profile b = (r, b')"
  shows "\<exists>es. hist (pw b') = hist (pw b) @ es \<and>
      imports_verified env (bcLayers (bconfig b)) (elems (Layers (ExtInfo profile))) (hist (pw b)) (hist (pw b')) \<and>
      (r = Inr () \<longrightarrow> bjournal b' =
        InsertManifestLayers name (join '';'' (map porto_layer (elems (Layers (ExtInfo profile))))) (bjournal b)) \<and>
      (r \<noteq> Inr () \<longrightarrow> bjournal b' = bjournal b)"
proof -
  let ?ls = "elems (Layers (ExtInfo profile))"
  obtain q w1 where c: "portoConnect env (pw b) = (q, w1)" by force
  obtain es where es: "hist w1 = hist (pw b) @ es" "\<not> list_ex is_import es" "\<forall>x. q = Inr x \<longrightarrow> True"
    using c by (auto simp: portoConnect_def is_import_def split: option.splits)
  show ?thesis
  proof (cases q)
    case (Inl e)
    then have "r = Inl e" "b' = b\<lparr>pw := w1\<rparr>" using assms c
      by (simp_all add: getLayersViaDownloadHelper_def rd_bind_def on_world_def)
    then show ?thesis using es imports_verified_quiet [OF es(2)] by auto
  next
    case (Inr u)
    obtain q2 w2 where h: "helper_layers env (bconfig b) ?ls [] w1 = (q2, w2)" by force
    from helper_layers_verified [OF h] obtain fs where fs: "hist w2 = hist w1 @ fs"
      "imports_verified env (bcLayers (bconfig b)) ?ls (hist w1) (hist w1 @ fs)" "\<forall>x. q2 = Inr x \<longrightarrow> x = map porto_layer ?ls"
      by auto
    have both: "imports_verified env (bcLayers (bconfig b)) ?ls (hist (pw b)) (hist (pw b) @ es @ fs)"
      by (rule imports_verified_append [OF imports_verified_quiet [OF es(2)] _ subset_refl subset_refl])
         (use fs(2) es(1) in simp)
    have "(r, b') = (case q2 of Inl e \<Rightarrow> (Inl e, b\<lparr>pw := w2\<rparr>)
        | Inr layers \<Rightarrow> (Inr (), b\<lparr>pw := w2, bjournal := InsertManifestLayers name (join '';'' layers) (bjournal b)\<rparr>))"
      using assms c h Inr
      by (simp add: getLayersViaDownloadHelper_def rd_bind_def on_world_def gets_def modify_def split: sum.splits)
    then show ?thesis using both es(1) fs by (auto split: sum.splits)
  qed
qed

section \<open>The journal file\<close>

text \<open>
  What the files hold after a history that began with the files \<open>m0\<close>, by the calls that succeeded: a failed write may leave
  anything in its file, a rename moves the file, a removal drops it.
\<close>

fun file_step :: "pevent \<times> bool \<Rightarrow> (string \<rightharpoonup> string) \<Rightarrow> string \<rightharpoonup> string" where
  "file_step (JournalWrite f d, ok) m = (if ok then m(f \<mapsto> d) else m(f := None))"
| "file_step (OsRename f g, ok) m = (if ok then (m(f := None))(g := m f) else m)"
| "file_step (OsRemove f, ok) m = (if ok then m(f := None) else m)"
| "file_step (_, ok) m = m"

definition files :: "(string \<rightharpoonup> string) \<Rightarrow> pevent history \<Rightarrow> string \<rightharpoonup> string" where
  "files m0 h = fold file_step h m0"

lemma files_append [simp]: "files m0 (h @ es) = fold file_step es (files m0 h)"
  by (simp add: files_def)

text \<open>The file system: reading a journal gives what the file holds, and a temporary file is not the journal.\<close>

definition journal_files_ok :: "('db, 'tx) penv \<Rightarrow> (string \<rightharpoonup> string) \<Rightarrow> string \<Rightarrow> bool" where
  "journal_files_ok env m0 path \<longleftrightarrow>
     (\<forall>h d. docs env h (JournalRead path) = Inr d \<longrightarrow> files m0 h path = Some d) \<and>
     (\<forall>h. texts env h (OsTempFile (Dir path)) \<noteq> Inr path)"

text \<open>
  At every point of a dump the journal file holds what it held before or the whole of the journal,
  and after a successful dump the journal.
\<close>

lemma dumpJournal_atomic:
  assumes ok: "journal_files_ok env m0 (bcJournal (bconfig b))" and run: "dumpJournal env b = (r, b')"
  shows "\<exists>es. hist (pw b') = hist (pw b) @ es \<and>
    (\<forall>n. files m0 (hist (pw b) @ take n es) (bcJournal (bconfig b)) \<in>
      {files m0 (hist (pw b)) (bcJournal (bconfig b)), Some (Dump (str_range env) (bjournal b))}) \<and>
    (r = Inr () \<longrightarrow> files m0 (hist (pw b')) (bcJournal (bconfig b)) = Some (Dump (str_range env) (bjournal b)))"
proof -
  let ?p = "bcJournal (bconfig b)" and ?d = "Dump (str_range env) (bjournal b)" and ?h = "hist (pw b)"
  show ?thesis
  proof (cases "texts env ?h (OsTempFile (Dir ?p))")
    case (Inl e)
    then have "r = Inl (Reported e)" "hist (pw b') = ?h @ [(OsTempFile (Dir ?p), False)]"
      using run by (auto simp: dumpJournal_def rd_bind_def gets_def on_world_def call_def)
    moreover have "files m0 (?h @ take n [(OsTempFile (Dir ?p), False)]) ?p = files m0 ?h ?p" for n
      by (cases n) simp_all
    ultimately show ?thesis by auto
  next
    case (Inr t)
    then have t: "t \<noteq> ?p" using ok by (auto simp: journal_files_ok_def)
    define a where "a = (OsTempFile (Dir ?p), True)"
    have enter: "(r, b') = (case rd_bind (attempt (rd_bind (ack env (JournalWrite t ?d)) (\<lambda>_. ack env (OsRename t ?p)))) (\<lambda>q.
        rd_bind (logged (ack env (OsRemove t))) (\<lambda>_. case q of Inl e \<Rightarrow> rd_fail e | Inr _ \<Rightarrow> rd_return ()))
        (pw b\<lparr>hist := ?h @ [a]\<rparr>) of (q, w) \<Rightarrow> (q, b\<lparr>pw := w\<rparr>))"
      using run Inr by (simp add: dumpJournal_def rd_bind_def [of "gets _"] gets_def on_world_def
        rd_bind_def [of "call _ (OsTempFile _)"] call_def a_def)
    show ?thesis
    proof (cases "acks env (?h @ [a]) (JournalWrite t ?d)")
      case (Inl e)
      then have r: "r = Inl (Reported e)" "\<exists>k. hist (pw b') = ?h @ [a, (JournalWrite t ?d, False), (OsRemove t, k)]"
        using enter by (simp_all add: rd_bind_def attempt_def ack_def call_def [of _ "JournalWrite _ _"] logged_call rd_fail_def)
      have "files m0 (?h @ take n [a, (JournalWrite t ?d, False), (OsRemove t, k)]) ?p = files m0 ?h ?p" for n k
        using t by (simp add: take_Cons' a_def)
      then show ?thesis using r by auto
    next
      case w: (Inr u)
      define k where "k = (\<not> isl (acks env (?h @ [a, (JournalWrite t ?d, True)]) (OsRename t ?p)))"
      have r: "\<exists>j. hist (pw b') = ?h @ [a, (JournalWrite t ?d, True), (OsRename t ?p, k), (OsRemove t, j)]" "r = Inr () \<Longrightarrow> k"
        using enter w by (simp_all add: rd_bind_def attempt_def ack_def call_def [of _ "JournalWrite _ _"]
          call_def [of _ "OsRename _ _"] logged_call rd_fail_def rd_return_def k_def split: sum.splits)
      have "files m0 (?h @ take n [a, (JournalWrite t ?d, True), (OsRename t ?p, k), (OsRemove t, j)]) ?p \<in> {files m0 ?h ?p, Some ?d}" for n j
        using t by (simp add: take_Cons' a_def)
      moreover have "k \<Longrightarrow> files m0 (?h @ [a, (JournalWrite t ?d, True), (OsRename t ?p, k), (OsRemove t, j)]) ?p = Some ?d" for j
        using t by (simp add: a_def)
      ultimately show ?thesis using r by auto
    qed
  qed
qed

text \<open>A box started after a successful dump, with nothing written since, reads the journal back.\<close>

lemma loadJournal_back:
  assumes ok: "journal_files_ok env m0 path" and stored: "files m0 (hist (pw b)) path = Some (Dump ord j)"
    and b: "bcJournal (bconfig b) = path" "bjournal b = newJournal uuid" and run: "loadJournal env b = (r, b')"
    and opens: "acks env (hist (pw b)) (OsOpen path) = Inr ()"
    and j: "ranges ord (LayersMap j)" "ranges ord (Manifests j)" "journal_valid j"
  shows "r = Inr () \<and> bjournal b' = j \<or> (\<exists>e. docs env (hist (pw b) @ [(OsOpen path, True)]) (JournalRead path) = Inl e \<and> r = Inl (Reported e))"
proof -
  let ?h = "hist (pw b) @ [(OsOpen path, True)]"
  show ?thesis
  proof (cases "docs env ?h (JournalRead path)")
    case (Inl e)
    then have "r = Inl (Reported e)" using run opens b
      by (simp add: loadJournal_def rd_bind_def gets_def on_world_def attempt_call ack_def call_def)
    then show ?thesis using Inl by blast
  next
    case (Inr d)
    have "files m0 ?h path = Some d" using ok Inr unfolding journal_files_ok_def by blast
    then have "Load d (bjournal b) = (None, j)" using stored Load_Dump [OF j] b(2) by simp
    then show ?thesis using run opens b Inr
      by (auto simp: loadJournal_def rd_bind_def gets_def on_world_def attempt_call ack_def call_def modify_def rd_return_def)
  qed
qed

end
