(* ===== verification/Porto_Props.thy ===== *)
theory Porto_Props
  imports Porto_Box_Laws Porto_Spool Mtn_Props Codec_Props
begin

text \<open>
  The properties of the porto box: what a spawn and a kill leave at porto, the life of a network allocation,
  the sharing of downloads, garbage collection, verified layers and the journal.
\<close>

section \<open>A concrete porto\<close>

text \<open>A porto that does everything it is asked, over the sample pool; addresses and checksums are fixed.\<close>

definition sample_penv :: "(mem, mem) penv" where
  "sample_penv = \<lparr>acks = (\<lambda>h e. Inr ()), texts = (\<lambda>h e. case e of Sha256 p \<Rightarrow> Inr ''aa'' | OsTempFile d \<Rightarrow> Inr ''/j.tmp''
       | PGetProperty n p \<Rightarrow> Inr (if p = ''state'' then ''running'' else ''10.0.0.2'') | _ \<Rightarrow> Inr ''''),
     lists = (\<lambda>h e. Inr [''self'']), vols = (\<lambda>h e. Inr []), manifest_of = (\<lambda>h e. Inr OtherManifest),
     docs = (\<lambda>h e. case e of JournalRead p \<Rightarrow> (case files Map.empty h p of None \<Rightarrow> Inl (SysErr '''') | Some d \<Rightarrow> Inr d)
       | _ \<Rightarrow> Inl (SysErr '''')),
     datas = (\<lambda>h e. Inr Map.empty), rands = (\<lambda>h. 0), dials = (\<lambda>h n. Dialled), allocator = (\<lambda>h. two_responses),
     boltdb = mem_bolt, alloc_range = cd_order, str_range = (\<lambda>m. [])\<rparr>"

definition sample_pworld :: "mem pworld" where
  "sample_pworld = \<lparr>hist = [], mtn = sample_mtn\<rparr>"

definition sample_profile :: PortoProfile where
  "sample_profile = zero_PortoProfile\<lparr>PortoProfile.Network := [''mtn'' \<mapsto> ''enable'', ''netid'' \<mapsto> ''net''],
     ExtInfo := \<lparr>Layers = slice_of [\<lparr>Digest = ''aa'', DigestType = ''sha256'', Size = 1, TorrentId = ''t''\<rparr>]\<rparr>\<rparr>"

section \<open>The repository of blobs\<close>

text \<open>
  C6. The goroutines that share downloads implement the contract of the repository: every step of theirs
  is a step of the contract or invisible to it.  A request is answered when the one download of its blob
  ends, together with every other request for the blob and with the same result, or it is dropped by its caller.
\<close>

theorem repository_refines:
  assumes "repo_reachable r" "repo_step r r'"
  shows "requests r' = requests r \<or> spec_step (requests r) (requests r')"
  by (rule repo_refines [OF repo_reachable_ok [OF assms(1)] assms(2)])

definition two_ask :: blobRepo where
  "two_ask = register ''d'' (register ''d'' repo_empty)"

lemma two_ask_reachable: "repo_reachable two_ask"
  unfolding two_ask_def by (meson repo_reachable.intros repo_step.ask)

lemma two_ask_requests: "requests two_ask = [Pending ''d'', Pending ''d'']" "fetching two_ask = [''d'']"
  by (simp_all add: two_ask_def requests_def waiters_register repo_empty_def request_of_def fetching_register register_def)

theorem repository_refines_witness:
  "\<exists>r'. fetched ''d'' (Inr ''/l/d'') two_ask = Some r' \<and> requests r' \<noteq> requests two_ask \<and> spec_step (requests two_ask) (requests r')"
proof -
  obtain r' where f: "fetched ''d'' (Inr ''/l/d'') two_ask = Some r'"
    using fetched_Some [OF repo_reachable_ok [OF two_ask_reachable]] by blast
  have "repo_step two_ask r'" by (rule repo_step.finish [OF _ f]) (simp add: two_ask_requests)
  moreover have "requests r' \<noteq> requests two_ask"
    using fetched_answers [OF repo_reachable_ok [OF two_ask_reachable] f] by (simp add: two_ask_requests)
  ultimately show ?thesis using repository_refines [OF two_ask_reachable] f by blast
qed

text \<open>
  C18. A blob is fetched at most once at a time, a pending request always has a fetch that will answer it, and
  a fetch that ends never blocks on a channel and leaves no request for its blob pending.
\<close>

theorem one_fetch_per_blob:
  assumes "repo_reachable r"
  shows "distinct (fetching r) \<and> (\<forall>d. Pending d \<in> set (requests r) \<longrightarrow> d \<in> set (fetching r)) \<and>
    (\<forall>d res. \<exists>r'. fetched d res r = Some r' \<and> Pending d \<notin> set (requests r'))"
proof (intro conjI allI impI)
  have ok: "repo_ok r" by (rule repo_reachable_ok [OF assms])
  show "distinct (fetching r)" using ok by (simp add: repo_ok_def)
  show "d \<in> set (fetching r)" if "Pending d \<in> set (requests r)" for d
  proof -
    from that obtain i where i: "i < length (waiters r)" "request_of (waiters r ! i) = Pending d"
      by (auto simp: requests_def in_set_conv_nth)
    then have "wpc (waiters r ! i) = Waiting" "wchan (waiters r ! i) = None" "wdigest (waiters r ! i) = d"
      by (auto simp: request_of_def split: wait_pc.splits option.splits)
    then have "i \<in> set (registered r d)" using ok i(1) by (auto simp: repo_ok_def)
    then have "d \<in> dom (inProgress r)" by (cases "inProgress r d") (auto simp: registered_def)
    then show ?thesis using ok by (simp add: repo_ok_def)
  qed
  fix d res
  obtain r' where f: "fetched d res r = Some r'" using fetched_Some [OF ok] by blast
  then show "\<exists>r'. fetched d res r = Some r' \<and> Pending d \<notin> set (requests r')"
    using fetched_answers [OF ok f] by auto
qed

theorem one_fetch_per_blob_witness:
  "distinct (fetching two_ask) \<and> ''d'' \<in> set (fetching two_ask)"
  using one_fetch_per_blob [OF two_ask_reachable] by (simp add: two_ask_requests)

section \<open>Layers and the journal\<close>

text \<open>
  C29. Updating the journal from what porto lists, by binary search in the sorted list and deletion while
  ranging over the map, keeps exactly the recorded layers that porto still has.
\<close>

theorem journal_update_exact:
  assumes "ranges ord (LayersMap j)"
  shows "UpdateFromPorto ord layers j = j\<lparr>LayersMap := LayersMap j |` set layers\<rparr>"
  by (rule UpdateFromPorto_restrict [OF assms])

theorem journal_update_exact_witness:
  "LayersMap (UpdateFromPorto (\<lambda>m. [''a'', ''b'']) [''c'', ''b''] \<lparr>UUID = ''u'', LayersMap = [''a'' \<mapsto> ''1'', ''b'' \<mapsto> ''2''], Manifests = Map.empty\<rparr>) =
   [''b'' \<mapsto> ''2'']"
proof -
  let ?j = "\<lparr>UUID = ''u'', LayersMap = [''a'' \<mapsto> ''1'', ''b'' \<mapsto> ''2''], Manifests = Map.empty\<rparr>"
  have "ranges (\<lambda>m. [''a'', ''b'']) (LayersMap ?j)" by (auto simp: ranges_def)
  from journal_update_exact [OF this] show ?thesis by (auto simp: restrict_map_def fun_eq_iff)
qed

text \<open>
  C11. The download helper imports a layer into porto only directly after the checksum of the very file was
  found to be the digest the profile gives, and when it succeeds the journal maps the image to its layers in
  the order of the profile; when it fails the journal is as before.
\<close>

theorem only_verified_layers:
  assumes "getLayersViaDownloadHelper env name profile b = (r, b')"
  shows "\<exists>es. hist (pw b') = hist (pw b) @ es \<and>
    imports_verified env (bcLayers (bconfig b)) (elems (Layers (ExtInfo profile))) (hist (pw b)) (hist (pw b')) \<and>
    (r = Inr () \<longrightarrow> bjournal b' =
      InsertManifestLayers name (join '';'' (map porto_layer (elems (Layers (ExtInfo profile))))) (bjournal b)) \<and>
    (r \<noteq> Inr () \<longrightarrow> bjournal b' = bjournal b)"
  by (rule helper_spools [OF assms])

definition sample_boxConfig :: portoBoxConfig where
  "sample_boxConfig = \<lparr>bcLayers = ''/l'', bcContainers = ''/c'', bcJournal = ''/j'', bcSpawnConcurrency = 1, bcRegistryAuth = Map.empty,
     bcCleanupEnabled = True, bcSetImgURI = False, bcGc = True, bcDefaultUlimits = '''', bcVolumeBackend = ''overlay'',
     bcDefaultResolvConf = '''', bcVolumeLabel = ''v'', bcDownloadHelperCmd = ''dl'', bcDownloadHelperFallback = False,
     bcMetaName = '''', bcMetaProp = Map.empty\<rparr>"

definition sample_box :: "mem box" where
  "sample_box = \<lparr>pw = sample_pworld, bName = ''porto'', bconfig = sample_boxConfig, bjournal = newJournal ''u'',
     bcontainers = Map.empty, objects = [], bgate = \<lparr>gSem = \<lparr>smCap = 1, smHeld = 0\<rparr>, gQueue = 0\<rparr>, rootPrefix = '''',
     dhEnable = True, dhfEnable = False, propList = []\<rparr>"

lemmas porto_run_simps = rd_bind_def on_part_def gate_enter_def gate_acquire_def gate_release_def through_def
  sem_Acquire_def sem_Release_def attempt_def logged_def gets_def modify_def rd_return_def rd_fail_def call_def Let_def
  on_world_def ack_def

lemma sample_connects: "portoConnect sample_penv w = (Inr (), w\<lparr>hist := hist w @ [(PConnect, True)]\<rparr>)"
  by (simp add: portoConnect_def sample_penv_def connect_loop.simps)

lemma sample_answers [simp]:
  "acks sample_penv h e = Inr ()" "texts sample_penv h (Sha256 p) = Inr ''aa''" "texts sample_penv h (OsTempFile d) = Inr ''/j.tmp''"
  "texts sample_penv h (PGetProperty n p) = Inr (if p = ''state'' then ''running'' else ''10.0.0.2'')"
  "lists sample_penv h e = Inr [''self'']" "vols sample_penv h e = Inr []" "boltdb sample_penv = mem_bolt"
  by (simp_all add: sample_penv_def)

lemma sample_layers:
  "elems (Layers (ExtInfo sample_profile)) = [\<lparr>Digest = ''aa'', DigestType = ''sha256'', Size = 1, TorrentId = ''t''\<rparr>]"
  by (simp add: sample_profile_def)

theorem only_verified_layers_witness:
  "\<exists>b'. getLayersViaDownloadHelper sample_penv ''app'' sample_profile sample_box = (Inr (), b') \<and>
    GetManifestLayers ''app'' (bjournal b') = ''sha256_aa''"
proof -
  obtain b' where b': "getLayersViaDownloadHelper sample_penv ''app'' sample_profile sample_box = (Inr (), b')"
    by (simp add: getLayersViaDownloadHelper_def porto_run_simps sample_connects sample_layers import_layer_def sample_answers)
  from only_verified_layers [OF b'] have "bjournal b' = InsertManifestLayers ''app'' ''sha256_aa'' (bjournal sample_box)"
    by (simp add: sample_layers porto_layer_def)
  then show ?thesis using b' by (simp add: GetManifestLayers_def InsertManifestLayers_def)
qed

text \<open>
  C14. Whenever the daemon dies while it dumps the journal, the file holds the old journal or the new one as a
  whole, and after a dump that reports success it holds the new one.
\<close>

theorem journal_dump_atomic:
  assumes "journal_files_ok env m0 (bcJournal (bconfig b))" "dumpJournal env b = (r, b')"
  shows "\<exists>es. hist (pw b') = hist (pw b) @ es \<and>
    (\<forall>n. files m0 (hist (pw b) @ take n es) (bcJournal (bconfig b)) \<in>
      {files m0 (hist (pw b)) (bcJournal (bconfig b)), Some (Dump (str_range env) (bjournal b))}) \<and>
    (r = Inr () \<longrightarrow> files m0 (hist (pw b')) (bcJournal (bconfig b)) = Some (Dump (str_range env) (bjournal b)))"
  by (rule dumpJournal_atomic [OF assms])

lemma sample_files_ok: "journal_files_ok sample_penv Map.empty ''/j''"
  by (auto simp: journal_files_ok_def sample_penv_def split: option.splits)

lemma sample_dumps: "\<exists>b'. dumpJournal sample_penv sample_box = (Inr (), b')"
  by (simp add: dumpJournal_def porto_run_simps)

theorem journal_dump_atomic_witness:
  "\<exists>b'. dumpJournal sample_penv sample_box = (Inr (), b') \<and> files Map.empty (hist (pw b')) ''/j'' = Some (Dump (str_range sample_penv) (newJournal ''u''))"
proof -
  obtain b' where b': "dumpJournal sample_penv sample_box = (Inr (), b')" using sample_dumps by blast
  have "bcJournal (bconfig sample_box) = ''/j''" "bjournal sample_box = newJournal ''u''"
    by (simp_all add: sample_box_def sample_boxConfig_def)
  then show ?thesis using journal_dump_atomic [OF _ b', of Map.empty] sample_files_ok b' by auto
qed

text \<open>
  C23. The journal survives a restart: a new box that opens the file after a successful dump, with the file untouched
  since, reads from its JSON text the very journal that was dumped, provided all its strings are UTF-8, unless the
  operating system fails to read the file, which is the error then.
\<close>

theorem journal_survives_restart:
  assumes "journal_files_ok env m0 (bcJournal (bconfig b))" "dumpJournal env b = (Inr (), b1)"
    and "bconfig b2 = bconfig b" "bjournal b2 = newJournal uuid"
    and "files m0 (hist (pw b2)) (bcJournal (bconfig b)) = files m0 (hist (pw b1)) (bcJournal (bconfig b))"
    and "acks env (hist (pw b2)) (OsOpen (bcJournal (bconfig b))) = Inr ()" "loadJournal env b2 = (r, b3)"
    and "ranges (str_range env) (LayersMap (bjournal b))" "ranges (str_range env) (Manifests (bjournal b))"
      "journal_valid (bjournal b)"
  shows "r = Inr () \<and> bjournal b3 = bjournal b \<or>
    (\<exists>e. docs env (hist (pw b2) @ [(OsOpen (bcJournal (bconfig b)), True)]) (JournalRead (bcJournal (bconfig b))) = Inl e \<and>
      r = Inl (Reported e))"
proof (rule loadJournal_back [OF assms(1) _ _ assms(4,7,6,8-10)])
  show "files m0 (hist (pw b2)) (bcJournal (bconfig b)) = Some (Dump (str_range env) (bjournal b))"
    using dumpJournal_atomic [OF assms(1,2)] assms(5) by auto
qed (use assms(3) in simp)

definition app_journal :: journal where
  "app_journal = InsertManifestLayers ''app'' ''l'' (newJournal ''u'')"

definition journal_penv :: "(mem, mem) penv" where
  "journal_penv = sample_penv\<lparr>str_range := (\<lambda>m. filter (\<lambda>k. m k \<noteq> None) [''app''])\<rparr>"

lemma app_journal_ok:
  "ranges (str_range journal_penv) (LayersMap app_journal)" "ranges (str_range journal_penv) (Manifests app_journal)"
  "journal_valid app_journal"
  by (auto simp: journal_penv_def app_journal_def InsertManifestLayers_def newJournal_def ranges_def journal_valid_def
      strings_valid_def rune_size_def split: if_splits)

lemma journal_penv_ok: "journal_files_ok journal_penv Map.empty ''/j''"
  by (auto simp: journal_files_ok_def journal_penv_def sample_penv_def split: option.splits)

theorem journal_survives_restart_witness:
  "\<exists>b1 b3. dumpJournal journal_penv (sample_box\<lparr>bjournal := app_journal\<rparr>) = (Inr (), b1) \<and>
    loadJournal journal_penv (sample_box\<lparr>pw := pw b1, bjournal := newJournal ''w''\<rparr>) = (Inr (), b3) \<and>
    GetManifestLayers ''app'' (bjournal b3) = ''l'' \<and> UUID (bjournal b3) = ''u''"
proof -
  let ?b = "sample_box\<lparr>bjournal := app_journal\<rparr>"
  obtain b1 where d: "dumpJournal journal_penv ?b = (Inr (), b1)"
    by (simp add: dumpJournal_def porto_run_simps journal_penv_def)
  let ?b2 = "sample_box\<lparr>pw := pw b1, bjournal := newJournal ''w''\<rparr>"
  obtain r b3 where l: "loadJournal journal_penv ?b2 = (r, b3)" by force
  have p: "bcJournal (bconfig ?b) = ''/j''" by (simp add: sample_box_def sample_boxConfig_def)
  have ok: "journal_files_ok journal_penv Map.empty (bcJournal (bconfig ?b))" unfolding p by (rule journal_penv_ok)
  have "files Map.empty (hist (pw b1)) ''/j'' = Some (Dump (str_range journal_penv) app_journal)"
    using dumpJournal_atomic [OF ok d] p by auto
  then have reads: "docs journal_penv (hist (pw ?b2) @ [(OsOpen ''/j'', True)]) (JournalRead ''/j'') \<noteq> Inl e" for e
    by (simp add: journal_penv_def sample_penv_def)
  have acks: "acks journal_penv h e = Inr ()" for h e by (simp add: journal_penv_def)
  have "r = Inr () \<and> bjournal b3 = bjournal ?b \<or>
    (\<exists>e. docs journal_penv (hist (pw ?b2) @ [(OsOpen (bcJournal (bconfig ?b)), True)]) (JournalRead (bcJournal (bconfig ?b))) = Inl e \<and>
      r = Inl (Reported e))"
    by (rule journal_survives_restart [OF ok d _ _ _ _ l]) (simp_all add: app_journal_ok p acks)
  then have "r = Inr ()" "bjournal b3 = app_journal" unfolding p using reads by auto
  then show ?thesis using d l
    by (intro exI [of _ b1] exI [of _ b3]) (simp add: app_journal_def GetManifestLayers_def InsertManifestLayers_def newJournal_def)
qed

section \<open>Garbage collection\<close>

text \<open>
  C13. Collecting garbage takes no network allocation, and it frees only allocations of this box that are marked
  as used and whose address no container runs with, provided porto answers: an address a container runs
  with (of more than two characters) is freed only when porto failed to list the containers or to tell the
  state or the address of that container.
\<close>

theorem gc_frees_only_stale:
  assumes "bolt_ok (boltdb env) dc tc" "pool dc (mtn w) = Some m" "gc env box cfg w = (r, w')"
    "shows_running env (hist w) running"
  shows "\<exists>m' es. pool dc (mtn w') = Some m' \<and> hist w' = hist w @ es \<and> (\<forall>n k. in_use m' n k \<longrightarrow> in_use m n k) \<and>
    (\<forall>n k. in_use m n k \<longrightarrow> \<not> in_use m' n k \<longrightarrow>
      (\<exists>a. n = aNetId a \<and> k = aId a \<and> stale running box m es a))"
proof -
  from gc_pool [OF assms] obtain m' es where "pool dc (mtn w') = Some m'" "hist w' = hist w @ es"
    "freed_only {(aNetId a, aId a) | a. stale running box m es a} m m'" by blast
  then show ?thesis unfolding freed_only_def by blast
qed

text \<open>A container of the box runs with the address of the one allocation in use.\<close>

definition running_penv :: "(mem, mem) penv" where
  "running_penv = sample_penv\<lparr>texts := (\<lambda>h e. case e of
     PGetProperty n p \<Rightarrow> Inr (if p = ''state'' then ''running'' else ''10.0.0.1'') | _ \<Rightarrow> Inr '''')\<rparr>"

theorem gc_frees_only_stale_witness:
  "\<exists>w' m' es. snd (gc running_penv '''' sample_boxConfig sample_pworld) = w' \<and> pool mem_contents (mtn w') = Some m' \<and>
    hist w' = es \<and> (in_use m' ''net'' ''a'' \<or> unanswered ''self'' es)"
proof -
  obtain r w' where g: "gc running_penv '''' sample_boxConfig sample_pworld = (r, w')" by force
  have b: "bolt_ok (boltdb running_penv) mem_contents mem_contents" using mem_bolt_ok by (simp add: running_penv_def)
  have p: "pool mem_contents (mtn sample_pworld) = Some (mem_contents sample_db)" using sample_pool(1) by (simp add: sample_pworld_def)
  have used: "in_use (mem_contents sample_db) ''net'' ''a''"
    by (simp add: in_use_def sample_contents bucket_of_def is_used_def alloc_def)
  have s: "shows_running running_penv (hist sample_pworld) [''self'' \<mapsto> ''10.0.0.1'']"
    by (simp add: shows_running_def running_penv_def sample_penv_def)
  have "unanswered ''self'' es" if "stale [''self'' \<mapsto> ''10.0.0.1''] '''' (mem_contents sample_db) es a" for es a
    using that by (auto simp: stale_def sample_contents alloc_def split: if_splits)
  moreover from gc_frees_only_stale [OF b p g s] obtain m' es where m': "pool mem_contents (mtn w') = Some m'" "hist w' = es"
    "\<forall>n k. in_use (mem_contents sample_db) n k \<longrightarrow> \<not> in_use m' n k \<longrightarrow>
      (\<exists>a. n = aNetId a \<and> k = aId a \<and> stale [''self'' \<mapsto> ''10.0.0.1''] '''' (mem_contents sample_db) es a)"
    by (auto simp: sample_pworld_def)
  ultimately have "in_use m' ''net'' ''a'' \<or> unanswered ''self'' es" using used by blast
  then show ?thesis using g m'(1,2) by (intro exI [of _ w'] exI [of _ m'] exI [of _ es]) simp
qed

section \<open>The gate\<close>

text \<open>
  C37. Ten spawns of an application that was never spooled close the box: each returns its error without taking
  itself off the counter of the queue, nothing runs and nothing waits, and from then on every spawn of every
  application is refused.
\<close>

theorem unspooled_spawns_close_the_box:
  assumes "decode_profile rt (PortoProfile_DecodeMsg zero_PortoProfile) (scOpts config) = Inr profile"
    "GetManifestLayers (scName config) (bjournal b) = ''''" "gQueue (bgate b) = 0"
    and "decode_profile rt (PortoProfile_DecodeMsg zero_PortoProfile) (scOpts config') = Inr profile'"
    and "b' = ((\<lambda>b. snd (Spawn env rt d p config b)) ^^ 10) b"
  shows "gSem (bgate b') = gSem (bgate b) \<and> pw b' = pw b \<and> Spawn env rt d' p' config' b' = (Inl EAGAIN, b')"
proof -
  have n: "((\<lambda>b. snd (Spawn env rt d p config b)) ^^ n) b = b\<lparr>bgate := (bgate b)\<lparr>gQueue := int n\<rparr>\<rparr>" if "n \<le> 10" for n
    using that
  proof (induction n)
    case 0
    then show ?case using assms(3) by (cases b; cases "bgate b") simp
  next
    case (Suc n)
    then show ?case using Spawn_no_layers [OF assms(1), of "b\<lparr>bgate := (bgate b)\<lparr>gQueue := int n\<rparr>\<rparr>" env d p] assms(2)
      by simp
  qed
  have b': "b' = b\<lparr>bgate := (bgate b)\<lparr>gQueue := 10\<rparr>\<rparr>" using n [of 10] assms(5) by simp
  show ?thesis using Spawn_refused [OF assms(4), of b' env d' p'] by (simp add: b')
qed

text \<open>The empty map of msgpack leaves a porto profile at its defaults.\<close>

lemma empty_porto_profile: "decode_profile rt (PortoProfile_DecodeMsg z) (Some [0x80]) = Inr z"
proof -
  have h: "AppendMapHeader [] 0 = [0x80]" by (simp add: AppendMapHeader_def wfixmap_def)
  have "rMapHeader reader_src (bytes_reader ch cp [0x80]) = (Inr 0, bytes_reader ch cp [])" for ch cp
    using reader.map_header [where n = 0 and bs = "[]" and s = "bytes_reader ch cp []"] by (simp add: h bytes_reader_def)
  then show ?thesis
    by (simp add: decode_profile_def DecodeTo_def PortoProfile_DecodeMsg_def decode_fields_ctx_def rd_wrap_def rd_bind_def rd_return_def)
qed

definition sample_pruntime :: pruntime where
  "sample_pruntime = \<lparr>rdChunk = (\<lambda>n. n), rdCap = (\<lambda>_. 4096), map_range = (\<lambda>m. []), cnt_range = (\<lambda>m. []),
     data_range = (\<lambda>m. []), compact = Inr\<rparr>"

definition sample_request :: "string \<Rightarrow> SpawnConfig" where
  "sample_request name = \<lparr>scOpts = Some [0x80], scName = name, scExecutable = ''run'', scArgs = [''--uuid'' \<mapsto> ''u''], scEnv = Map.empty\<rparr>"

theorem unspooled_spawns_close_the_box_witness:
  "fst (Spawn sample_penv sample_pruntime False False (sample_request ''good'')
    (((\<lambda>b. snd (Spawn sample_penv sample_pruntime False False (sample_request ''bad'') b)) ^^ 10)
      (sample_box\<lparr>bjournal := InsertManifestLayers ''good'' ''l'' (newJournal ''u'')\<rparr>))) = Inl EAGAIN"
proof -
  let ?b = "sample_box\<lparr>bjournal := InsertManifestLayers ''good'' ''l'' (newJournal ''u'')\<rparr>"
  have d: "decode_profile sample_pruntime (PortoProfile_DecodeMsg zero_PortoProfile) (scOpts (sample_request name)) = Inr zero_PortoProfile" for name
    by (simp add: sample_request_def empty_porto_profile)
  have "GetManifestLayers (scName (sample_request ''bad'')) (bjournal ?b) = ''''"
    by (simp add: sample_request_def GetManifestLayers_def InsertManifestLayers_def newJournal_def)
  moreover have "gQueue (bgate ?b) = 0" by (simp add: sample_box_def)
  ultimately show ?thesis
    using unspooled_spawns_close_the_box [OF d _ _ d [of "''good''"] refl, where env = sample_penv and d = False and p = False
        and d' = False and p' = False] by (simp del: funpow.simps)
qed

section \<open>Containers\<close>

text \<open>
  C3. What a spawn leaves at porto, a call counting only when porto answered it with success.  When it
  succeeds its container exists, is started and holds its root volume and its extra volumes, and nothing
  else it made is left but what porto refused to destroy or to unlink.  When it fails, does not end the
  daemon and cleaning up is enabled in the configuration, nothing is left but extra volumes still held by
  the host and what porto refused to destroy or to unlink.
\<close>

theorem spawn_all_or_nothing:
  assumes "spawn_cfg rt config b = Some cfg" "ccID cfg \<noteq> ''/''" "Spawn env rt d p config b = (r, b')"
  shows "\<exists>es. hist (pw b') = hist (pw b) @ es \<and> (case r of
      Inl e \<Rightarrow> fatal e \<or> \<not> ccCleanupEnabled cfg \<or>
        existing es \<subseteq> undestroyed es \<and>
        held es \<subseteq> (set (extra_paths cfg) - {root_path cfg}) \<times> {''/''} \<union> unreleased es
    | Inr i \<Rightarrow> ccID cfg \<in> existing es \<and> existing es \<subseteq> insert (ccID cfg) (undestroyed es) \<and>
        set (root_path cfg # extra_paths cfg) \<times> {ccID cfg} \<subseteq> held es \<and>
        held es \<subseteq> set (root_path cfg # extra_paths cfg) \<times> {ccID cfg} \<union> unreleased es \<and>
        (PStart (ccID cfg), True) \<in> set es)"
proof -
  from Spawn_ledger [OF assms] obtain es where es: "hist (pw b') = hist (pw b) @ es" "spawn_post cfg r es"
    unfolding spawn_post_def by blast
  note between = held_between [of es] existing_between [of es]
  show ?thesis
  proof (cases r)
    case (Inl e)
    have "fatal e \<or> \<not> ccCleanupEnabled cfg \<or> existing es \<subseteq> undestroyed es \<and>
        held es \<subseteq> (set (extra_paths cfg) - {root_path cfg}) \<times> {''/''} \<union> unreleased es"
      using es(2) between by (simp add: spawn_post_def Inl) blast
    then show ?thesis using es(1) Inl by (intro exI [of _ es]) simp
  next
    case (Inr i)
    then show ?thesis using es between by (intro exI [of _ es]) (simp add: spawn_post_def)
  qed
qed

definition picks :: "containerConfig \<Rightarrow> mem pworld \<Rightarrow> bool" where
  "picks cfg w \<longleftrightarrow> get_str (PortoProfile.Network (eProfile cfg)) ''mtn'' \<noteq> ''enable'' \<or>
     (\<exists>a c. UseAlloc mem_bolt cd_order two_responses (netid cfg) (ccBoxName cfg) (mtn w) = (Inr a, c))"

lemma sample_str_range [simp]: "pairs (str_range sample_penv) m = []" "alloc_range sample_penv = cd_order" "allocator sample_penv h = two_responses"
  by (simp_all add: sample_penv_def pairs_def)

lemma sample_picks:
  assumes "picks cfg w" "Enable (Cfg (mtn w))" "eProfile c = eProfile cfg" "ccBoxName c = ccBoxName cfg" "mtn w' = mtn w"
  shows "\<exists>p' c' w''. pick_network sample_penv c p w' = (Inr (p', c'), w'') \<and>
    ccMtn c' = (get_str (PortoProfile.Network (eProfile cfg)) ''mtn'' = ''enable'')"
  using assms by (auto simp: picks_def pick_network_def netid_def Let_def rd_bind_def on_mtn_def rd_return_def)

lemma sample_creates:
  assumes "picks cfg w" "Enable (Cfg (mtn w))" "mtn w' = mtn w"
  shows "\<exists>c' v' w''. create_body sample_penv cfg v [] w' = (Inr ((c', v', []), None), w'') \<and>
    ccMtn c' = (get_str (PortoProfile.Network (eProfile cfg)) ''mtn'' = ''enable'')"
proof -
  obtain p c where c: "container_properties (str_range sample_penv) cfg (vpath v) = (p, c)" by force
  have same: "eProfile c = eProfile cfg" "ccBoxName c = ccBoxName cfg"
    using c by (auto simp: container_properties_def Let_def formatBinds_def split: if_splits)
  obtain p' c' w1 where pk: "pick_network sample_penv c p w' = (Inr (p', c'), w1)"
      "ccMtn c' = (get_str (PortoProfile.Network (eProfile cfg)) ''mtn'' = ''enable'')"
    using sample_picks [OF assms(1,2) same assms(3)] by blast
  show ?thesis using pk by (simp add: create_body_def c porto_run_simps Volume_Link_def)
qed

lemma sample_new:
  assumes "picks cfg w" "Enable (Cfg (mtn w))" "elems (ExtraVolumes (eProfile cfg)) = []"
  shows "\<exists>k w'. newContainer sample_penv cfg w = (Inr k, w') \<and> cextraVolumes k = [] \<and>
    cmtn k = (get_str (PortoProfile.Network (eProfile cfg)) ''mtn'' = ''enable'')"
proof -
  obtain v w1 where v: "CreateRootVolume sample_penv cfg w = (Inr v, w1)" "mtn w1 = mtn w"
    by (simp add: CreateRootVolume_def porto_run_simps)
  let ?w = "w1\<lparr>hist := hist w1 @ [(PCreate (ccID cfg), True)]\<rparr>"
  obtain c' v' w2 where c: "create_body sample_penv cfg v [] ?w = (Inr ((c', v', []), None), w2)"
      "ccMtn c' = (get_str (PortoProfile.Network (eProfile cfg)) ''mtn'' = ''enable'')"
    using sample_creates [OF assms(1,2), of ?w v] v(2) by auto
  have "CreateContainer sample_penv cfg v [] w1 = (Inr ((c', v', []), None), w2)"
    using c(1) by (simp add: CreateContainer_def porto_run_simps)
  then show ?thesis using v(1) c(2) assms(3) by (simp add: newContainer_def CreateExtraVolumes_def porto_run_simps)
qed

definition spooled_box :: "mem box" where
  "spooled_box = sample_box\<lparr>bjournal := InsertManifestLayers ''good'' ''l'' (newJournal ''u'')\<rparr>"

definition good_cfg :: containerConfig where
  "good_cfg = spawn_config spooled_box zero_PortoProfile (sample_request ''good'') ''l''"

lemma good_spawn:
  "spawn_cfg sample_pruntime (sample_request ''good'') spooled_box = Some good_cfg" "ccID good_cfg = ''good_u''"
  "\<exists>i b'. Spawn sample_penv sample_pruntime False False (sample_request ''good'') spooled_box = (Inr i, b')"
proof -
  have d: "decode_profile sample_pruntime (PortoProfile_DecodeMsg zero_PortoProfile) (scOpts (sample_request ''good'')) = Inr zero_PortoProfile"
    by (simp add: sample_request_def empty_porto_profile)
  have l: "GetManifestLayers (scName (sample_request ''good'')) (bjournal spooled_box) = ''l''"
    by (simp add: sample_request_def spooled_box_def GetManifestLayers_def InsertManifestLayers_def)
  show "spawn_cfg sample_pruntime (sample_request ''good'') spooled_box = Some good_cfg"
    by (simp add: spawn_cfg_def d l good_cfg_def)
  have "addRootNamespacePrefix '''' (appGenLabel ''good'' @ ''_'' @ ''u'') = ''good_u''" by code_simp
  then show "ccID good_cfg = ''good_u''"
    by (simp add: good_cfg_def spawn_config_def Let_def spooled_box_def sample_box_def sample_request_def get_str_def)
  have pr: "eProfile good_cfg = zero_PortoProfile" by (simp add: good_cfg_def spawn_config_def Let_def)
  have new: "\<exists>k w'. newContainer sample_penv good_cfg w = (Inr k, w')" if "Enable (Cfg (mtn w))" for w
    using sample_new [OF _ that, of good_cfg] by (auto simp: picks_def pr zero_PortoProfile_def get_str_def elems_def nil_slice_def)
  let ?b = "spooled_box\<lparr>bgate := \<lparr>gSem = \<lparr>smCap = 1, smHeld = 0\<rparr>, gQueue = 1\<rparr>\<rparr>"
  let ?w = "sample_pworld\<lparr>hist := [(PConnect, True)]\<rparr>"
  have e: "rd_bind (on_part bgate put_bgate gate_enter) f spooled_box = f () ?b" for f :: "unit \<Rightarrow> (gerr, mem box, nat) rd"
    by (simp add: spooled_box_def sample_box_def rd_bind_def on_part_def gate_enter_def put_bgate_def Let_def)
  have g: "rd_bind (gets h) f b = f (h b) b" for h :: "mem box \<Rightarrow> 'x" and f :: "'x \<Rightarrow> (gerr, mem box, nat) rd" and b
    by (simp add: rd_bind_def gets_def)
  have c: "spawn_config ?b zero_PortoProfile (sample_request ''good'') ''l'' = good_cfg" "bjournal ?b = bjournal spooled_box"
    by (simp_all add: good_cfg_def spawn_config_def)
  have o: "rd_bind (on_world (portoConnect sample_penv)) f ?b = f () (?b\<lparr>pw := ?w\<rparr>)" for f :: "unit \<Rightarrow> (gerr, mem box, nat) rd"
    by (simp add: rd_bind_def on_world_def sample_connects spooled_box_def sample_box_def sample_pworld_def)
  obtain k w' where k: "newContainer sample_penv good_cfg ?w = (Inr k, w')"
    using new [of ?w] by (auto simp: sample_pworld_def sample_mtn_def)
  have s: "\<exists>i b'. through bgate put_bgate False False
      (rd_bind (on_world (newContainer sample_penv good_cfg)) (spawn_started sample_penv)) (?b\<lparr>pw := ?w\<rparr>) = (Inr i, b')"
    by (simp add: porto_run_simps put_bgate_def k spawn_started_def container_start_def)
  show "\<exists>i b'. Spawn sample_penv sample_pruntime False False (sample_request ''good'') spooled_box = (Inr i, b')"
    using s by (simp add: Spawn_def d e g c l o del: One_nat_def)
qed

theorem spawn_all_or_nothing_witness:
  "\<exists>i b'. Spawn sample_penv sample_pruntime False False (sample_request ''good'') spooled_box = (Inr i, b') \<and>
    ''good_u'' \<in> existing (hist (pw b')) \<and>
    existing (hist (pw b')) \<subseteq> insert ''good_u'' (undestroyed (hist (pw b')))"
proof -
  obtain i b' where s: "Spawn sample_penv sample_pruntime False False (sample_request ''good'') spooled_box = (Inr i, b')"
    using good_spawn(3) by blast
  have "hist (pw spooled_box) = []" by (simp add: spooled_box_def sample_box_def sample_pworld_def)
  then show ?thesis using spawn_all_or_nothing [OF good_spawn(1) _ s] s good_spawn(2) by auto
qed

text \<open>
  C10. A container that was made and is then killed leaves nothing at porto but what porto refuses to give up:
  when cleaning up is enabled and the connection for the kill can be made, every container still there is one
  porto refused to destroy, and every volume still held by a container is one porto refused to unlink from
  it or whose holder it refused to destroy, whatever porto answers to the kill itself.
\<close>

theorem killed_container_cleaned:
  assumes "newContainer env cfg w = (Inr k, w1)" "ccID cfg \<noteq> ''/''" "ccCleanupEnabled cfg"
    "container_Kill env k w1 = (Inr (k', res), w2)" "hist w2 \<noteq> hist w1 @ [(PConnect, False)]"
  shows "\<exists>es. hist w2 = hist w @ es \<and> existing es \<subseteq> undestroyed es \<and> held es \<subseteq> unreleased es"
proof -
  from issuesD [OF newContainer_issues [OF assms(2)] assms(1)] obtain fs where
    fs: "hist w1 = hist w @ fs" "new_post cfg (Inr k) fs" by blast
  from issuesD [OF container_Kill_issues assms(4)] obtain gs where
    gs: "hist w2 = hist w1 @ gs" "after_neutral (kill_post k) (Inr (k', res)) gs" using assms(5) by auto
  then obtain ns es where es: "gs = ns @ es" "\<forall>c \<in> set ns. neutral c" "map fst es = cleanup_calls k"
    unfolding after_neutral_def kill_post_def by auto
  have en: "cleanupEnabled k" using new_post_Inr(4) [OF fs(2)] assms(3) by simp
  let ?es = "fs @ ns @ es"
  have "asked_existing ?es {} = {}" "asked_held ?es {} = {}"
    using new_post_Inr [OF fs(2)] neutral_ledger [OF es(2)] ledger_cleanup [OF es(3) en] by auto
  then have "existing ?es \<subseteq> undestroyed ?es" "held ?es \<subseteq> unreleased ?es"
    using held_between(2) [of ?es] existing_between(2) [of ?es] by blast+
  then show ?thesis using fs(1) gs(1) es(1) by (intro exI [of _ ?es]) simp
qed

lemma sample_cleanup:
  assumes "\<not> cmtn k" "cextraVolumes k = []"
  shows "\<exists>w2 es. Cleanup sample_penv k w = (Inr k, w2) \<and> hist w2 = hist w @ es"
proof -
  have v: "\<exists>w2 es. Volume_Destroy sample_penv u w = (Inr (Inr ()), w2) \<and> hist w2 = hist w @ es" for u w
    by (cases "vstorage u"; cases "vlinked u")
       (simp_all add: Volume_Destroy_def portoVolume_Destroy_def rd_bind_def ack_def logged_call attempt_call rd_return_def)
  obtain w1 es where w1: "Volume_Destroy sample_penv (cvolume k) w = (Inr (Inr ()), w1)" "hist w1 = hist w @ es" using v by blast
  show ?thesis using assms w1 by (simp add: Cleanup_def rd_bind_def rd_return_def ack_def logged_call)
qed

lemma sample_kill:
  assumes "\<not> cmtn k" "cextraVolumes k = []"
  shows "\<exists>w2 es. container_Kill sample_penv k w = (Inr (k, Inr ()), w2) \<and> hist w2 = hist w @ (PConnect, True) # es"
proof -
  have c: "attempt (portoConnect sample_penv) w = (Inr (Inr ()), w\<lparr>hist := hist w @ [(PConnect, True)]\<rparr>)" for w
    by (simp add: attempt_def sample_connects)
  have d: "\<exists>w1 es. send_data sample_penv k s w = (Inr (), w1) \<and> hist w1 = hist w @ es" for s and w :: "mem pworld"
    by (simp add: send_data_def rd_bind_def attempt_call Let_def ack_def logged_call rd_return_def)
  obtain w1 es1 where 1: "send_data sample_penv k ''stdout'' (w\<lparr>hist := hist w @ [(PConnect, True)]\<rparr>) = (Inr (), w1)"
    "hist w1 = hist w @ (PConnect, True) # es1" using d [of "''stdout''" "w\<lparr>hist := hist w @ [(PConnect, True)]\<rparr>"] by auto
  obtain w2 es2 where 2: "send_data sample_penv k ''stderr'' w1 = (Inr (), w2)" "hist w2 = hist w1 @ es2" using d by blast
  let ?w = "w2\<lparr>hist := hist w2 @ [(PKill (containerID k), True), (PWait (containerID k), True)]\<rparr>"
  obtain w3 es3 where 3: "Cleanup sample_penv k ?w = (Inr k, w3)" "hist w3 = hist ?w @ es3" using sample_cleanup [OF assms] by blast
  show ?thesis using 1 2 3 by (simp add: container_Kill_def rd_bind_def c ack_def attempt_call rd_return_def)
qed

theorem killed_container_cleaned_witness:
  "\<exists>k w1 k' res w2. newContainer sample_penv good_cfg sample_pworld = (Inr k, w1) \<and>
    container_Kill sample_penv k w1 = (Inr (k', res), w2) \<and> existing (hist w2) \<subseteq> undestroyed (hist w2)"
proof -
  have pr: "eProfile good_cfg = zero_PortoProfile" "ccCleanupEnabled good_cfg"
    by (simp_all add: good_cfg_def spawn_config_def Let_def spooled_box_def sample_box_def sample_boxConfig_def)
  obtain k w1 where k: "newContainer sample_penv good_cfg sample_pworld = (Inr k, w1)" "\<not> cmtn k" "cextraVolumes k = []"
    using sample_new [of good_cfg sample_pworld]
    by (auto simp: picks_def pr zero_PortoProfile_def get_str_def elems_def nil_slice_def sample_pworld_def sample_mtn_def)
  obtain w2 es where x: "container_Kill sample_penv k w1 = (Inr (k, Inr ()), w2)" "hist w2 = hist w1 @ (PConnect, True) # es"
    using sample_kill [OF k(2,3)] by blast
  have "ccID good_cfg \<noteq> ''/''" using good_spawn(2) by simp
  from killed_container_cleaned [OF k(1) this pr(2) x(1)] x(2) have "existing (hist w2) \<subseteq> undestroyed (hist w2)"
    by (auto simp: sample_pworld_def)
  then show ?thesis using k(1) x(1) by blast
qed

text \<open>
  C4. The life of a network allocation: a new container on the network of the pool has an allocation nobody used,
  which is the only change of what is in use; cleaning the container up gives back that allocation and no other, so
  that afterwards the same allocations are in use as before, unless the database fails.
\<close>

theorem allocation_returned:
  assumes "bolt_ok (boltdb env) dc tc" "pool dc (mtn w) = Some m" "pool_ok m"
    "\<And>h allocs. RequestAllocs (allocator env h) (Cfg (mtn w)) (netid cfg) = Inr allocs \<Longrightarrow> visits (alloc_range env) allocs"
    "\<And>h. fresh_response m (allocator env h) (Cfg (mtn w)) (netid cfg)"
    "newContainer env cfg w = (Inr k, w1)" "Cleanup env k w1 = (r, w2)"
  shows "\<exists>m1 m2. pool dc (mtn w1) = Some m1 \<and> pool dc (mtn w2) = Some m2 \<and>
    (\<forall>n i. in_use m1 n i \<longleftrightarrow> in_use m n i \<or> cmtn k \<and> n = cnetId k \<and> i = cmtnAllocationId k) \<and>
    (cmtn k \<longrightarrow> \<not> in_use m (cnetId k) (cmtnAllocationId k)) \<and>
    ((\<forall>n i. in_use m2 n i \<longleftrightarrow> in_use m n i) \<or>
     (\<exists>e. fst (FreeDbAlloc (boltdb env) (cnetId k) (cmtnAllocationId k) (mtn w1)) = Inl e) \<and> m2 = m1)"
proof -
  from pool_runD [OF newContainer_pool assms(6)] have post: "net_post env cfg container_net (mtn w) (Inr k) (mtn w1)"
    and k: "cnetId k = netid cfg" "cmtnAllocCleaned k = (\<not> cmtn k)" by auto
  obtain m1 where m1: "pool dc (mtn w1) = Some m1"
      "\<forall>n i. in_use m1 n i \<longleftrightarrow> in_use m n i \<or> cmtn k \<and> n = cnetId k \<and> i = cmtnAllocationId k"
      "cmtn k \<longrightarrow> \<not> in_use m (cnetId k) (cmtnAllocationId k)"
  proof (cases "cmtn k")
    case False
    then have "mtn w1 = mtn w" using post by (auto simp: net_post_def container_net_def)
    then show thesis using that [of m] assms(2) False by simp
  next
    case True
    then obtain h a where u: "UseAlloc (boltdb env) (alloc_range env) (allocator env h) (netid cfg) (ccBoxName cfg) (mtn w) = (Inr a, mtn w1)"
      "cmtnAllocationId k = aId a" using post by (auto simp: net_post_def container_net_def)
    from UseAlloc_exclusive [OF assms(1-3) assms(4) [where h = h] assms(5) u(1)] obtain m1 where "pool dc (mtn w1) = Some m1"
      "\<not> in_use m (netid cfg) (aId a)" "\<forall>n i. in_use m1 n i \<longleftrightarrow> in_use m n i \<or> n = netid cfg \<and> i = aId a" by blast
    then show thesis using that [of m1] True u(2) k(1) by simp
  qed
  have "\<exists>m2. pool dc (mtn w2) = Some m2 \<and> ((\<forall>n i. in_use m2 n i \<longleftrightarrow> in_use m n i) \<or>
     (\<exists>e. fst (FreeDbAlloc (boltdb env) (cnetId k) (cmtnAllocationId k) (mtn w1)) = Inl e) \<and> m2 = m1)"
  proof (cases "cmtn k")
    case False
    then have "mtn w2 = mtn w1" using pool_runD [OF Cleanup_pool assms(7)] by simp
    then show ?thesis using m1 False by auto
  next
    case True
    then obtain res where res: "UnuseAlloc (boltdb env) (cnetId k) (cmtnAllocationId k) (mtn w1) = (res, mtn w2)"
      using pool_runD [OF Cleanup_pool assms(7)] k(2) by auto
    obtain q c where q: "FreeDbAlloc (boltdb env) (cnetId k) (cmtnAllocationId k) (mtn w1) = (q, c)" by force
    have c: "mtn w2 = c" using res q by (auto simp: UnuseAlloc_def split: sum.splits merr.splits)
    show ?thesis
    proof (cases q)
      case (Inr u)
      from FreeDbAlloc_releases [OF assms(1) m1(1) q [unfolded Inr]] obtain m2 where m2: "pool dc c = Some m2"
        "\<forall>n i. in_use m2 n i \<longleftrightarrow> in_use m1 n i \<and> (n, i) \<noteq> (cnetId k, cmtnAllocationId k)" by blast
      then show ?thesis using m1(2,3) True c by (intro exI [of _ m2]) auto
    next
      case (Inl e)
      have "pool dc c = pool dc (mtn w1)" using with_tx_Inl(1) [OF assms(1)] q Inl by (metis FreeDbAlloc_def)
      then show ?thesis using m1(1) c q Inl by (intro exI [of _ m1]) auto
    qed
  qed
  then show ?thesis using m1 by blast
qed

theorem allocation_returned_witness:
  "\<exists>k w1 r w2 m2. newContainer sample_penv (good_cfg\<lparr>eProfile := sample_profile\<rparr>) sample_pworld = (Inr k, w1) \<and>
    cmtn k \<and> \<not> in_use (mem_contents sample_db) (cnetId k) (cmtnAllocationId k) \<and>
    Cleanup sample_penv k w1 = (r, w2) \<and> pool mem_contents (mtn w2) = Some m2"
proof -
  let ?cfg = "good_cfg\<lparr>eProfile := sample_profile\<rparr>"
  have n: "netid ?cfg = ''net''" "get_str (PortoProfile.Network (eProfile ?cfg)) ''mtn'' = ''enable''"
    by (simp_all add: netid_def sample_profile_def get_str_def)
  have m: "mtn sample_pworld = sample_mtn" by (simp add: sample_pworld_def)
  have "picks ?cfg sample_pworld" unfolding picks_def n(1) m
    by (simp add: UseAlloc_def with_tx_def GetDbAlloc_def mem_bolt_def mem_bucket_def sample_mtn_def sample_db_def
        DbAllocIsFree_def alloc_def put_def rd_bind_def rd_return_def Let_def)
  then obtain k w1 where k: "newContainer sample_penv ?cfg sample_pworld = (Inr k, w1)" "cmtn k"
    using sample_new [of ?cfg sample_pworld] n(2)
    by (auto simp: m sample_mtn_def sample_profile_def zero_PortoProfile_def elems_def nil_slice_def)
  obtain r w2 where c: "Cleanup sample_penv k w1 = (r, w2)" by force
  have "bolt_ok (boltdb sample_penv) mem_contents mem_contents" using mem_bolt_ok by simp
  from allocation_returned [OF this _ sample_pool(2) _ _ k(1) c] show ?thesis
    using sample_pool(1) cd_visits sample_fresh k c by (auto simp: m n(1))
qed

end
