(* ===== verification/Spec2Isabelle.thy ===== *)
theory Spec2Isabelle
  imports Conn_Props Support Box_Props Porto_Props
begin

text \<open>
  A verification development for stout, the isolation daemon of the Cocaine cloud.

  \<^bold>\<open>The program.\<close>  The runtime connects to the daemon and multiplexes sessions over one connection.  A
  session asks an isolation, called a box, to \<^emph>\<open>spool\<close> the code of an application or to \<^emph>\<open>spawn\<close> a worker of it;
  a worker is killed on request or when the connection ends.  Messages and profiles are msgpack.  There are three
  boxes: docker, porto and plain processes.  The porto box may take network addresses from a pool kept in a
  database and filled by a remote allocator.  \<^verbatim>\<open>src/daemon\<close> makes the boxes from the configuration and
  listens.

  \<^bold>\<open>How code is modelled.\<close>  A Go function that reads or changes something is a function
  \<open>'s \<Rightarrow> ('e + 'a) \<times> 's\<close> (\<open>rd\<close> in \<open>Prelude\<close>), errors being the left summand.  What is outside of the
  sources (docker, porto, the registry, the operating system, bolt, the allocator, the order in which a map is
  ranged over) is an argument: a record of answers, each a function of the calls made so far and of the call
  (\<open>Host\<close>).  So an answer may depend on everything the daemon did, and a theorem that quantifies over the
  record holds for every behaviour of the outside.  Goroutines are the rules of inductive step relations.  A
  panic and a wait that never ends are errors that no handler catches (\<open>fatal\<close>).

  \<^bold>\<open>Theories.\<close>
  \<^item> \<open>Prelude\<close>: the error monad, words, bytes, maps with an iteration order, the shared collections of lemmas.
  \<^item> \<open>Msgp_*\<close> (vendored msgp and fwd): the buffered reader, the byte slice reader, both writers, the number type
    and the walkers \<open>Skip\<close>, \<open>CopyNext\<close>, \<open>Locate\<close>.  A locale for a source of msgpack is interpreted for
    the reader and for byte slices, so that each decoder is proved once.
  \<^item> \<open>Docker_Codec\<close>, \<open>Porto_Codec\<close>, \<open>Process_Codec\<close>: the generated codecs of the three profiles;
    \<open>Codec_Props\<close>: round trips, agreement of encoders, behaviour under failing writers, and on which
    objects the walkers agree.
  \<^item> \<open>Response\<close>, \<open>Dispatch\<close>, \<open>Connection\<close>, \<open>Connection_Inv\<close> (\<^verbatim>\<open>conn_handler.go\<close>, the dispatchers,
    \<^verbatim>\<open>profile.go\<close>): the connection as a step relation over its sessions and background goroutines;
    \<open>Conn_Props\<close>: a process is killed at most once and, however the goroutines are scheduled after the end of
    the connection, in the end exactly once; one terminal reply, the invariant, replies only on channels that
    were asked on, requests and their errors.
  \<^item> \<open>Mtn\<close>, \<open>Mtn_Pool\<close> (\<^verbatim>\<open>mtn.go\<close>): the pool of network allocations over an abstract transactional
    database; \<open>Mtn_Props\<close>: exclusive use, refilling, errors change nothing.
  \<^item> \<open>Host\<close>: the outside, Go's paths and strings, and judgements on the calls an operation makes;
    \<open>Path_Laws\<close>: cleaned paths stay below a directory.
  \<^item> \<open>Semaphore\<close>, \<open>Admission\<close>: the semaphore and the queue counter in front of it, for one spawn and as a
    step relation for many; the locale \<open>gated\<close> is interpreted for the three boxes.
  \<^item> \<open>Json\<close>: of Go's \<^verbatim>\<open>encoding/json\<close>, the writing of strings and maps and the reading of any value, with the
    replacement of bytes that are not UTF-8, and that what is written is read back.
  \<^item> \<open>Porto_Container\<close> (\<^verbatim>\<open>container_config.go\<close>, \<^verbatim>\<open>container.go\<close>), \<open>Porto_Journal\<close> (\<^verbatim>\<open>journal.go\<close>),
    \<open>Porto_Blob\<close> (\<^verbatim>\<open>repository.go\<close>), \<open>Porto_Box\<close> (\<^verbatim>\<open>box.go\<close>, \<^verbatim>\<open>utils.go\<close>): the porto box.  \<open>Porto_Laws\<close>,
    \<open>Porto_Net\<close>, \<open>Porto_Box_Laws\<close> and \<open>Porto_Spool\<close> follow containers, volumes, allocations and files through
    the history of calls: \<open>held\<close> and \<open>existing\<close> are what porto keeps, a call counting only when it was
    answered with success, and \<open>unreleased\<close> and \<open>undestroyed\<close> what it refused to give up.  \<open>Porto_Props\<close> has the
    properties, among them that shared downloads refine the contract of the repository.
  \<^item> \<open>Docker_Box\<close>, \<open>Process_Box\<close>, \<open>Daemon\<close>: the other boxes (with archives and the code storage) and the
    daemon; \<open>Box_Props\<close>: admission, output, removal, confinement of archives, reaping, start-up.
  \<^item> \<open>Support\<close>: log levels and records, the lines for graphite, the choice of an exporter.

  \<^bold>\<open>Bounds.\<close>  Machine integers of the wire format are words.  Loops that run until the box is closed take the
  rounds as an argument, a number or the list of what each round receives, and the theorems hold for all of
  them.  Connecting to porto retries without a bound and is a \<open>partial_function\<close>: not returning is \<open>None\<close>,
  which becomes a fatal error.  All other recursions are total.

  \<^bold>\<open>Hypotheses about the outside.\<close>  The database is transactional (\<open>bolt_ok\<close>); ranging over a map visits each
  key once (\<open>ranges\<close>, \<open>visits\<close>); reading the journal's file gives what the daemon's own writes and renames
  left there, and a temporary file is another file (\<open>journal_files_ok\<close>); a journal that is to survive a restart
  has strings in UTF-8 only (\<open>journal_valid\<close>); no read of docker's output begins inside the header of a frame
  (\<open>headers_whole\<close>); archives have no entry with two dots in its name, and no file entry that names nothing
  below the root (\<open>safe_item\<close>); the allocator does not hand out what the pool has (\<open>fresh_response\<close>); a
  container that runs during garbage collection is listed, reported to run and shown with its address
  whenever porto answers at all (\<open>shows_running\<close>).  In the ledger of porto a call that was not answered with
  success changed nothing, and destroying a container releases the volumes linked to it.  Each hypothesis is
  discharged on a concrete instance by a witness.

  \<^bold>\<open>Not modelled.\<close>  JSON other than the journal's, and option maps (the decoded values are arguments); the
  difference between a nil and an empty map; HTTP, TCP and the accept
  loop; time-outs, sleeps and deadlines; closing of connections to porto; \<^verbatim>\<open>Close\<close> of the docker and of the
  process box, which cancel a context; a failing writer of a worker's output; logging and meters other than the
  queue counter; debug output (\<^verbatim>\<open>String\<close> of configurations and footprints); file descriptor
  counts; \<^verbatim>\<open>pkg/config\<close>, which repeats \<^verbatim>\<open>isolate.go\<close>; the parts of msgp the daemon does not use.  In the
  boxes one operation runs at a time, between the steps of other goroutines; interleaving is modelled for
  connections, admission and downloads.
\<close>

section \<open>Raw profiles\<close>

text \<open>
  A raw profile decodes once, to what was encoded in it; decoding it again is an error and not
  a second use of the buffer.
\<close>

theorem raw_profile_decodes_once:
  assumes "PortoProfile_wf ord z"
  shows "\<exists>z'. DecodeTo ch cp (PortoProfile_DecodeMsg z0) (Some (PortoProfile_MarshalMsg ord z [])) = (Inr z', None) \<and>
    PortoProfile_agree z' z \<and>
    DecodeTo ch cp (PortoProfile_DecodeMsg z0)
      (snd (DecodeTo ch cp (PortoProfile_DecodeMsg z0) (Some (PortoProfile_MarshalMsg ord z [])))) = (Inl ErrTwiceDecodedTo, None)"
proof -
  obtain z' where "PortoProfile_DecodeMsg z0 ((bytes_reader ch cp [])\<lparr>rest := PortoProfile_MarshalMsg ord z [] @ []\<rparr>) =
      (Inr z', (bytes_reader ch cp [])\<lparr>rest := []\<rparr>)" "PortoProfile_agree z' z"
    using reader.porto_profile_back [OF assms, where bs = "[]" and s = "bytes_reader ch cp []"]
    unfolding PortoProfile_DecodeMsg_def by metis
  then show ?thesis by (simp add: DecodeTo_def bytes_reader_def)
qed

theorem raw_profile_decodes_once_witness:
  "\<exists>z'. fst (DecodeTo (\<lambda>n. n) (\<lambda>_. 4096) (PortoProfile_DecodeMsg sample_porto)
      (Some (PortoProfile_MarshalMsg sample_order sample_porto []))) = Inr z' \<and> PortoProfile_agree z' sample_porto"
  using raw_profile_decodes_once [OF sample_porto_wf, of "\<lambda>n. n" "\<lambda>_. 4096" sample_porto] by auto

end
